theory Spec2Isabelle
  imports Main "HOL-Library.Sublist"
begin

section \<open>Values, effects and the plugin interface (src/plugins.ts, src/config.ts)\<close>

text \<open>
  A thrown JavaScript value is represented by its message. A function of the program that
  performs effects returns the list of effects it performed, in order, together with its
  outcome: \<open>Inl e\<close> when it threw \<open>e\<close>, \<open>Inr v\<close> when it returned \<open>v\<close>.
  The effects recorded are the calls of plugin hooks, the console writes, the file system
  writes and the messages sent to clients.
\<close>

type_synonym path = string

datatype js_error = JsError string

text \<open>The messages of the update channel (\<open>HMRPayload\<close> of src/server.ts).\<close>

datatype payload_type = Update | Reload | ErrorMessage | Prune

record HMRPayload =
  p_type :: payload_type
  p_path :: "string option"
  p_timestamp :: "nat option"
  p_modules :: "string list option"
  p_message :: "string option"
  p_stack :: "string option"

datatype event =
    ConsoleLog string
  | ConsoleWarn string
  | ConsoleError string js_error
  | HookCall string string
  | TransformCall string path
  | EnsureDir path
  | WriteFile path string
  | ClientSend nat HMRPayload

type_synonym srcmap = string

text \<open>The value a \<open>transform\<close> hook returns when it is neither null nor undefined.\<close>

datatype transform_result = ResultString string | ResultObject string "srcmap option"

datatype entry_config =
    EntryString string
  | EntryArray "string list"
  | EntryObject "(string \<times> string) list"
  | EntryNull
  | EntryOther

text \<open>
  \<open>AetherConfig\<close> without its \<open>plugins\<close> field, which the functions below take as a
  separate argument (a hook receives the configuration, so the configuration a hook sees
  cannot itself contain hooks). Only the fields the build and the server read are kept:
  \<open>sourcemap\<close> is the truthiness of \<open>optimize?.sourcemap\<close>, \<open>verbose\<close> that of
  \<open>debug?.verbose\<close>, \<open>server\<close> whether \<open>config.server\<close> is present, \<open>aliases\<close> is
  \<open>config.alias\<close> (the word is reserved here).
\<close>

record AetherConfig =
  entry :: entry_config
  outDir :: string
  server :: bool
  sourcemap :: bool
  aliases :: "(string \<times> string) list option"
  extensions :: "string list option"
  verbose :: bool

record BuildContext =
  bc_config :: AetherConfig
  bc_filePath :: path
  bc_content :: string
  bc_code :: string
  bc_map :: "srcmap option"

record ResolveContext =
  rc_config :: AetherConfig
  rc_importer :: path
  rc_source :: string

type_synonym build_output = "string \<times> srcmap option"

record BuildEndContext =
  be_config :: AetherConfig
  be_outputs :: "(path \<times> build_output) list"

record DevServerContext =
  ds_config :: AetherConfig
  ds_port :: nat
  ds_host :: string

text \<open>
  A hook is an optional slot. A present hook is a function of its context that either
  throws or returns; \<open>None\<close> as returned value stands for null and undefined. What a
  hook does besides is outside the model; that it was called is recorded as an event
  (\<open>HookCall\<close> with the plugin's name and the hook's name, \<open>TransformCall\<close> with the
  plugin's name and the file). The context of \<open>buildStart\<close> is its one field, the
  configuration; \<open>handleHotUpdate\<close> and \<open>watchChange\<close> are given the changed path.
\<close>

type_synonym ('c, 'r) hook = "('c \<Rightarrow> js_error + 'r option) option"

record Plugin =
  name :: string
  buildStart :: "(AetherConfig, unit) hook"
  transform :: "(BuildContext, transform_result) hook"
  resolveId :: "(ResolveContext, string) hook"
  buildEnd :: "(BuildEndContext, unit) hook"
  configureDevServer :: "(DevServerContext, unit) hook"
  handleHotUpdate :: "(path, unit) hook"
  watchChange :: "(path, unit) hook"
  closeBundle :: "(unit, unit) hook"

subsection \<open>applyPluginHook\<close>

text \<open>
  \<open>plugin[hookName]\<close> is the selector \<open>hook\<close>; \<open>typeof hook === 'function'\<close> is
  \<open>hook plugin \<noteq> None\<close>. The accumulator is the variable \<open>result\<close> of the source.
\<close>

fun applyPluginHook_loop ::
  "Plugin list \<Rightarrow> string \<Rightarrow> (Plugin \<Rightarrow> ('c, 'r) hook) \<Rightarrow> 'c \<Rightarrow> 'r option
     \<Rightarrow> event list \<times> (js_error + 'r option)" where
  "applyPluginHook_loop [] hookName hook context result = ([], Inr result)"
| "applyPluginHook_loop (plugin # rest) hookName hook context result =
     (case hook plugin of
        None \<Rightarrow> applyPluginHook_loop rest hookName hook context result
      | Some f \<Rightarrow>
          (case f context of
             Inl error \<Rightarrow>
               ([HookCall (name plugin) hookName,
                 ConsoleError (''Error in plugin '' @ name plugin @ '' at hook '' @ hookName @ '':'') error],
                Inl error)
           | Inr hookResult \<Rightarrow>
               (case applyPluginHook_loop rest hookName hook context
                       (case hookResult of None \<Rightarrow> result | Some v \<Rightarrow> Some v) of
                  (evs, out) \<Rightarrow> (HookCall (name plugin) hookName # evs, out))))"

definition applyPluginHook ::
  "Plugin list \<Rightarrow> string \<Rightarrow> (Plugin \<Rightarrow> ('c, 'r) hook) \<Rightarrow> 'c
     \<Rightarrow> event list \<times> (js_error + 'r option)" where
  "applyPluginHook plugins hookName hook context =
     applyPluginHook_loop plugins hookName hook context None"

text \<open>
  The contract of \<open>runHook\<close> in the words of the specification: the values returned, in
  list order, by the plugins that have the hook, and the last of them that is not null.
\<close>

definition hookReturns :: "Plugin list \<Rightarrow> (Plugin \<Rightarrow> ('c, 'r) hook) \<Rightarrow> 'c \<Rightarrow> 'r list" where
  "hookReturns plugins hook context =
     concat (map (\<lambda>p. case hook p of
                         None \<Rightarrow> []
                       | Some f \<Rightarrow> (case f context of Inr (Some v) \<Rightarrow> [v] | _ \<Rightarrow> []))
                 plugins)"

definition lastNonNullResult :: "Plugin list \<Rightarrow> (Plugin \<Rightarrow> ('c, 'r) hook) \<Rightarrow> 'c \<Rightarrow> 'r option" where
  "lastNonNullResult plugins hook context =
     (case rev (hookReturns plugins hook context) of [] \<Rightarrow> None | v # _ \<Rightarrow> Some v)"

definition hookCalls :: "Plugin list \<Rightarrow> string \<Rightarrow> (Plugin \<Rightarrow> ('c, 'r) hook) \<Rightarrow> event list" where
  "hookCalls plugins hookName hook =
     map (\<lambda>p. HookCall (name p) hookName) (filter (\<lambda>p. hook p \<noteq> None) plugins)"

definition hookThrows :: "Plugin \<Rightarrow> (Plugin \<Rightarrow> ('c, 'r) hook) \<Rightarrow> 'c \<Rightarrow> bool" where
  "hookThrows p hook context =
     (case hook p of None \<Rightarrow> False | Some f \<Rightarrow> (case f context of Inl e \<Rightarrow> True | Inr r \<Rightarrow> False))"

section \<open>The host: file system, path library and regular expressions\<close>

text \<open>
  What the program takes from Node.js is a parameter of the model: the working directory,
  the files on disk (a finite table; a path names a file with its text, or a directory),
  the functions of \<open>node:path\<close>, the printing of a number, the lower-casing of a string,
  the JSON text of a string, the text of the client script (src/hmr/client-dist.js), and the
  regular expression engine, which for each of the four import patterns of
  src/utils/dependency.ts gives the first capture group of every successive match in a
  source text.
\<close>

datatype fsnode = File string | Dir

datatype import_re = IMPORT_RE | DYNAMIC_IMPORT_RE | EXPORT_FROM_RE | REQUIRE_RE

record host =
  cwd :: path
  files :: "(path \<times> fsnode) list"
  path_join :: "path \<Rightarrow> path \<Rightarrow> path"
  path_dirname :: "path \<Rightarrow> path"
  path_isAbsolute :: "path \<Rightarrow> bool"
  path_resolve :: "path \<Rightarrow> path \<Rightarrow> path"
  path_relative :: "path \<Rightarrow> path \<Rightarrow> path"
  path_extname :: "path \<Rightarrow> string"
  regex_matches :: "import_re \<Rightarrow> string \<Rightarrow> string list"
  show_number :: "nat \<Rightarrow> string"
  toLowerCase :: "string \<Rightarrow> string"
  json_stringify :: "string \<Rightarrow> string"
  hmrClientCode :: string

definition existsSync :: "host \<Rightarrow> path \<Rightarrow> bool" where
  "existsSync h p = (map_of (files h) p \<noteq> None)"

definition fileExists :: "host \<Rightarrow> path \<Rightarrow> bool" where
  "fileExists h p = existsSync h p"

definition readFile :: "host \<Rightarrow> path \<Rightarrow> js_error + string" where
  "readFile h p =
     (case map_of (files h) p of
        Some (File text) \<Rightarrow> Inr text
      | Some Dir \<Rightarrow> Inl (JsError ''EISDIR: illegal operation on a directory, read'')
      | None \<Rightarrow> Inl (JsError ''ENOENT: no such file or directory''))"

text \<open>\<open>writeFile\<close> of src/utils/file.ts creates the missing parent directory first.\<close>

definition writeFile :: "host \<Rightarrow> path \<Rightarrow> string \<Rightarrow> event list" where
  "writeFile h p text = [EnsureDir (path_dirname h p), WriteFile p text]"

subsection \<open>Strings, sets and maps of JavaScript\<close>

definition startsWith :: "string \<Rightarrow> string \<Rightarrow> bool" where
  "startsWith s p = (take (length p) s = p)"

definition endsWith :: "string \<Rightarrow> string \<Rightarrow> bool" where
  "endsWith s p = (length p \<le> length s \<and> drop (length s - length p) s = p)"

fun str_includes :: "string \<Rightarrow> string \<Rightarrow> bool" where
  "str_includes [] sub = (sub = [])"
| "str_includes (c # s) sub = (startsWith (c # s) sub \<or> str_includes s sub)"

text \<open>A string, or an optional string, as a condition: the empty string is falsy.\<close>

definition truthy :: "string option \<Rightarrow> bool" where
  "truthy v = (case v of None \<Rightarrow> False | Some s \<Rightarrow> s \<noteq> [])"

text \<open>
  A \<open>Set\<close> is the list of its elements in insertion order; a \<open>Map\<close> is the list of its
  entries in insertion order, and \<open>set\<close> on a present key keeps the key's position.
\<close>

definition set_add :: "'a \<Rightarrow> 'a list \<Rightarrow> 'a list" where
  "set_add x xs = (if x \<in> set xs then xs else xs @ [x])"

fun map_set :: "'k \<Rightarrow> 'v \<Rightarrow> ('k \<times> 'v) list \<Rightarrow> ('k \<times> 'v) list" where
  "map_set k v [] = [(k, v)]"
| "map_set k v ((k', v') # m) = (if k' = k then (k, v) # m else (k', v') # map_set k v m)"

section \<open>The dependency resolver (src/utils/dependency.ts)\<close>

text \<open>
  The identity of a dependency is the specifier, or what \<open>config.alias[specifier]\<close> gives
  for it. \<open>config.alias\<close> is a plain object: besides its own entries (the table
  \<open>aliases\<close> of the configuration) the lookup finds the members that every object inherits
  from \<open>Object.prototype\<close>, which are functions and objects, not strings; \<open>IdMember\<close> is
  such a value. \<open>idText\<close> is the text that a template literal prints for an identity under
  Node.js.
\<close>

datatype dep_id = IdString string | IdMember string

definition objectPrototypeKeys :: "string list" where
  "objectPrototypeKeys =
     [''constructor'', ''__defineGetter__'', ''__defineSetter__'', ''hasOwnProperty'',
      ''__lookupGetter__'', ''__lookupSetter__'', ''isPrototypeOf'', ''propertyIsEnumerable'',
      ''toString'', ''valueOf'', ''__proto__'', ''toLocaleString'']"

definition idText :: "dep_id \<Rightarrow> string" where
  "idText i =
     (case i of
        IdString s \<Rightarrow> s
      | IdMember m \<Rightarrow>
          (if m = ''__proto__'' then ''[object Object]''
           else ''function '' @ (if m = ''constructor'' then ''Object'' else m) @
                ''() { [native code] }''))"

record DependencyInfo =
  di_id :: dep_id
  resolved :: "string option"
  isExternal :: bool

definition extractImports :: "host \<Rightarrow> string \<Rightarrow> string list" where
  "extractImports h code =
     foldl (\<lambda>imports m. set_add m imports) []
       (regex_matches h IMPORT_RE code @ regex_matches h DYNAMIC_IMPORT_RE code @
        regex_matches h EXPORT_FROM_RE code @ regex_matches h REQUIRE_RE code)"

definition defaultExtensions :: "string list" where
  "defaultExtensions = [''.ts'', ''.tsx'', ''.js'', ''.jsx'', ''.json'']"

definition resolveWithExtensions :: "host \<Rightarrow> string \<Rightarrow> path \<Rightarrow> AetherConfig \<Rightarrow> string option" where
  "resolveWithExtensions h specifier basedir config =
     (let absoluteSpecifier =
            (if path_isAbsolute h specifier then specifier else path_join h basedir specifier)
      in if existsSync h absoluteSpecifier then Some absoluteSpecifier
         else
           (let exts = (case extensions config of Some es \<Rightarrow> es | None \<Rightarrow> defaultExtensions)
            in case List.find (existsSync h) (map (\<lambda>ext. absoluteSpecifier @ ext) exts) of
                 Some withExt \<Rightarrow> Some withExt
               | None \<Rightarrow>
                   List.find (existsSync h)
                     (map (\<lambda>ext. path_join h absoluteSpecifier (''index'' @ ext)) exts)))"

text \<open>The loop over the plugins' \<open>resolveId\<close> hooks; it stops at the first truthy answer.\<close>

fun resolveId_loop :: "Plugin list \<Rightarrow> ResolveContext \<Rightarrow> event list \<times> (js_error + string option)" where
  "resolveId_loop [] resolveContext = ([], Inr None)"
| "resolveId_loop (plugin # rest) resolveContext =
     (case resolveId plugin of
        None \<Rightarrow> resolveId_loop rest resolveContext
      | Some f \<Rightarrow>
          (case f resolveContext of
             Inl error \<Rightarrow> ([HookCall (name plugin) ''resolveId''], Inl error)
           | Inr r \<Rightarrow>
               if truthy r then ([HookCall (name plugin) ''resolveId''], Inr r)
               else (case resolveId_loop rest resolveContext of
                       (evs, out) \<Rightarrow> (HookCall (name plugin) ''resolveId'' # evs, out))))"

definition isUrl :: "string \<Rightarrow> bool" where
  "isUrl specifier =
     (startsWith specifier ''http:'' \<or> startsWith specifier ''https:'' \<or> startsWith specifier ''//'')"

definition isBare :: "string \<Rightarrow> bool" where
  "isBare specifier =
     (\<not> startsWith specifier ''.'' \<and> \<not> startsWith specifier ''/'' \<and> \<not> str_includes specifier '':'')"

text \<open>
  \<open>config.alias[specifier]\<close>: an own entry of the table, else an inherited member, else
  undefined. \<open>aliasFor\<close> is \<open>config.alias && config.alias[specifier]\<close> when that is truthy.
\<close>

definition aliasLookup :: "(string \<times> string) list \<Rightarrow> string \<Rightarrow> dep_id option" where
  "aliasLookup table specifier =
     (case map_of table specifier of
        Some target \<Rightarrow> Some (IdString target)
      | None \<Rightarrow>
          (if specifier \<in> set objectPrototypeKeys then Some (IdMember specifier) else None))"

definition truthyId :: "dep_id option \<Rightarrow> bool" where
  "truthyId v =
     (case v of None \<Rightarrow> False | Some (IdString s) \<Rightarrow> s \<noteq> [] | Some (IdMember m) \<Rightarrow> True)"

definition aliasFor :: "AetherConfig \<Rightarrow> string \<Rightarrow> dep_id option" where
  "aliasFor config specifier =
     (case aliases config of
        None \<Rightarrow> None
      | Some table \<Rightarrow>
          (if truthyId (aliasLookup table specifier) then aliasLookup table specifier else None))"

definition resolveModuleSpecifier ::
  "host \<Rightarrow> string \<Rightarrow> path \<Rightarrow> AetherConfig \<Rightarrow> Plugin list \<Rightarrow> event list \<times> (js_error + DependencyInfo)" where
  "resolveModuleSpecifier h specifier importer config plugins =
     (if isUrl specifier then
        ([], Inr \<lparr>di_id = IdString specifier, resolved = None, isExternal = True\<rparr>)
      else if isBare specifier \<and> aliasFor config specifier = None then
        ([], Inr \<lparr>di_id = IdString specifier, resolved = None, isExternal = True\<rparr>)
      else
        (let depId = (if isBare specifier then the (aliasFor config specifier)
                      else IdString specifier)
         in case resolveId_loop plugins
                   \<lparr>rc_config = config, rc_importer = importer, rc_source = specifier\<rparr> of
              (evs, Inl error) \<Rightarrow> (evs, Inl error)
            | (evs, Inr r) \<Rightarrow>
                (evs, Inr \<lparr>di_id = depId,
                           resolved =
                             (if truthy r then r
                              else resolveWithExtensions h specifier
                                     (if importer \<noteq> [] then path_dirname h importer else cwd h)
                                     config),
                           isExternal = False\<rparr>)))"

fun processDependencies_loop ::
  "host \<Rightarrow> path \<Rightarrow> AetherConfig \<Rightarrow> Plugin list \<Rightarrow> string list
     \<Rightarrow> event list \<times> (js_error + DependencyInfo list)" where
  "processDependencies_loop h filePath config plugins [] = ([], Inr [])"
| "processDependencies_loop h filePath config plugins (importSpecifier # rest) =
     (case resolveModuleSpecifier h importSpecifier filePath config plugins of
        (evs, Inl error) \<Rightarrow> (evs, Inl error)
      | (evs, Inr depInfo) \<Rightarrow>
          (case processDependencies_loop h filePath config plugins rest of
             (evs', Inl error) \<Rightarrow> (evs @ evs', Inl error)
           | (evs', Inr dependencies) \<Rightarrow> (evs @ evs', Inr (depInfo # dependencies))))"

definition processDependencies ::
  "host \<Rightarrow> path \<Rightarrow> string \<Rightarrow> AetherConfig \<Rightarrow> Plugin list
     \<Rightarrow> event list \<times> (js_error + DependencyInfo list)" where
  "processDependencies h filePath content config plugins =
     processDependencies_loop h filePath config plugins (extractImports h content)"

section \<open>The build orchestrator (src/build.ts)\<close>

record BuilderContext =
  config :: AetherConfig
  plugins :: "Plugin list"
  entryPoints :: "path list"
  outputs :: "(path \<times> build_output) list"
  processed :: "path list"
  dependencies :: "(path \<times> path list) list"
  moduleGraph :: "(path \<times> DependencyInfo list) list"

definition resolveEntryPoints :: "host \<Rightarrow> AetherConfig \<Rightarrow> js_error + path list" where
  "resolveEntryPoints h cfg =
     (case entry cfg of
        EntryString e \<Rightarrow> Inr [path_resolve h (cwd h) e]
      | EntryArray es \<Rightarrow> Inr (map (path_resolve h (cwd h)) es)
      | EntryObject kvs \<Rightarrow> Inr (map (\<lambda>kv. path_resolve h (cwd h) (snd kv)) kvs)
      | EntryNull \<Rightarrow> Inl (JsError ''TypeError: Cannot convert undefined or null to object'')
      | EntryOther \<Rightarrow> Inl (JsError ''Invalid entry point configuration''))"

text \<open>
  \<open>loadPlugins\<close> on the plugin objects of the configuration: each is kept as it is, with
  a warning for one without a name.
\<close>

definition loadPlugins :: "Plugin list \<Rightarrow> event list \<times> Plugin list" where
  "loadPlugins ps =
     (concat (map (\<lambda>p. if name p = [] then
                          [ConsoleWarn ''Plugin without name detected. Make sure all plugins have a name property.'']
                        else []) ps),
      ps)"

definition createBuilderContext ::
  "host \<Rightarrow> AetherConfig \<Rightarrow> Plugin list \<Rightarrow> event list \<times> (js_error + BuilderContext)" where
  "createBuilderContext h cfg cfgPlugins =
     (case loadPlugins cfgPlugins of
        (evs, ps) \<Rightarrow>
          (case resolveEntryPoints h cfg of
             Inl error \<Rightarrow> (evs, Inl error)
           | Inr es \<Rightarrow>
               (evs, Inr \<lparr>config = cfg, plugins = ps, entryPoints = es, outputs = [],
                          processed = [], dependencies = [], moduleGraph = []\<rparr>)))"

text \<open>The effect of a \<open>transform\<close> result on the running \<open>code\<close> and \<open>map\<close>.\<close>

definition applyTransformResult ::
  "transform_result option \<Rightarrow> string \<times> srcmap option \<Rightarrow> string \<times> srcmap option" where
  "applyTransformResult result cm =
     (case result of
        None \<Rightarrow> cm
      | Some (ResultString s) \<Rightarrow> (if s = [] then cm else (s, snd cm))
      | Some (ResultObject c m) \<Rightarrow> (c, (case m of Some x \<Rightarrow> Some x | None \<Rightarrow> snd cm)))"

text \<open>The loop of \<open>processFile\<close> over the plugins' \<open>transform\<close> hooks.\<close>

fun transform_loop ::
  "Plugin list \<Rightarrow> AetherConfig \<Rightarrow> path \<Rightarrow> string \<Rightarrow> string \<times> srcmap option
     \<Rightarrow> event list \<times> (js_error + string \<times> srcmap option)" where
  "transform_loop [] cfg filePath content cm = ([], Inr cm)"
| "transform_loop (plugin # rest) cfg filePath content cm =
     (case transform plugin of
        None \<Rightarrow> transform_loop rest cfg filePath content cm
      | Some f \<Rightarrow>
          (case f \<lparr>bc_config = cfg, bc_filePath = filePath, bc_content = content,
                   bc_code = fst cm, bc_map = snd cm\<rparr> of
             Inl error \<Rightarrow>
               ([TransformCall (name plugin) filePath,
                 ConsoleError (''Error in plugin '' @ name plugin @ '' transforming '' @ filePath @ '':'') error],
                Inl error)
           | Inr result \<Rightarrow>
               (case transform_loop rest cfg filePath content (applyTransformResult result cm) of
                  (evs, out) \<Rightarrow> (TransformCall (name plugin) filePath # evs, out))))"

definition addDependency :: "path \<Rightarrow> path \<Rightarrow> BuilderContext \<Rightarrow> BuilderContext" where
  "addDependency importedBy filePath ctx =
     ctx\<lparr>dependencies :=
           map_set importedBy
             (set_add filePath (case map_of (dependencies ctx) importedBy of Some deps \<Rightarrow> deps | None \<Rightarrow> []))
             (dependencies ctx)\<rparr>"

definition recordImporter :: "path option \<Rightarrow> path \<Rightarrow> BuilderContext \<Rightarrow> BuilderContext" where
  "recordImporter importedBy filePath ctx =
     (if truthy importedBy then addDependency (the importedBy) filePath ctx else ctx)"

definition readContent :: "host \<Rightarrow> path \<Rightarrow> js_error + string" where
  "readContent h filePath = (if fileExists h filePath then readFile h filePath else Inr [])"

text \<open>
  \<open>processFile\<close> calls itself for every dependency of the file. The first argument bounds
  the depth of these calls; \<open>None\<close> says that the bound was reached.
\<close>

fun processFile ::
  "nat \<Rightarrow> host \<Rightarrow> BuilderContext \<Rightarrow> path \<Rightarrow> path option
     \<Rightarrow> (event list \<times> (js_error + BuilderContext)) option"
and processFile_deps ::
  "nat \<Rightarrow> host \<Rightarrow> BuilderContext \<Rightarrow> path \<Rightarrow> DependencyInfo list
     \<Rightarrow> (event list \<times> (js_error + BuilderContext)) option" where
  "processFile 0 h ctx filePath importedBy = None"
| "processFile (Suc n) h ctx filePath importedBy =
     (if filePath \<in> set (processed ctx) then
        Some ([], Inr (recordImporter importedBy filePath ctx))
      else
        (let ctx1 = recordImporter importedBy filePath
                      (ctx\<lparr>processed := set_add filePath (processed ctx)\<rparr>)
         in case readContent h filePath of
              Inl error \<Rightarrow> Some ([], Inl error)
            | Inr content \<Rightarrow>
                if content = [] then
                  Some ([ConsoleWarn (''Empty or missing file: '' @ filePath)], Inr ctx1)
                else
                  (case transform_loop (plugins ctx1) (config ctx1) filePath content (content, None) of
                     (evs, Inl error) \<Rightarrow> Some (evs, Inl error)
                   | (evs, Inr (code, smap)) \<Rightarrow>
                       (let ctx2 = ctx1\<lparr>outputs := map_set filePath (code, smap) (outputs ctx1)\<rparr>
                        in case processDependencies h filePath code (config ctx2) (plugins ctx2) of
                             (evs', Inl error) \<Rightarrow> Some (evs @ evs', Inl error)
                           | (evs', Inr deps) \<Rightarrow>
                               (case processFile_deps n h
                                       (ctx2\<lparr>moduleGraph := map_set filePath deps (moduleGraph ctx2)\<rparr>)
                                       filePath deps of
                                  None \<Rightarrow> None
                                | Some (evs'', out) \<Rightarrow> Some (evs @ evs' @ evs'', out))))))"
| "processFile_deps n h ctx filePath [] = Some ([], Inr ctx)"
| "processFile_deps n h ctx filePath (dep # rest) =
     (if truthy (resolved dep) \<and> \<not> isExternal dep then
        (case processFile n h ctx (the (resolved dep)) (Some filePath) of
           None \<Rightarrow> None
         | Some (evs, Inl error) \<Rightarrow> Some (evs, Inl error)
         | Some (evs, Inr ctx') \<Rightarrow>
             (case processFile_deps n h ctx' filePath rest of
                None \<Rightarrow> None
              | Some (evs', out) \<Rightarrow> Some (evs @ evs', out)))
      else processFile_deps n h ctx filePath rest)"

text \<open>The loop of \<open>build\<close> over the entry points.\<close>

fun processEntries ::
  "nat \<Rightarrow> host \<Rightarrow> BuilderContext \<Rightarrow> path list \<Rightarrow> (event list \<times> (js_error + BuilderContext)) option" where
  "processEntries n h ctx [] = Some ([], Inr ctx)"
| "processEntries n h ctx (entryPoint # rest) =
     (case processFile n h ctx entryPoint None of
        None \<Rightarrow> None
      | Some (evs, Inl error) \<Rightarrow> Some (evs, Inl error)
      | Some (evs, Inr ctx') \<Rightarrow>
          (case processEntries n h ctx' rest of
             None \<Rightarrow> None
           | Some (evs', out) \<Rightarrow> Some (evs @ evs', out)))"

text \<open>
  \<open>writeOutputs\<close>. A source map is represented by its JSON text. The regular expression
  \<open>/\.tsx?$/\<close> is the test on the two endings.
\<close>

definition newline :: string where
  "newline = [CHR 0x0A]"

definition finalPathOf :: "path \<Rightarrow> path" where
  "finalPathOf outputPath =
     (if endsWith outputPath ''.ts'' then take (length outputPath - 3) outputPath @ ''.js''
      else if endsWith outputPath ''.tsx'' then take (length outputPath - 4) outputPath @ ''.js''
      else outputPath)"

definition writeOutput :: "host \<Rightarrow> AetherConfig \<Rightarrow> path \<Rightarrow> path \<times> build_output \<Rightarrow> event list" where
  "writeOutput h cfg outDirPath out =
     (case out of
        (filePath, code, smap) \<Rightarrow>
          (let relPath = path_relative h (cwd h) filePath;
               outputPath = path_join h outDirPath relPath;
               finalPath = finalPathOf outputPath;
               mapPath = finalPath @ ''.map''
           in [EnsureDir (path_dirname h outputPath)] @
              writeFile h finalPath code @
              (if smap \<noteq> None \<and> sourcemap cfg then
                 writeFile h mapPath (the smap) @
                 (if \<not> str_includes code ''//# sourceMappingURL='' then
                    writeFile h finalPath
                      (code @ newline @ ''//# sourceMappingURL='' @
                       path_relative h (path_dirname h finalPath) mapPath)
                  else [])
               else [])))"

definition writeOutputs :: "host \<Rightarrow> BuilderContext \<Rightarrow> event list" where
  "writeOutputs h ctx =
     (let outDirPath = path_resolve h (cwd h) (outDir (config ctx))
      in EnsureDir outDirPath # concat (map (writeOutput h (config ctx) outDirPath) (outputs ctx)))"

definition depStatus :: "DependencyInfo \<Rightarrow> string" where
  "depStatus dep =
     (if isExternal dep then ''(external)''
      else if truthy (resolved dep) then ''(resolved)'' else ''(unresolved)'')"

definition branchMark :: string where
  "branchMark = [CHR 0xE2, CHR 0x94, CHR 0x94, CHR 0xE2, CHR 0x94, CHR 0x80]"

definition generateDependencyGraph :: "BuilderContext \<Rightarrow> string" where
  "generateDependencyGraph ctx =
     ''Dependency Graph:'' @ newline @
     concat (map (\<lambda>(m, deps).
                    newline @ m @ '':'' @ newline @
                    concat (map (\<lambda>dep. ''  '' @ branchMark @ '' '' @ idText (di_id dep) @ '' '' @ depStatus dep @ newline) deps))
                 (moduleGraph ctx))"

text \<open>The last loop of \<open>build\<close>: \<open>closeBundle\<close> of every plugin that has it.\<close>

fun closeBundle_loop :: "Plugin list \<Rightarrow> event list \<times> (js_error + unit)" where
  "closeBundle_loop [] = ([], Inr ())"
| "closeBundle_loop (plugin # rest) =
     (case closeBundle plugin of
        None \<Rightarrow> closeBundle_loop rest
      | Some f \<Rightarrow>
          (case f () of
             Inl error \<Rightarrow> ([HookCall (name plugin) ''closeBundle''], Inl error)
           | Inr r \<Rightarrow>
               (case closeBundle_loop rest of
                  (evs, out) \<Rightarrow> (HookCall (name plugin) ''closeBundle'' # evs, out))))"

definition completionLogs :: "host \<Rightarrow> AetherConfig \<Rightarrow> BuilderContext \<Rightarrow> event list" where
  "completionLogs h cfg ctx =
     [ConsoleLog ''Build completed'',
      ConsoleLog (''Processed '' @ show_number h (length (processed ctx)) @ '' files''),
      ConsoleLog (''Output directory: '' @ path_resolve h (cwd h) (outDir cfg))]"

text \<open>
  \<open>build\<close>, with the bound on the depth of the traversal as first argument. The duration
  in the completion message is left out. The result carries the final build context.
\<close>

definition build ::
  "nat \<Rightarrow> host \<Rightarrow> AetherConfig \<Rightarrow> Plugin list \<Rightarrow> (event list \<times> (js_error + BuilderContext)) option" where
  "build n h cfg cfgPlugins =
     (case createBuilderContext h cfg cfgPlugins of
        (e0, Inl error) \<Rightarrow> Some (ConsoleLog ''Starting build...'' # e0, Inl error)
      | (e0, Inr ctx) \<Rightarrow>
          (case applyPluginHook (plugins ctx) ''buildStart'' buildStart cfg of
             (e1, Inl error) \<Rightarrow> Some (ConsoleLog ''Starting build...'' # e0 @ e1, Inl error)
           | (e1, Inr r1) \<Rightarrow>
               (case processEntries n h ctx (entryPoints ctx) of
                  None \<Rightarrow> None
                | Some (e2, Inl error) \<Rightarrow>
                    Some (ConsoleLog ''Starting build...'' # e0 @ e1 @ e2, Inl error)
                | Some (e2, Inr ctx') \<Rightarrow>
                    (let e3 = (if verbose cfg then [ConsoleLog (generateDependencyGraph ctx')] else [])
                     in case applyPluginHook (plugins ctx') ''buildEnd'' buildEnd
                               \<lparr>be_config = cfg, be_outputs = outputs ctx'\<rparr> of
                          (e4, Inl error) \<Rightarrow>
                            Some (ConsoleLog ''Starting build...'' # e0 @ e1 @ e2 @ e3 @ e4, Inl error)
                        | (e4, Inr r4) \<Rightarrow>
                            (case closeBundle_loop (plugins ctx') of
                               (e7, out) \<Rightarrow>
                                 Some (ConsoleLog ''Starting build...'' # e0 @ e1 @ e2 @ e3 @ e4 @
                                       writeOutputs h ctx' @ completionLogs h cfg ctx' @ e7,
                                       (case out of Inl error \<Rightarrow> Inl error | Inr u \<Rightarrow> Inr ctx')))))))"

section \<open>The HMR plugin (src/hmr/runtime.ts)\<close>

text \<open>The regular expression \<open>/\.(js|ts|mjs|jsx|tsx)$/\<close>, also used by the server.\<close>

definition scriptEndings :: "string list" where
  "scriptEndings = [''.js'', ''.mjs'', ''.ts'', ''.jsx'', ''.tsx'']"

definition hasScriptEnding :: "string \<Rightarrow> bool" where
  "hasScriptEnding p = list_ex (endsWith p) scriptEndings"

fun replaceFirst :: "string \<Rightarrow> string \<Rightarrow> string \<Rightarrow> string" where
  "replaceFirst [] pat rep = (if pat = [] then rep else [])"
| "replaceFirst (c # s) pat rep =
     (if startsWith (c # s) pat then rep @ drop (length pat) (c # s)
      else c # replaceFirst s pat rep)"

definition getBrowserModulePath :: "host \<Rightarrow> path \<Rightarrow> string" where
  "getBrowserModulePath h filePath =
     (let relativePath = (if startsWith filePath (cwd h) then drop (length (cwd h)) filePath else filePath);
          normalized = map (\<lambda>c. if c = CHR 0x5C then CHR ''/'' else c) relativePath
      in if startsWith normalized ''/'' then normalized else ''/'' @ normalized)"

definition hmrTransform :: "host \<Rightarrow> BuildContext \<Rightarrow> js_error + transform_result option" where
  "hmrTransform h ctx =
     (if \<not> server (bc_config ctx) then Inr None
      else if endsWith (bc_filePath ctx) ''.html'' then
        Inr (Some (ResultString
               (replaceFirst (bc_code ctx) ''</head>''
                  (''<script type=\"module\">'' @ newline @ hmrClientCode h @ newline @ ''</script></head>''))))
      else if hasScriptEnding (bc_filePath ctx) then
        (if str_includes (bc_filePath ctx) ''node_modules'' then Inr None
         else Inr (Some (ResultString
                (bc_code ctx @ newline @ ''// Injected by Aether HMR plugin'' @ newline @
                 ''import.meta.hot = __AETHER_CREATE_HOT__('' @
                 json_stringify h (getBrowserModulePath h (bc_filePath ctx)) @ '');'' @ newline))))
      else Inr None)"

definition createHMRPlugin :: "host \<Rightarrow> Plugin" where
  "createHMRPlugin h =
     \<lparr>name = ''aether:hmr'', buildStart = None, transform = Some (hmrTransform h),
      resolveId = None, buildEnd = None, configureDevServer = None, handleHotUpdate = None,
      watchChange = None, closeBundle = None\<rparr>"

section \<open>The development server (src/server.ts)\<close>

text \<open>A client connection is its number and whether its \<open>readyState\<close> is \<open>OPEN\<close>.\<close>

record DevServer =
  srv_config :: AetherConfig
  srv_plugins :: "Plugin list"
  srv_clients :: "(nat \<times> bool) list"

definition newDevServer :: "host \<Rightarrow> AetherConfig \<Rightarrow> Plugin list \<Rightarrow> DevServer" where
  "newDevServer h cfg optionPlugins =
     \<lparr>srv_config = cfg, srv_plugins = createHMRPlugin h # optionPlugins, srv_clients = []\<rparr>"

record HttpResponse =
  status :: nat
  contentType :: string
  body :: string

definition MIME_TYPES :: "(string \<times> string) list" where
  "MIME_TYPES =
     [(''.html'', ''text/html''), (''.js'', ''application/javascript''),
      (''.mjs'', ''application/javascript''), (''.css'', ''text/css''),
      (''.json'', ''application/json''), (''.png'', ''image/png''), (''.jpg'', ''image/jpeg''),
      (''.jpeg'', ''image/jpeg''), (''.gif'', ''image/gif''), (''.svg'', ''image/svg+xml''),
      (''.ico'', ''image/x-icon''), (''.txt'', ''text/plain''),
      (''.ts'', ''application/javascript''), (''.tsx'', ''application/javascript''),
      (''.jsx'', ''application/javascript''), (''.map'', ''application/json'')]"

text \<open>\<open>getExtension\<close> of src/utils/file.ts: the regular expression \<open>/(\.[^./\\]+)$/\<close>.\<close>

definition getExtension :: "path \<Rightarrow> string" where
  "getExtension filePath =
     (let r = rev filePath;
          t = takeWhile (\<lambda>c. c \<noteq> CHR ''.'' \<and> c \<noteq> CHR ''/'' \<and> c \<noteq> CHR 0x5C) r
      in if t \<noteq> [] \<and> length t < length r \<and> r ! length t = CHR ''.'' then CHR ''.'' # rev t
         else [])"

text \<open>
  The loop of \<open>handleRequest\<close> over the plugins' \<open>transform\<close> hooks: the running code is
  \<open>finalContent\<close>, and every plugin is given \<open>map: undefined\<close>.
\<close>

definition applyServerResult :: "transform_result option \<Rightarrow> string \<Rightarrow> string" where
  "applyServerResult result finalContent =
     (case result of
        None \<Rightarrow> finalContent
      | Some (ResultString s) \<Rightarrow> (if s = [] then finalContent else s)
      | Some (ResultObject c m) \<Rightarrow> c)"

fun serverTransform_loop ::
  "Plugin list \<Rightarrow> AetherConfig \<Rightarrow> path \<Rightarrow> string \<Rightarrow> string \<Rightarrow> event list \<times> (js_error + string)" where
  "serverTransform_loop [] cfg filePath content finalContent = ([], Inr finalContent)"
| "serverTransform_loop (plugin # rest) cfg filePath content finalContent =
     (case transform plugin of
        None \<Rightarrow> serverTransform_loop rest cfg filePath content finalContent
      | Some f \<Rightarrow>
          (case f \<lparr>bc_config = cfg, bc_filePath = filePath, bc_content = content,
                   bc_code = finalContent, bc_map = None\<rparr> of
             Inl error \<Rightarrow> ([TransformCall (name plugin) filePath], Inl error)
           | Inr result \<Rightarrow>
               (case serverTransform_loop rest cfg filePath content
                       (applyServerResult result finalContent) of
                  (evs, out) \<Rightarrow> (TransformCall (name plugin) filePath # evs, out))))"

definition internalServerError :: "path \<Rightarrow> js_error \<Rightarrow> event list \<Rightarrow> event list \<times> HttpResponse" where
  "internalServerError filePath error evs =
     (evs @ [ConsoleError (''Error serving '' @ filePath @ '':'') error],
      \<lparr>status = 500, contentType = ''text/plain'', body = ''500 Internal Server Error''\<rparr>)"

text \<open>The \<open>try\<close> block of \<open>handleRequest\<close>, for the file path the request was mapped to.\<close>

definition serveFile :: "host \<Rightarrow> DevServer \<Rightarrow> path \<Rightarrow> event list \<times> HttpResponse" where
  "serveFile h srv filePath =
     (case readFile h filePath of
        Inl error \<Rightarrow> internalServerError filePath error []
      | Inr content \<Rightarrow>
          (let ext = toLowerCase h (path_extname h filePath);
               ctype = (case map_of MIME_TYPES ext of Some t \<Rightarrow> t | None \<Rightarrow> ''application/octet-stream'');
               finalContent =
                 (if ctype = ''text/html'' then
                    replaceFirst content ''</head>''
                      ''<script type=\"module\" src=\"/__aether_hmr_client\"></script></head>''
                  else content)
           in if ext \<in> set [''.ts'', ''.tsx'', ''.jsx''] then
                (case serverTransform_loop (srv_plugins srv) (srv_config srv) filePath content finalContent of
                   (evs, Inl error) \<Rightarrow> internalServerError filePath error evs
                 | (evs, Inr code) \<Rightarrow> (evs, \<lparr>status = 200, contentType = ctype, body = code\<rparr>))
              else ([], \<lparr>status = 200, contentType = ctype, body = finalContent\<rparr>)))"

text \<open>\<open>handleRequest\<close>, from the decoded path of the request's URL.\<close>

definition handleRequest :: "host \<Rightarrow> DevServer \<Rightarrow> string \<Rightarrow> event list \<times> HttpResponse" where
  "handleRequest h srv pathname =
     (if pathname = ''/__aether_hmr_client'' then
        ([], \<lparr>status = 200, contentType = ''application/javascript'', body = hmrClientCode h\<rparr>)
      else
        (let urlPath = (if endsWith pathname ''/'' then pathname @ ''index.html'' else pathname);
             filePath = path_resolve h (cwd h) (drop 1 urlPath);
             indexPath = path_join h (cwd h) ''index.html''
         in if fileExists h filePath then serveFile h srv filePath
            else if getExtension pathname = [] \<and> fileExists h indexPath then serveFile h srv indexPath
            else ([], \<lparr>status = 404, contentType = ''text/plain'', body = ''404 Not Found''\<rparr>)))"

subsection \<open>The watcher's change event\<close>

definition getAffectedModules :: "path \<Rightarrow> event list \<times> string list" where
  "getAffectedModules p = ([ConsoleLog (''Calculating affected modules for: '' @ p)], [])"

definition hasAcceptedUpdate :: "path \<Rightarrow> bool" where
  "hasAcceptedUpdate p = hasScriptEnding p"

definition notifyClients :: "DevServer \<Rightarrow> HMRPayload \<Rightarrow> event list" where
  "notifyClients srv data =
     concat (map (\<lambda>(client, isOpen). if isOpen then [ClientSend client data] else []) (srv_clients srv))"

text \<open>The loop of the change handler that notifies the plugins.\<close>

fun notifyPlugins_loop :: "Plugin list \<Rightarrow> path \<Rightarrow> event list \<times> (js_error + unit)" where
  "notifyPlugins_loop [] p = ([], Inr ())"
| "notifyPlugins_loop (plugin # rest) p =
     (case (case watchChange plugin of
              None \<Rightarrow> ([], Inr ())
            | Some f \<Rightarrow>
                (case f p of
                   Inl error \<Rightarrow> ([HookCall (name plugin) ''watchChange''], Inl error)
                 | Inr r \<Rightarrow> ([HookCall (name plugin) ''watchChange''], Inr ()))) of
        (evs, Inl error) \<Rightarrow> (evs, Inl error)
      | (evs, Inr u) \<Rightarrow>
          (case (case handleHotUpdate plugin of
                   None \<Rightarrow> ([], Inr ())
                 | Some g \<Rightarrow>
                     (case g p of
                        Inl error \<Rightarrow> ([HookCall (name plugin) ''handleHotUpdate''], Inl error)
                      | Inr r \<Rightarrow> ([HookCall (name plugin) ''handleHotUpdate''], Inr ()))) of
             (evs', Inl error) \<Rightarrow> (evs @ evs', Inl error)
           | (evs', Inr u') \<Rightarrow>
               (case notifyPlugins_loop rest p of (evs'', out) \<Rightarrow> (evs @ evs' @ evs'', out))))"

definition updatePayload :: "path \<Rightarrow> string list \<Rightarrow> nat \<Rightarrow> HMRPayload" where
  "updatePayload p affectedModules timestamp =
     \<lparr>p_type = Update, p_path = Some p, p_timestamp = Some timestamp,
      p_modules = Some (p # affectedModules), p_message = None, p_stack = None\<rparr>"

definition reloadPayload :: HMRPayload where
  "reloadPayload =
     \<lparr>p_type = Reload, p_path = None, p_timestamp = None, p_modules = None,
      p_message = None, p_stack = None\<rparr>"

text \<open>The handler of the watcher's \<open>change\<close> event; \<open>now\<close> is the value of \<open>Date.now()\<close>.\<close>

definition onChange :: "DevServer \<Rightarrow> nat \<Rightarrow> path \<Rightarrow> event list \<times> (js_error + unit)" where
  "onChange srv now p =
     (case getAffectedModules p of
        (evsA, affectedModules) \<Rightarrow>
          (case notifyPlugins_loop (srv_plugins srv) p of
             (evs, Inl error) \<Rightarrow> (ConsoleLog (''File changed: '' @ p) # evsA @ evs, Inl error)
           | (evs, Inr u) \<Rightarrow>
               (ConsoleLog (''File changed: '' @ p) # evsA @ evs @
                notifyClients srv
                  (if hasAcceptedUpdate p then updatePayload p affectedModules now else reloadPayload),
                Inr ())))"

section \<open>The client of the update channel (src/hmr/client.ts)\<close>

text \<open>
  A loaded module is represented by the URL it was imported from. An update callback and
  a dispose callback either throw or return. The browser gives the client the dynamic
  \<open>import\<close>, the clock and the printing of a number. The effects of the client are its
  console writes, its imports, the calls of callbacks and the reloads of the page.
\<close>

type_synonym jsmodule = string

type_synonym HMRCallback = "jsmodule \<Rightarrow> js_error + unit"

datatype client_event =
    ClientLog string
  | ClientError string
  | ClientImport string
  | ClientCallback path nat
  | ClientDispose path
  | ClientReload

record browser =
  import_module :: "string \<Rightarrow> js_error + jsmodule"
  date_now :: nat
  number_text :: "nat \<Rightarrow> string"

text \<open>
  \<open>hotModulesMap\<close> maps a module path to the callbacks of its \<open>HMRModule\<close> (whose \<open>id\<close>
  is the key); \<open>pruneMap\<close> maps a module path to its dispose callback.
\<close>

record ClientState =
  hotModulesMap :: "(path \<times> HMRCallback list) list"
  pruneMap :: "(path \<times> (unit \<Rightarrow> js_error + unit)) list"

definition map_delete :: "'k \<Rightarrow> ('k \<times> 'v) list \<Rightarrow> ('k \<times> 'v) list" where
  "map_delete k m = filter (\<lambda>kv. fst kv \<noteq> k) m"

fun runCallbacks :: "path \<Rightarrow> HMRCallback list \<Rightarrow> jsmodule \<Rightarrow> nat \<Rightarrow> client_event list \<times> (js_error + unit)" where
  "runCallbacks p [] newModule i = ([], Inr ())"
| "runCallbacks p (callback # rest) newModule i =
     (case callback newModule of
        Inl error \<Rightarrow> ([ClientCallback p i], Inl error)
      | Inr u \<Rightarrow>
          (case runCallbacks p rest newModule (Suc i) of
             (evs, out) \<Rightarrow> (ClientCallback p i # evs, out)))"

definition hotUpdate :: "browser \<Rightarrow> path \<Rightarrow> HMRCallback list \<Rightarrow> nat \<Rightarrow> client_event list" where
  "hotUpdate b p callbacks timestamp =
     (let url = p @ ''?t='' @ number_text b timestamp
      in case import_module b url of
           Inl error \<Rightarrow>
             [ClientImport url, ClientError (''[aether] Failed to hot update: '' @ p), ClientReload]
         | Inr newModule \<Rightarrow>
             (case runCallbacks p callbacks newModule 0 of
                (evs, Inl error) \<Rightarrow>
                  ClientImport url # evs @
                  [ClientError (''[aether] Failed to hot update: '' @ p), ClientReload]
              | (evs, Inr u) \<Rightarrow>
                  ClientImport url # evs @ [ClientLog (''[aether] Hot updated: '' @ p)]))"

fun updateModules :: "browser \<Rightarrow> ClientState \<Rightarrow> path list \<Rightarrow> nat \<Rightarrow> client_event list" where
  "updateModules b st [] timestamp = []"
| "updateModules b st (p # rest) timestamp =
     (case map_of (hotModulesMap st) p of
        None \<Rightarrow> updateModules b st rest timestamp
      | Some callbacks \<Rightarrow>
          (if callbacks \<noteq> [] then hotUpdate b p callbacks timestamp @ updateModules b st rest timestamp
           else updateModules b st rest timestamp))"

definition pruneModule :: "ClientState \<Rightarrow> path \<Rightarrow> client_event list \<times> ClientState" where
  "pruneModule st p =
     (case map_of (pruneMap st) p of
        None \<Rightarrow> ([], st\<lparr>hotModulesMap := map_delete p (hotModulesMap st)\<rparr>)
      | Some dispose \<Rightarrow>
          (case dispose () of
             Inl error \<Rightarrow>
               ([ClientDispose p, ClientError (''[aether] Error while pruning '' @ p @ '':'')],
                st\<lparr>hotModulesMap := map_delete p (hotModulesMap st)\<rparr>)
           | Inr u \<Rightarrow>
               ([ClientDispose p],
                st\<lparr>pruneMap := map_delete p (pruneMap st),
                    hotModulesMap := map_delete p (hotModulesMap st)\<rparr>)))"

fun joinWith :: "string \<Rightarrow> string list \<Rightarrow> string" where
  "joinWith sep [] = []"
| "joinWith sep [x] = x"
| "joinWith sep (x # y # ys) = x @ sep @ joinWith sep (y # ys)"

definition orUndefined :: "string option \<Rightarrow> string" where
  "orUndefined v = (case v of None \<Rightarrow> ''undefined'' | Some s \<Rightarrow> s)"

definition handleMessage :: "browser \<Rightarrow> ClientState \<Rightarrow> HMRPayload \<Rightarrow> client_event list \<times> ClientState" where
  "handleMessage b st payload =
     (case p_type payload of
        Update \<Rightarrow>
          (case p_modules payload of
             None \<Rightarrow> ([], st)
           | Some modules \<Rightarrow>
               if modules \<noteq> [] then
                 (ClientLog (''[aether] Module update: '' @ joinWith '', '' modules) #
                  updateModules b st modules
                    (case p_timestamp payload of
                       None \<Rightarrow> date_now b
                     | Some t \<Rightarrow> if t = 0 then date_now b else t),
                  st)
               else ([], st))
      | Reload \<Rightarrow> ([ClientLog ''[aether] Full page reload'', ClientReload], st)
      | ErrorMessage \<Rightarrow>
          ([ClientError (''[aether] HMR error: '' @ orUndefined (p_message payload) @ newline @
                         orUndefined (p_stack payload))], st)
      | Prune \<Rightarrow>
          (if truthy (p_path payload) then
             (case pruneModule st (the (p_path payload)) of
                (evs, st') \<Rightarrow> (ClientLog (''[aether] Pruning module: '' @ the (p_path payload)) # evs, st'))
           else ([], st)))"

subsection \<open>The hot context of a module\<close>

definition createHotContext :: "path \<Rightarrow> ClientState \<Rightarrow> ClientState" where
  "createHotContext ownerPath st =
     (if map_of (hotModulesMap st) ownerPath = None then
        st\<lparr>hotModulesMap := map_set ownerPath [] (hotModulesMap st)\<rparr>
      else st)"

text \<open>
  \<open>accept\<close> and \<open>acceptDeps\<close> push the callback, when one is given, on the callbacks of
  the owner's entry; without an entry the property access on \<open>undefined\<close> throws.
\<close>

definition accept :: "path \<Rightarrow> HMRCallback option \<Rightarrow> ClientState \<Rightarrow> js_error + ClientState" where
  "accept ownerPath callback st =
     (case callback of
        None \<Rightarrow> Inr st
      | Some cb \<Rightarrow>
          (case map_of (hotModulesMap st) ownerPath of
             None \<Rightarrow> Inl (JsError ''TypeError: Cannot read properties of undefined (reading callbacks)'')
           | Some callbacks \<Rightarrow>
               Inr (st\<lparr>hotModulesMap := map_set ownerPath (callbacks @ [cb]) (hotModulesMap st)\<rparr>)))"

definition acceptDeps :: "path \<Rightarrow> string list \<Rightarrow> HMRCallback option \<Rightarrow> ClientState \<Rightarrow> js_error + ClientState" where
  "acceptDeps ownerPath deps callback st = accept ownerPath callback st"

definition decline :: "path \<Rightarrow> ClientState \<Rightarrow> ClientState" where
  "decline ownerPath st = st\<lparr>hotModulesMap := map_delete ownerPath (hotModulesMap st)\<rparr>"

definition invalidate :: "client_event list" where
  "invalidate = [ClientReload]"

definition dispose :: "path \<Rightarrow> (unit \<Rightarrow> js_error + unit) option \<Rightarrow> ClientState \<Rightarrow> ClientState" where
  "dispose ownerPath callback st =
     (case callback of
        None \<Rightarrow> st
      | Some cb \<Rightarrow> st\<lparr>pruneMap := map_set ownerPath cb (pruneMap st)\<rparr>)"

text \<open>
  A change of a file on the server as one client sees it: the message the server sends
  for the changed path, handled by the client.
\<close>

definition changePayload :: "nat \<Rightarrow> path \<Rightarrow> HMRPayload" where
  "changePayload now p =
     (if hasAcceptedUpdate p then updatePayload p (snd (getAffectedModules p)) now else reloadPayload)"

section \<open>The contracts of the specification and notions for the statements\<close>

text \<open>
  The candidates of the file system probing, in the order of the specification: the literal
  path, the path with each configured extension, the path as a directory with \<open>index\<close> and
  each extension.
\<close>

definition probeCandidates :: "host \<Rightarrow> string \<Rightarrow> path \<Rightarrow> AetherConfig \<Rightarrow> path list" where
  "probeCandidates h specifier basedir cfg =
     (let literal = (if path_isAbsolute h specifier then specifier else path_join h basedir specifier);
          exts = (case extensions cfg of Some es \<Rightarrow> es | None \<Rightarrow> defaultExtensions)
      in literal # map (\<lambda>ext. literal @ ext) exts @
         map (\<lambda>ext. path_join h literal (''index'' @ ext)) exts)"

text \<open>
  A plugin declines a resolution when it has no \<open>resolveId\<close> hook or its hook returns a
  falsy value (null, undefined or the empty string).
\<close>

definition resolveDeclines :: "Plugin \<Rightarrow> ResolveContext \<Rightarrow> bool" where
  "resolveDeclines q ctx =
     (case resolveId q of
        None \<Rightarrow> True
      | Some f \<Rightarrow> (case f ctx of Inl e \<Rightarrow> False | Inr r \<Rightarrow> \<not> truthy r))"

text \<open>The answers of the \<open>resolveId\<close> hooks in list order, and the first that is not null.\<close>

definition resolveAnswers :: "Plugin list \<Rightarrow> ResolveContext \<Rightarrow> string option list" where
  "resolveAnswers ps ctx =
     concat (map (\<lambda>p. case resolveId p of
                         None \<Rightarrow> []
                       | Some f \<Rightarrow> (case f ctx of Inl e \<Rightarrow> [] | Inr r \<Rightarrow> [r])) ps)"

definition firstNonNullAnswer :: "Plugin list \<Rightarrow> ResolveContext \<Rightarrow> string option" where
  "firstNonNullAnswer ps ctx =
     (case filter (\<lambda>r. r \<noteq> None) (resolveAnswers ps ctx) of [] \<Rightarrow> None | r # rs \<Rightarrow> r)"

definition externalDependency :: "string \<Rightarrow> DependencyInfo" where
  "externalDependency specifier =
     \<lparr>di_id = IdString specifier, resolved = None, isExternal = True\<rparr>"

definition importerDir :: "host \<Rightarrow> path \<Rightarrow> path" where
  "importerDir h importer = (if importer \<noteq> [] then path_dirname h importer else cwd h)"

definition missingOrEmpty :: "host \<Rightarrow> path \<Rightarrow> bool" where
  "missingOrEmpty h p =
     (case map_of (files h) p of None \<Rightarrow> True | Some (File text) \<Rightarrow> text = [] | Some Dir \<Rightarrow> False)"

text \<open>The context of \<open>processFile\<close> after it has skipped a file.\<close>

definition skipFile :: "path option \<Rightarrow> path \<Rightarrow> BuilderContext \<Rightarrow> BuilderContext" where
  "skipFile importedBy filePath ctx =
     recordImporter importedBy filePath (ctx\<lparr>processed := set_add filePath (processed ctx)\<rparr>)"

definition isWrite :: "event \<Rightarrow> bool" where
  "isWrite ev = (case ev of WriteFile p t \<Rightarrow> True | EnsureDir p \<Rightarrow> True | _ \<Rightarrow> False)"

definition writtenPaths :: "event list \<Rightarrow> path list" where
  "writtenPaths evs = concat (map (\<lambda>ev. case ev of WriteFile p t \<Rightarrow> [p] | _ \<Rightarrow> []) evs)"

definition verboseLog :: "AetherConfig \<Rightarrow> BuilderContext \<Rightarrow> event list" where
  "verboseLog cfg ctx = (if verbose cfg then [ConsoleLog (generateDependencyGraph ctx)] else [])"

text \<open>
  The path an output is written to: the module's path relative to the working directory,
  under the output directory, with \<open>.ts\<close> or \<open>.tsx\<close> replaced by \<open>.js\<close>.
\<close>

definition outputPathOf :: "host \<Rightarrow> AetherConfig \<Rightarrow> path \<Rightarrow> path" where
  "outputPathOf h cfg filePath =
     finalPathOf (path_join h (path_resolve h (cwd h) (outDir cfg)) (path_relative h (cwd h) filePath))"

text \<open>
  The chain of the specification for a request: each plugin's \<open>transform\<close> is given the
  code the plugin before it produced. \<open>specChain\<close> takes every answer that is not null as the
  plugin's output; \<open>serverChain\<close> follows the server, for which the empty string leaves
  the running code as it is. Both are chains of hooks that return: a step whose hook throws
  leaves the code as it is, and the statements about them are for chains without it.
\<close>

definition specChainStep :: "AetherConfig \<Rightarrow> path \<Rightarrow> string \<Rightarrow> string \<Rightarrow> Plugin \<Rightarrow> string" where
  "specChainStep cfg filePath content code p =
     (case transform p of
        None \<Rightarrow> code
      | Some f \<Rightarrow>
          (case f \<lparr>bc_config = cfg, bc_filePath = filePath, bc_content = content,
                   bc_code = code, bc_map = None\<rparr> of
             Inl e \<Rightarrow> code
           | Inr None \<Rightarrow> code
           | Inr (Some (ResultString s)) \<Rightarrow> s
           | Inr (Some (ResultObject c m)) \<Rightarrow> c))"

definition specChain :: "Plugin list \<Rightarrow> AetherConfig \<Rightarrow> path \<Rightarrow> string \<Rightarrow> string" where
  "specChain ps cfg filePath content = foldl (specChainStep cfg filePath content) content ps"

definition serverChainStep :: "AetherConfig \<Rightarrow> path \<Rightarrow> string \<Rightarrow> string \<Rightarrow> Plugin \<Rightarrow> string" where
  "serverChainStep cfg filePath content code p =
     (case transform p of
        None \<Rightarrow> code
      | Some f \<Rightarrow>
          (case f \<lparr>bc_config = cfg, bc_filePath = filePath, bc_content = content,
                   bc_code = code, bc_map = None\<rparr> of
             Inl e \<Rightarrow> code
           | Inr result \<Rightarrow> applyServerResult result code))"

definition serverChain :: "Plugin list \<Rightarrow> AetherConfig \<Rightarrow> path \<Rightarrow> string \<Rightarrow> string" where
  "serverChain ps cfg filePath content = foldl (serverChainStep cfg filePath content) content ps"

definition transformCallsOf :: "Plugin list \<Rightarrow> path \<Rightarrow> event list" where
  "transformCallsOf ps filePath =
     map (\<lambda>p. TransformCall (name p) filePath) (filter (\<lambda>p. transform p \<noteq> None) ps)"

text \<open>The clients whose connection is open.\<close>

definition openClients :: "DevServer \<Rightarrow> nat list" where
  "openClients srv = map fst (filter snd (srv_clients srv))"

section \<open>Traces of a traversal\<close>

text \<open>
  The names of the plugins whose \<open>transform\<close> was called for a file, in the order of the
  calls, and one pass over the plugin list. \<open>enterFile\<close> is the body of \<open>processFile\<close> for a
  file that is not yet processed, up to the loop over the dependencies; it returns the
  dependencies to visit, or none for a file that is skipped.
\<close>

definition transformCalls :: "path \<Rightarrow> event list \<Rightarrow> string list" where
  "transformCalls f evs =
     concat (map (\<lambda>ev. case ev of TransformCall n g \<Rightarrow> (if g = f then [n] else []) | _ \<Rightarrow> []) evs)"

definition transformPass :: "Plugin list \<Rightarrow> string list" where
  "transformPass ps = map name (filter (\<lambda>p. transform p \<noteq> None) ps)"

definition outputKeysProcessed :: "BuilderContext \<Rightarrow> bool" where
  "outputKeysProcessed ctx =
     (distinct (map fst (outputs ctx)) \<and> set (map fst (outputs ctx)) \<subseteq> set (processed ctx))"

definition enterFile ::
  "host \<Rightarrow> BuilderContext \<Rightarrow> path \<Rightarrow> path option
     \<Rightarrow> event list \<times> (js_error + BuilderContext \<times> DependencyInfo list option)" where
  "enterFile h ctx filePath importedBy =
     (let ctx1 = recordImporter importedBy filePath
                   (ctx\<lparr>processed := set_add filePath (processed ctx)\<rparr>)
      in case readContent h filePath of
           Inl error \<Rightarrow> ([], Inl error)
         | Inr content \<Rightarrow>
             if content = [] then
               ([ConsoleWarn (''Empty or missing file: '' @ filePath)], Inr (ctx1, None))
             else
               (case transform_loop (plugins ctx1) (config ctx1) filePath content (content, None) of
                  (evs, Inl error) \<Rightarrow> (evs, Inl error)
                | (evs, Inr (code, smap)) \<Rightarrow>
                    (let ctx2 = ctx1\<lparr>outputs := map_set filePath (code, smap) (outputs ctx1)\<rparr>
                     in case processDependencies h filePath code (config ctx2) (plugins ctx2) of
                          (evs', Inl error) \<Rightarrow> (evs @ evs', Inl error)
                        | (evs', Inr deps) \<Rightarrow>
                            (evs @ evs',
                             Inr (ctx2\<lparr>moduleGraph := map_set filePath deps (moduleGraph ctx2)\<rparr>,
                                  Some deps)))))"

definition traversalEvent :: "event \<Rightarrow> bool" where
  "traversalEvent ev =
     (case ev of
        TransformCall n f \<Rightarrow> True
      | HookCall n hookName \<Rightarrow> hookName = ''resolveId''
      | ConsoleWarn m \<Rightarrow> True
      | ConsoleError m e \<Rightarrow> True
      | _ \<Rightarrow> False)"

definition isReport :: "event \<Rightarrow> bool" where
  "isReport ev = (case ev of ConsoleError m e \<Rightarrow> True | _ \<Rightarrow> False)"

definition reportsOnly :: "event list \<Rightarrow> js_error + 'a \<Rightarrow> bool" where
  "reportsOnly evs out =
     (case out of
        Inr r \<Rightarrow> list_all (\<lambda>ev. \<not> isReport ev) evs
      | Inl e \<Rightarrow>
          list_all (\<lambda>ev. \<not> isReport ev) evs \<or>
          (evs \<noteq> [] \<and> list_all (\<lambda>ev. \<not> isReport ev) (butlast evs) \<and>
           (\<exists>m. last evs = ConsoleError m e)))"

definition traversalStep :: "BuilderContext \<Rightarrow> event list \<Rightarrow> js_error + BuilderContext \<Rightarrow> bool" where
  "traversalStep ctx evs out =
     (list_all traversalEvent evs \<and> reportsOnly evs out \<and>
      (\<forall>f. transformCalls f evs \<noteq> [] \<longrightarrow> f \<notin> set (processed ctx)) \<and>
      (\<forall>f. prefix (transformCalls f evs) (transformPass (plugins ctx))) \<and>
      (case out of
         Inl e \<Rightarrow> True
       | Inr ctx' \<Rightarrow>
           plugins ctx' = plugins ctx \<and> config ctx' = config ctx \<and>
           entryPoints ctx' = entryPoints ctx \<and>
           set (processed ctx) \<subseteq> set (processed ctx') \<and>
           (\<forall>f. transformCalls f evs \<noteq> [] \<longrightarrow> f \<in> set (processed ctx')) \<and>
           prefix (outputs ctx) (outputs ctx') \<and> outputKeysProcessed ctx'))"

definition pending :: "host \<Rightarrow> BuilderContext \<Rightarrow> nat" where
  "pending h ctx = card (fst ` set (files h) - set (processed ctx))"

definition resolveEvents :: "event list \<Rightarrow> bool" where
  "resolveEvents evs = list_all (\<lambda>ev. \<exists>n. ev = HookCall n ''resolveId'') evs"

text \<open>
  The value that the loop of \<open>processFile\<close> over the \<open>transform\<close> hooks throws for a file,
  if it throws: the file is read as \<open>processFile\<close> reads it, and a missing or empty file
  is not transformed. A trace and a result agree with these failures when every file with
  such a failure for which the trace has a \<open>transform\<close> call made it end, with the report
  as its last event and the thrown value as the result.
\<close>

definition transformError :: "host \<Rightarrow> AetherConfig \<Rightarrow> Plugin list \<Rightarrow> path \<Rightarrow> js_error option" where
  "transformError h cfg ps filePath =
     (case readContent h filePath of
        Inl error \<Rightarrow> None
      | Inr content \<Rightarrow>
          if content = [] then None
          else (case transform_loop ps cfg filePath content (content, None) of
                  (evs, Inl error) \<Rightarrow> Some error
                | (evs, Inr r) \<Rightarrow> None))"

definition abortsOn ::
  "host \<Rightarrow> AetherConfig \<Rightarrow> Plugin list \<Rightarrow> event list \<Rightarrow> js_error + 'a \<Rightarrow> bool" where
  "abortsOn h cfg ps evs out =
     (\<forall>fp e. transformCalls fp evs \<noteq> [] \<and> transformError h cfg ps fp = Some e \<longrightarrow>
        out = Inl e \<and> evs \<noteq> [] \<and> (\<exists>m. last evs = ConsoleError m e))"

definition quiet :: "event list \<Rightarrow> bool" where
  "quiet evs = list_all (\<lambda>ev. \<not> isReport ev) evs"

definition noWrites :: "event list \<Rightarrow> bool" where
  "noWrites evs = list_all (\<lambda>ev. \<not> isWrite ev) evs"

section \<open>Plugins, a configuration and a host for the worked examples\<close>

definition plainPlugin :: "string \<Rightarrow> Plugin" where
  "plainPlugin n =
     \<lparr>name = n, buildStart = None, transform = None, resolveId = None, buildEnd = None,
      configureDevServer = None, handleHotUpdate = None, watchChange = None, closeBundle = None\<rparr>"

text \<open>A plugin whose \<open>transform\<close> returns a fixed value, and one whose \<open>transform\<close> throws.\<close>

definition returningPlugin :: "string \<Rightarrow> transform_result option \<Rightarrow> Plugin" where
  "returningPlugin n r = (plainPlugin n)\<lparr>transform := Some (\<lambda>ctx. Inr r)\<rparr>"

definition throwingPlugin :: "string \<Rightarrow> string \<Rightarrow> Plugin" where
  "throwingPlugin n msg = (plainPlugin n)\<lparr>transform := Some (\<lambda>ctx. Inl (JsError msg))\<rparr>"

definition exampleConfig :: AetherConfig where
  "exampleConfig =
     \<lparr>entry = EntryString ''src/index.ts'', outDir = ''dist'', server = False, sourcemap = False,
      aliases = None, extensions = None, verbose = False\<rparr>"

text \<open>The configuration of the example with an alias table of two entries.\<close>

definition aliasConfig :: AetherConfig where
  "aliasConfig = exampleConfig\<lparr>aliases := Some [(''@lib'', ''./util''), (''lodash'', '''')]\<rparr>"

definition exampleBuildContext :: BuildContext where
  "exampleBuildContext =
     \<lparr>bc_config = exampleConfig, bc_filePath = ''/proj/src/index.ts'', bc_content = ''let x'',
      bc_code = ''let x'', bc_map = None\<rparr>"

definition resolverPlugin :: "string \<Rightarrow> string option \<Rightarrow> Plugin" where
  "resolverPlugin n r = (plainPlugin n)\<lparr>resolveId := Some (\<lambda>ctx. Inr r)\<rparr>"

text \<open>
  The project of the end-to-end example of the specification: \<open>index.ts\<close> imports
  \<open>util.ts\<close>, which imports nothing. The path functions of the example host agree with
  \<open>node:path\<close> on the paths of this project, its regular expression engine finds the one
  import of a text that begins with the source of \<open>index.ts\<close>, and its other functions are
  right on the strings of the example.
\<close>

definition indexSource :: string where
  "indexSource = ''import { u } from \"./util\";''"

definition utilSource :: string where
  "utilSource = ''export const u = 1;''"

definition exampleJoin :: "path \<Rightarrow> path \<Rightarrow> path" where
  "exampleJoin a b = a @ ''/'' @ (if startsWith b ''./'' then drop 2 b else b)"

definition exampleDirname :: "path \<Rightarrow> path" where
  "exampleDirname p = rev (drop 1 (dropWhile (\<lambda>c. c \<noteq> CHR ''/'') (rev p)))"

definition exampleRelative :: "path \<Rightarrow> path \<Rightarrow> path" where
  "exampleRelative a b = (if startsWith b (a @ ''/'') then drop (Suc (length a)) b else b)"

definition exampleHost :: host where
  "exampleHost =
     \<lparr>cwd = ''/proj'',
      files = [(''/proj'', Dir), (''/proj/src'', Dir),
               (''/proj/src/index.ts'', File indexSource), (''/proj/src/util.ts'', File utilSource)],
      path_join = exampleJoin,
      path_dirname = exampleDirname,
      path_isAbsolute = (\<lambda>p. startsWith p ''/''),
      path_resolve = (\<lambda>a b. if startsWith b ''/'' then b else exampleJoin a b),
      path_relative = exampleRelative,
      path_extname = getExtension,
      regex_matches =
        (\<lambda>re code. if re = IMPORT_RE \<and> startsWith code indexSource then [''./util''] else []),
      show_number = (\<lambda>n. if n = 2 then ''2'' else ''n''),
      toLowerCase = (\<lambda>s. s),
      json_stringify = (\<lambda>s. ''\"'' @ s @ ''\"''),
      hmrClientCode = ''/* client */''\<rparr>"

text \<open>A plugin whose \<open>transform\<close> appends a comment with its name to the running code.\<close>

definition markPlugin :: "string \<Rightarrow> Plugin" where
  "markPlugin n =
     (plainPlugin n)\<lparr>transform := Some (\<lambda>ctx. Inr (Some (ResultString (bc_code ctx @ ''//'' @ n))))\<rparr>"

text \<open>
  A project with the import cycle \<open>a.ts\<close>, \<open>b.ts\<close>, \<open>a.ts\<close>. Each source is one import
  declaration with a default binding, for which \<open>IMPORT_RE\<close> captures the specifier between
  the quotes; the expression takes the rest of the line into the match, so a text that
  begins with the source has this one import, and the other three expressions match nothing
  in it.
\<close>

definition aSource :: string where
  "aSource = ''import b from \"./b\";''"

definition bSource :: string where
  "bSource = ''import a from \"./a\";''"

definition cycleHost :: host where
  "cycleHost =
     exampleHost
       \<lparr>files := [(''/proj/a.ts'', File aSource), (''/proj/b.ts'', File bSource)],
        regex_matches :=
          (\<lambda>re code. if re = IMPORT_RE \<and> startsWith code aSource then [''./b'']
                      else if re = IMPORT_RE \<and> startsWith code bSource then [''./a''] else [])\<rparr>"

definition cycleConfig :: AetherConfig where
  "cycleConfig = exampleConfig\<lparr>entry := EntryString ''a.ts''\<rparr>"

definition cycleContext :: BuilderContext where
  "cycleContext =
     \<lparr>config = cycleConfig, plugins = [markPlugin ''M''], entryPoints = [''/proj/a.ts''],
      outputs = [], processed = [], dependencies = [], moduleGraph = []\<rparr>"

text \<open>The project of the example with an empty \<open>util.ts\<close>.\<close>

definition emptyUtilHost :: host where
  "emptyUtilHost =
     exampleHost
       \<lparr>files := [(''/proj'', Dir), (''/proj/src'', Dir),
                  (''/proj/src/index.ts'', File indexSource), (''/proj/src/util.ts'', File [])]\<rparr>"

definition exampleContext :: BuilderContext where
  "exampleContext =
     \<lparr>config = exampleConfig, plugins = [], entryPoints = [''/proj/src/index.ts''],
      outputs = [], processed = [], dependencies = [], moduleGraph = []\<rparr>"

text \<open>
  A plugin with the three hooks of the build's top level; its \<open>buildEnd\<close> throws unless
  it is given exactly two outputs.
\<close>

definition observerPlugin :: Plugin where
  "observerPlugin =
     (plainPlugin ''observer'')
       \<lparr>buildStart := Some (\<lambda>c. Inr None),
        buildEnd := Some (\<lambda>c. if length (be_outputs c) = 2 then Inr None
                               else Inl (JsError ''unexpected number of outputs'')),
        closeBundle := Some (\<lambda>u. Inr None)\<rparr>"

text \<open>A plugin whose \<open>transform\<close> throws for one file and returns null for the others.\<close>

definition pickyPlugin :: "string \<Rightarrow> path \<Rightarrow> string \<Rightarrow> Plugin" where
  "pickyPlugin n filePath msg =
     (plainPlugin n)
       \<lparr>transform := Some (\<lambda>ctx. if bc_filePath ctx = filePath then Inl (JsError msg) else Inr None)\<rparr>"

text \<open>A plugin whose \<open>watchChange\<close> hook throws.\<close>

definition watchFailPlugin :: "string \<Rightarrow> string \<Rightarrow> Plugin" where
  "watchFailPlugin n msg = (plainPlugin n)\<lparr>watchChange := Some (\<lambda>p. Inl (JsError msg))\<rparr>"

text \<open>A server for the example project with three clients, the second of them closed.\<close>

definition exampleServer :: "Plugin list \<Rightarrow> DevServer" where
  "exampleServer ps = (newDevServer exampleHost exampleConfig ps)\<lparr>srv_clients := [(1, True), (2, False), (3, True)]\<rparr>"

definition exampleBrowser :: browser where
  "exampleBrowser = \<lparr>import_module = (\<lambda>url. Inr url), date_now = 0, number_text = (\<lambda>n. ''7'')\<rparr>"

text \<open>
  The client state after the module \<open>/a.ts\<close> has created its hot context and accepted
  updates with a callback.
\<close>

definition acceptedState :: ClientState where
  "acceptedState = \<lparr>hotModulesMap = [(''/a.ts'', [\<lambda>m. Inr ()])], pruneMap = []\<rparr>"

section \<open>Properties of the plugin pipeline\<close>

lemma hookCalls_Nil: "hookCalls [] hookName hook = []"
  by (simp add: hookCalls_def)

lemma hookCalls_Cons:
  "hookCalls (p # ps) hookName hook =
     (if hook p = None then hookCalls ps hookName hook
      else HookCall (name p) hookName # hookCalls ps hookName hook)"
  by (simp add: hookCalls_def)

lemma hookReturns_Nil: "hookReturns [] hook context = []"
  by (simp add: hookReturns_def)

lemma hookReturns_Cons:
  "hookReturns (p # ps) hook context =
     (case hook p of
        None \<Rightarrow> []
      | Some f \<Rightarrow> (case f context of Inr (Some v) \<Rightarrow> [v] | _ \<Rightarrow> [])) @
     hookReturns ps hook context"
  by (simp add: hookReturns_def)

lemma last_wins_step:
  "(case rev (x # xs) of [] \<Rightarrow> r | v # vs \<Rightarrow> Some v) =
   (case rev xs of [] \<Rightarrow> Some x | v # vs \<Rightarrow> Some v)"
  by (cases "rev xs") simp_all

lemma applyPluginHook_loop_returns:
  "\<forall>p\<in>set ps. \<not> hookThrows p hook context \<Longrightarrow>
   applyPluginHook_loop ps hookName hook context r =
     (hookCalls ps hookName hook,
      Inr (case rev (hookReturns ps hook context) of [] \<Rightarrow> r | v # _ \<Rightarrow> Some v))"
proof (induction ps arbitrary: r)
  case Nil
  then show ?case by (simp add: hookCalls_Nil hookReturns_Nil)
next
  case (Cons p ps)
  then have IH: "\<And>r. applyPluginHook_loop ps hookName hook context r =
     (hookCalls ps hookName hook,
      Inr (case rev (hookReturns ps hook context) of [] \<Rightarrow> r | v # _ \<Rightarrow> Some v))"
    by simp
  from Cons.prems have nt: "\<not> hookThrows p hook context" by simp
  show ?case
  proof (cases "hook p")
    case None
    then show ?thesis using IH by (simp add: hookCalls_Cons hookReturns_Cons)
  next
    case (Some f)
    with nt obtain res where res: "f context = Inr res"
      by (cases "f context") (auto simp: hookThrows_def)
    show ?thesis
    proof (cases res)
      case None
      with Some res IH show ?thesis by (simp add: hookCalls_Cons hookReturns_Cons)
    next
      case (Some v)
      with \<open>hook p = Some f\<close> res IH show ?thesis
        by (simp add: hookCalls_Cons hookReturns_Cons last_wins_step del: rev.simps)
    qed
  qed
qed

lemma applyPluginHook_loop_throws:
  assumes "hook p = Some f" and "f context = Inl e"
    and "\<forall>q\<in>set before. \<not> hookThrows q hook context"
  shows "applyPluginHook_loop (before @ p # after) hookName hook context r =
     (hookCalls before hookName hook @
        [HookCall (name p) hookName,
         ConsoleError (''Error in plugin '' @ name p @ '' at hook '' @ hookName @ '':'') e],
      Inl e)"
  using assms(3)
proof (induction before arbitrary: r)
  case Nil
  then show ?case using assms(1,2) by (simp add: hookCalls_Nil)
next
  case (Cons q qs)
  then have IH: "\<And>r. applyPluginHook_loop (qs @ p # after) hookName hook context r =
     (hookCalls qs hookName hook @
        [HookCall (name p) hookName,
         ConsoleError (''Error in plugin '' @ name p @ '' at hook '' @ hookName @ '':'') e],
      Inl e)" by simp
  from Cons.prems have nt: "\<not> hookThrows q hook context" by simp
  show ?case
  proof (cases "hook q")
    case None
    then show ?thesis using IH by (simp add: hookCalls_Cons)
  next
    case (Some g)
    with nt obtain res where "g context = Inr res"
      by (cases "g context") (auto simp: hookThrows_def)
    with Some IH show ?thesis by (simp add: hookCalls_Cons)
  qed
qed

text \<open>
  Claim C2. When no hook throws, \<open>applyPluginHook\<close> calls the hook of every plugin that
  defines it, in list order and skipping the plugins without it, and returns the last value
  that is neither null nor undefined (null when there is none): a null result leaves the
  running result as it is, a later value overrides an earlier one.
\<close>

theorem applyPluginHook_last_wins:
  "\<forall>p\<in>set ps. \<not> hookThrows p hook context \<Longrightarrow>
   applyPluginHook ps hookName hook context =
     (hookCalls ps hookName hook, Inr (lastNonNullResult ps hook context))"
  by (simp add: applyPluginHook_def lastNonNullResult_def applyPluginHook_loop_returns)

lemmas example_plugin_defs =
  plainPlugin_def returningPlugin_def throwingPlugin_def hookThrows_def hookCalls_def
  hookReturns_def lastNonNullResult_def

theorem applyPluginHook_last_wins_witness:
  "applyPluginHook
     [returningPlugin ''P1'' (Some (ResultString ''one'')), plainPlugin ''P0'',
      returningPlugin ''P2'' (Some (ResultString ''two'')), returningPlugin ''P3'' None]
     ''transform'' transform exampleBuildContext =
   ([HookCall ''P1'' ''transform'', HookCall ''P2'' ''transform'', HookCall ''P3'' ''transform''],
    Inr (Some (ResultString ''two'')))"
proof -
  have h: "\<forall>p\<in>set [returningPlugin ''P1'' (Some (ResultString ''one'')), plainPlugin ''P0'',
      returningPlugin ''P2'' (Some (ResultString ''two'')), returningPlugin ''P3'' None].
        \<not> hookThrows p transform exampleBuildContext"
    by (simp add: example_plugin_defs)
  show ?thesis
    using applyPluginHook_last_wins [OF h, of "''transform''"]
    by (simp add: example_plugin_defs)
qed

text \<open>The two cases of the specification: both plugins return a value; only the first does.\<close>

lemma applyPluginHook_both_return:
  "snd (applyPluginHook
          [returningPlugin ''P1'' (Some (ResultString ''one'')),
           returningPlugin ''P2'' (Some (ResultString ''two''))]
          ''transform'' transform exampleBuildContext) = Inr (Some (ResultString ''two''))"
  by (simp add: applyPluginHook_def plainPlugin_def returningPlugin_def)

lemma applyPluginHook_only_first_returns:
  "snd (applyPluginHook
          [returningPlugin ''P1'' (Some (ResultString ''one'')), returningPlugin ''P2'' None]
          ''transform'' transform exampleBuildContext) = Inr (Some (ResultString ''one''))"
  by (simp add: applyPluginHook_def plainPlugin_def returningPlugin_def)

section \<open>Properties of the traversal\<close>

lemma processFile_unprocessed:
  "filePath \<notin> set (processed ctx) \<Longrightarrow>
   processFile (Suc n) h ctx filePath importedBy =
     (case enterFile h ctx filePath importedBy of
        (evs, Inl error) \<Rightarrow> Some (evs, Inl error)
      | (evs, Inr (c, None)) \<Rightarrow> Some (evs, Inr c)
      | (evs, Inr (c, Some deps)) \<Rightarrow>
          (case processFile_deps n h c filePath deps of
             None \<Rightarrow> None
           | Some (evs'', out) \<Rightarrow> Some (evs @ evs'', out)))"
  by (simp add: enterFile_def Let_def split: sum.splits prod.splits option.splits)

lemma transformCalls_Nil [simp]: "transformCalls f [] = []"
  by (simp add: transformCalls_def)

lemma transformCalls_append [simp]:
  "transformCalls f (xs @ ys) = transformCalls f xs @ transformCalls f ys"
  by (simp add: transformCalls_def)

lemma transformCalls_Cons:
  "transformCalls f (ev # evs) =
     (case ev of TransformCall n g \<Rightarrow> (if g = f then [n] else []) | _ \<Rightarrow> []) @ transformCalls f evs"
  by (simp add: transformCalls_def)

lemma transform_loop_calls:
  "transform_loop ps cfg fp content cm = (evs, out) \<Longrightarrow>
   (\<forall>f. f \<noteq> fp \<longrightarrow> transformCalls f evs = []) \<and>
   prefix (transformCalls fp evs) (transformPass ps) \<and>
   (\<forall>r. out = Inr r \<longrightarrow> transformCalls fp evs = transformPass ps)"
proof (induction ps arbitrary: cm evs out)
  case Nil
  then show ?case by (auto simp: transformPass_def)
next
  case (Cons p ps)
  show ?case
  proof (cases "transform p")
    case None
    with Cons show ?thesis by (simp add: transformPass_def)
  next
    case (Some t)
    show ?thesis
    proof (cases "t \<lparr>bc_config = cfg, bc_filePath = fp, bc_content = content,
                   bc_code = fst cm, bc_map = snd cm\<rparr>")
      case (Inl e)
      with Some Cons.prems show ?thesis
        by (auto simp: transformPass_def transformCalls_Cons)
    next
      case (Inr r)
      obtain evs' out' where rest:
        "transform_loop ps cfg fp content (applyTransformResult r cm) = (evs', out')"
        by (cases "transform_loop ps cfg fp content (applyTransformResult r cm)")
      with Some Inr Cons.prems have e: "evs = TransformCall (name p) fp # evs'" "out = out'"
        by auto
      from Cons.IH [OF rest] Some e show ?thesis
        by (auto simp: transformPass_def transformCalls_Cons)
    qed
  qed
qed


lemma traversalEvent_simps [simp]:
  "traversalEvent (TransformCall n f)"
  "traversalEvent (HookCall n hookName) = (hookName = ''resolveId'')"
  "traversalEvent (ConsoleWarn m)"
  "traversalEvent (ConsoleError m e)"
  "\<not> traversalEvent (ConsoleLog m)"
  "\<not> traversalEvent (EnsureDir d)"
  "\<not> traversalEvent (WriteFile d t)"
  "\<not> traversalEvent (ClientSend c pl)"
  by (simp_all add: traversalEvent_def)

lemma isReport_simps [simp]:
  "\<not> isReport (TransformCall n f)"
  "\<not> isReport (HookCall n hookName)"
  "\<not> isReport (ConsoleWarn m)"
  "isReport (ConsoleError m e)"
  "\<not> isReport (ConsoleLog m)"
  "\<not> isReport (EnsureDir d)"
  "\<not> isReport (WriteFile d t)"
  "\<not> isReport (ClientSend c pl)"
  by (simp_all add: isReport_def)

lemma reportsOnly_Nil [simp]: "reportsOnly [] out"
  by (simp add: reportsOnly_def split: sum.splits)

lemma reportsOnly_append:
  "reportsOnly evs (Inr c) \<Longrightarrow> reportsOnly evs' out \<Longrightarrow> reportsOnly (evs @ evs') out"
  by (cases out) (auto simp: reportsOnly_def butlast_append)

lemma reportsOnly_Inl_to:
  "reportsOnly evs (Inl e :: js_error + 'a) \<Longrightarrow> reportsOnly evs (Inl e :: js_error + 'b)"
  by (simp add: reportsOnly_def)

lemma reportsOnly_quiet:
  "list_all (\<lambda>ev. \<not> isReport ev) evs \<Longrightarrow> reportsOnly evs out"
  by (simp add: reportsOnly_def split: sum.splits)

lemma transform_loop_events:
  "transform_loop ps cfg fp content cm = (evs, out) \<Longrightarrow>
   list_all traversalEvent evs \<and> reportsOnly evs out"
proof (induction ps arbitrary: cm evs out)
  case Nil
  then show ?case by auto
next
  case (Cons p ps)
  show ?case
  proof (cases "transform p")
    case None
    with Cons show ?thesis by simp
  next
    case (Some t)
    show ?thesis
    proof (cases "t \<lparr>bc_config = cfg, bc_filePath = fp, bc_content = content,
                   bc_code = fst cm, bc_map = snd cm\<rparr>")
      case (Inl e)
      with Some Cons.prems show ?thesis
        by (auto simp: reportsOnly_def)
    next
      case (Inr r)
      obtain evs' out' where rest:
        "transform_loop ps cfg fp content (applyTransformResult r cm) = (evs', out')"
        by (cases "transform_loop ps cfg fp content (applyTransformResult r cm)")
      with Some Inr Cons.prems have e: "evs = TransformCall (name p) fp # evs'" "out = out'"
        by auto
      have q: "reportsOnly [TransformCall (name p) fp] (Inr ())"
        by (simp add: reportsOnly_def)
      from Cons.IH [OF rest] have "list_all traversalEvent evs'" "reportsOnly evs' out'" by auto
      with e reportsOnly_append [OF q, of evs' out'] show ?thesis
        by simp
    qed
  qed
qed

lemma resolveEvents_Nil [simp]: "resolveEvents []"
  by (simp add: resolveEvents_def)

lemma resolveEvents_append [simp]:
  "resolveEvents (xs @ ys) = (resolveEvents xs \<and> resolveEvents ys)"
  by (simp add: resolveEvents_def)

lemma resolveId_loop_events: "resolveId_loop ps ctx = (evs, out) \<Longrightarrow> resolveEvents evs"
proof (induction ps arbitrary: evs out)
  case Nil
  then show ?case by auto
next
  case (Cons p ps)
  show ?case
  proof (cases "resolveId p")
    case None
    with Cons show ?thesis by simp
  next
    case (Some f)
    show ?thesis
    proof (cases "f ctx")
      case (Inl e)
      with Some Cons.prems show ?thesis by (auto simp: resolveEvents_def)
    next
      case (Inr r)
      obtain evs' out' where rest: "resolveId_loop ps ctx = (evs', out')"
        by (cases "resolveId_loop ps ctx")
      from Cons.IH [OF rest] have "resolveEvents evs'" .
      with Some Inr rest Cons.prems show ?thesis
        by (auto simp: resolveEvents_def split: if_splits)
    qed
  qed
qed

lemma resolveModuleSpecifier_events:
  "resolveModuleSpecifier h s imp cfg ps = (evs, out) \<Longrightarrow> resolveEvents evs"
  by (auto simp: resolveModuleSpecifier_def Let_def split: if_splits prod.splits sum.splits
           dest: resolveId_loop_events)

lemma processDependencies_loop_events:
  "processDependencies_loop h fp cfg ps specs = (evs, out) \<Longrightarrow> resolveEvents evs"
proof (induction specs arbitrary: evs out)
  case Nil
  then show ?case by auto
next
  case (Cons s specs)
  obtain e1 o1 where first: "resolveModuleSpecifier h s fp cfg ps = (e1, o1)"
    by (cases "resolveModuleSpecifier h s fp cfg ps")
  obtain e2 o2 where rest: "processDependencies_loop h fp cfg ps specs = (e2, o2)"
    by (cases "processDependencies_loop h fp cfg ps specs")
  from resolveModuleSpecifier_events [OF first] Cons.IH [OF rest]
  have "resolveEvents e1" "resolveEvents e2" by auto
  with first rest Cons.prems show ?case
    by (auto split: sum.splits)
qed

lemma resolveEvents_traversal:
  "resolveEvents evs \<Longrightarrow>
   list_all traversalEvent evs \<and> list_all (\<lambda>ev. \<not> isReport ev) evs \<and> transformCalls f evs = []"
  by (induction evs) (auto simp: resolveEvents_def transformCalls_Cons)


lemma map_set_fresh: "k \<notin> fst ` set m \<Longrightarrow> map_set k v m = m @ [(k, v)]"
  by (induction m) auto

lemma outputKeysProcessed_keep:
  "outputKeysProcessed ctx \<Longrightarrow> outputs c = outputs ctx \<Longrightarrow>
   set (processed ctx) \<subseteq> set (processed c) \<Longrightarrow> outputKeysProcessed c"
  unfolding outputKeysProcessed_def by auto

lemma outputKeysProcessed_store:
  "outputKeysProcessed ctx \<Longrightarrow> fp \<notin> set (processed ctx) \<Longrightarrow>
   outputs c = outputs ctx @ [(fp, v)] \<Longrightarrow>
   set (processed c) = insert fp (set (processed ctx)) \<Longrightarrow> outputKeysProcessed c"
  unfolding outputKeysProcessed_def by auto

lemma set_set_add [simp]: "set (set_add x xs) = insert x (set xs)"
  by (auto simp: set_add_def)

lemma recordImporter_fields [simp]:
  "processed (recordImporter i f c) = processed c"
  "outputs (recordImporter i f c) = outputs c"
  "plugins (recordImporter i f c) = plugins c"
  "config (recordImporter i f c) = config c"
  "entryPoints (recordImporter i f c) = entryPoints c"
  "moduleGraph (recordImporter i f c) = moduleGraph c"
  by (simp_all add: recordImporter_def addDependency_def)

lemma readContent_nonempty_exists:
  "readContent h fp = Inr content \<Longrightarrow> content \<noteq> [] \<Longrightarrow> fp \<in> fst ` set (files h)"
  by (auto simp: readContent_def fileExists_def existsSync_def readFile_def
           split: if_splits option.splits fsnode.splits dest!: map_of_SomeD
           intro: rev_image_eqI)

lemma enterFile_step:
  assumes new: "fp \<notin> set (processed ctx)" and okp: "outputKeysProcessed ctx"
    and run: "enterFile h ctx fp imp = (evs, out)"
  shows "list_all traversalEvent evs \<and> reportsOnly evs out \<and>
         (\<forall>f. f \<noteq> fp \<longrightarrow> transformCalls f evs = []) \<and>
         prefix (transformCalls fp evs) (transformPass (plugins ctx)) \<and>
         (\<forall>c d. out = Inr (c, d) \<longrightarrow>
            plugins c = plugins ctx \<and> config c = config ctx \<and>
            entryPoints c = entryPoints ctx \<and>
            set (processed c) = insert fp (set (processed ctx)) \<and>
            prefix (outputs ctx) (outputs c) \<and> outputKeysProcessed c \<and>
            (d \<noteq> None \<longrightarrow> fp \<in> fst ` set (files h)))"
proof (cases "readContent h fp")
  case (Inl e)
  with run show ?thesis by (auto simp: enterFile_def)
next
  case (Inr content)
  note content = this
  show ?thesis
  proof (cases "content = []")
    case True
    with content run have eo: "evs = [ConsoleWarn (''Empty or missing file: '' @ fp)]"
      "out = Inr (recordImporter imp fp (ctx\<lparr>processed := set_add fp (processed ctx)\<rparr>), None)"
      by (auto simp: enterFile_def Let_def)
    have "outputKeysProcessed (recordImporter imp fp (ctx\<lparr>processed := set_add fp (processed ctx)\<rparr>))"
      by (rule outputKeysProcessed_keep [OF okp]) auto
    with eo show ?thesis
      by (auto simp: reportsOnly_def transformCalls_Cons)
  next
    case False
    obtain tevs tout where tl:
      "transform_loop (plugins ctx) (config ctx) fp content (content, None) = (tevs, tout)"
      by (cases "transform_loop (plugins ctx) (config ctx) fp content (content, None)")
    note tc = transform_loop_calls [OF tl] and te = transform_loop_events [OF tl]
    show ?thesis
    proof (cases tout)
      case (Inl e)
      with content False tl run have "evs = tevs" "out = Inl e"
        by (auto simp: enterFile_def Let_def)
      with tc te Inl show ?thesis by (auto simp: reportsOnly_def)
    next
      case (Inr cm)
      obtain code smap where cm: "cm = (code, smap)" by (cases cm)
      obtain devs dout where pd:
        "processDependencies h fp code (config ctx) (plugins ctx) = (devs, dout)"
        by (cases "processDependencies h fp code (config ctx) (plugins ctx)")
      then have "resolveEvents devs"
        by (auto simp: processDependencies_def dest: processDependencies_loop_events)
      note de = resolveEvents_traversal [OF this]
      from te Inr have tquiet: "reportsOnly tevs (Inr ())" by (simp add: reportsOnly_def)
      have fresh: "fp \<notin> fst ` set (outputs ctx)"
        using new okp by (auto simp: outputKeysProcessed_def)
      show ?thesis
      proof (cases dout)
        case (Inl e)
        with content False tl Inr cm pd run have eo: "evs = tevs @ devs" "out = Inl e"
          by (auto simp: enterFile_def Let_def)
        have "reportsOnly (tevs @ devs) (Inl e :: js_error + BuilderContext \<times> DependencyInfo list option)"
          using de by (intro reportsOnly_append [OF tquiet] reportsOnly_quiet) simp
        with eo tc te de show ?thesis by auto
      next
        case (Inr deps)
        with content False tl \<open>tout = Inr cm\<close> cm pd run
        have eo: "evs = tevs @ devs"
          "out = Inr ((recordImporter imp fp (ctx\<lparr>processed := set_add fp (processed ctx)\<rparr>))
                        \<lparr>outputs := map_set fp (code, smap) (outputs ctx),
                         moduleGraph := map_set fp deps (moduleGraph ctx)\<rparr>, Some deps)"
          by (auto simp: enterFile_def Let_def)
        have ro: "reportsOnly (tevs @ devs) out"
          using de by (intro reportsOnly_append [OF tquiet] reportsOnly_quiet) simp
        from content False have ex: "fp \<in> fst ` set (files h)"
          by (rule readContent_nonempty_exists)
        have "outputKeysProcessed
                ((recordImporter imp fp (ctx\<lparr>processed := set_add fp (processed ctx)\<rparr>))
                        \<lparr>outputs := map_set fp (code, smap) (outputs ctx),
                         moduleGraph := map_set fp deps (moduleGraph ctx)\<rparr>)"
          by (rule outputKeysProcessed_store [OF okp new, where v = "(code, smap)"])
             (simp_all add: map_set_fresh [OF fresh])
        with eo ro tc te de ex fresh show ?thesis
          by (auto simp: map_set_fresh)
      qed
    qed
  qed
qed


lemma traversalStep_refl: "outputKeysProcessed ctx \<Longrightarrow> traversalStep ctx [] (Inr ctx)"
  by (simp add: traversalStep_def reportsOnly_def)

lemma traversalStep_okp: "traversalStep ctx evs (Inr c) \<Longrightarrow> outputKeysProcessed c"
  by (simp add: traversalStep_def)

lemma traversalStep_trans:
  assumes a: "traversalStep ctx evs1 (Inr c1)" and b: "traversalStep c1 evs2 out"
  shows "traversalStep ctx (evs1 @ evs2) out"
proof -
  from a have a1: "list_all traversalEvent evs1" "reportsOnly evs1 (Inr c1)"
    and a2: "\<And>f. transformCalls f evs1 \<noteq> [] \<Longrightarrow> f \<notin> set (processed ctx)"
    and a3: "\<And>f. prefix (transformCalls f evs1) (transformPass (plugins ctx))"
    and a4: "plugins c1 = plugins ctx" "config c1 = config ctx" "entryPoints c1 = entryPoints ctx"
      "set (processed ctx) \<subseteq> set (processed c1)" "prefix (outputs ctx) (outputs c1)"
    and a5: "\<And>f. transformCalls f evs1 \<noteq> [] \<Longrightarrow> f \<in> set (processed c1)"
    by (simp_all add: traversalStep_def)
  from b have b1: "list_all traversalEvent evs2" "reportsOnly evs2 out"
    and b2: "\<And>f. transformCalls f evs2 \<noteq> [] \<Longrightarrow> f \<notin> set (processed c1)"
    and b3: "\<And>f. prefix (transformCalls f evs2) (transformPass (plugins c1))"
    by (simp_all add: traversalStep_def)
  have p1: "list_all traversalEvent (evs1 @ evs2)" using a1 b1 by simp
  have p2: "reportsOnly (evs1 @ evs2) out" using a1 b1 by (auto intro: reportsOnly_append)
  have p3: "\<forall>f. transformCalls f (evs1 @ evs2) \<noteq> [] \<longrightarrow> f \<notin> set (processed ctx)"
    using a2 b2 a4 by auto
  have p4: "\<forall>f. prefix (transformCalls f (evs1 @ evs2)) (transformPass (plugins ctx))"
  proof
    fix f
    show "prefix (transformCalls f (evs1 @ evs2)) (transformPass (plugins ctx))"
    proof (cases "transformCalls f evs1 = []")
      case True
      with b3 [of f] a4 show ?thesis by simp
    next
      case False
      then have "f \<in> set (processed c1)" by (rule a5)
      with b2 [of f] have "transformCalls f evs2 = []" by auto
      with a3 [of f] show ?thesis by simp
    qed
  qed
  show ?thesis
  proof (cases out)
    case (Inl e)
    with p1 p2 p3 p4 show ?thesis by (simp add: traversalStep_def)
  next
    case (Inr c2)
    with b have b4: "plugins c2 = plugins c1" "config c2 = config c1"
      "entryPoints c2 = entryPoints c1"
      "set (processed c1) \<subseteq> set (processed c2)" "prefix (outputs c1) (outputs c2)"
      "outputKeysProcessed c2"
      and b5: "\<And>f. transformCalls f evs2 \<noteq> [] \<Longrightarrow> f \<in> set (processed c2)"
      by (simp_all add: traversalStep_def)
    have "\<forall>f. transformCalls f (evs1 @ evs2) \<noteq> [] \<longrightarrow> f \<in> set (processed c2)"
      using a5 b5 b4 by auto
    moreover have "prefix (outputs ctx) (outputs c2)"
      using a4 b4 by (meson prefix_order.trans)
    moreover have "set (processed ctx) \<subseteq> set (processed c2)"
      using a4 b4 by blast
    ultimately show ?thesis using Inr p1 p2 p3 p4 a4(1,2,3) b4(1,2,3,6)
      by (simp add: traversalStep_def)
  qed
qed

lemma enterFile_traversalStep_fail:
  assumes "fp \<notin> set (processed ctx)" "outputKeysProcessed ctx"
    "enterFile h ctx fp imp = (evs, Inl e)"
  shows "traversalStep ctx evs (Inl e)"
proof -
  note s = enterFile_step [OF assms]
  note s0 = s [THEN conjunct1]
  have s1: "\<And>f. f \<noteq> fp \<Longrightarrow> transformCalls f evs = []"
    using s [THEN conjunct2, THEN conjunct2, THEN conjunct1] by blast
  note s2 = s [THEN conjunct2, THEN conjunct2, THEN conjunct2, THEN conjunct1]
  note s [THEN conjunct2, THEN conjunct1]
  then have r: "reportsOnly evs (Inl e :: js_error + BuilderContext)"
    by (rule reportsOnly_Inl_to)
  have a: "\<forall>f. transformCalls f evs \<noteq> [] \<longrightarrow> f \<notin> set (processed ctx)"
  proof (intro allI impI)
    fix f assume "transformCalls f evs \<noteq> []"
    with s1 [of f] have "f = fp" by (cases "f = fp") simp_all
    with assms(1) show "f \<notin> set (processed ctx)" by simp
  qed
  have b: "\<forall>f. prefix (transformCalls f evs) (transformPass (plugins ctx))"
  proof
    fix f show "prefix (transformCalls f evs) (transformPass (plugins ctx))"
      using s1 [of f] s2 by (cases "f = fp") simp_all
  qed
  show ?thesis unfolding traversalStep_def using s0 r a b by (intro conjI) simp_all
qed

lemma enterFile_traversalStep:
  assumes "fp \<notin> set (processed ctx)" "outputKeysProcessed ctx"
    "enterFile h ctx fp imp = (evs, Inr (c, d))"
  shows "traversalStep ctx evs (Inr c)"
proof -
  note s = enterFile_step [OF assms]
  note s0 = s [THEN conjunct1]
  have s1: "\<And>f. f \<noteq> fp \<Longrightarrow> transformCalls f evs = []"
    using s [THEN conjunct2, THEN conjunct2, THEN conjunct1] by blast
  note s2 = s [THEN conjunct2, THEN conjunct2, THEN conjunct2, THEN conjunct1]
  have s3: "plugins c = plugins ctx" "config c = config ctx"
    "entryPoints c = entryPoints ctx" "set (processed c) = insert fp (set (processed ctx))"
    "prefix (outputs ctx) (outputs c)" "outputKeysProcessed c"
    using s [THEN conjunct2, THEN conjunct2, THEN conjunct2, THEN conjunct2] by blast+
  note s [THEN conjunct2, THEN conjunct1]
  then have r: "reportsOnly evs (Inr c)" by (simp add: reportsOnly_def)
  have a: "\<forall>f. transformCalls f evs \<noteq> [] \<longrightarrow> f \<notin> set (processed ctx)"
  proof (intro allI impI)
    fix f assume "transformCalls f evs \<noteq> []"
    with s1 [of f] have "f = fp" by (cases "f = fp") simp_all
    with assms(1) show "f \<notin> set (processed ctx)" by simp
  qed
  have b: "\<forall>f. prefix (transformCalls f evs) (transformPass (plugins ctx))"
  proof
    fix f show "prefix (transformCalls f evs) (transformPass (plugins ctx))"
      using s1 [of f] s2 by (cases "f = fp") simp_all
  qed
  have c: "\<forall>f. transformCalls f evs \<noteq> [] \<longrightarrow> f \<in> set (processed c)"
  proof (intro allI impI)
    fix f assume "transformCalls f evs \<noteq> []"
    with s1 [of f] have "f = fp" by (cases "f = fp") simp_all
    with s3(4) show "f \<in> set (processed c)" by simp
  qed
  have d: "set (processed ctx) \<subseteq> set (processed c)" using s3(4) by blast
  show ?thesis unfolding traversalStep_def using s0 r a b c d s3(1,2,3,5,6)
    by (intro conjI) simp_all
qed

lemma processFile_deps_step:
  assumes fileStep: "\<And>ctx fp imp evs out. outputKeysProcessed ctx \<Longrightarrow>
      processFile n h ctx fp imp = Some (evs, out) \<Longrightarrow> traversalStep ctx evs out"
  shows "outputKeysProcessed ctx \<Longrightarrow> processFile_deps n h ctx fp deps = Some (evs, out) \<Longrightarrow>
         traversalStep ctx evs out"
proof (induction deps arbitrary: ctx evs out)
  case Nil
  then show ?case by (auto intro: traversalStep_refl)
next
  case (Cons dep rest)
  show ?case
  proof (cases "truthy (resolved dep) \<and> \<not> isExternal dep")
    case False
    with Cons show ?thesis by auto
  next
    case True
    with Cons.prems obtain e1 o1 where first:
      "processFile n h ctx (the (resolved dep)) (Some fp) = Some (e1, o1)"
      by (auto split: option.splits)
    from fileStep [OF Cons.prems(1) first] have s1: "traversalStep ctx e1 o1" .
    show ?thesis
    proof (cases o1)
      case (Inl e)
      with True first Cons.prems s1 show ?thesis by auto
    next
      case (Inr c1)
      with True first Cons.prems obtain e2 where rest:
        "processFile_deps n h c1 fp rest = Some (e2, out)" and evs: "evs = e1 @ e2"
        by (auto split: option.splits)
      from s1 Inr have okp1: "outputKeysProcessed c1" by (auto dest: traversalStep_okp)
      from Cons.IH [OF okp1 rest] s1 Inr evs show ?thesis
        by (auto intro: traversalStep_trans)
    qed
  qed
qed

lemma processFile_step:
  "outputKeysProcessed ctx \<Longrightarrow> processFile n h ctx fp imp = Some (evs, out) \<Longrightarrow>
   traversalStep ctx evs out"
proof (induction n arbitrary: ctx fp imp evs out)
  case 0
  then show ?case by simp
next
  case (Suc n)
  show ?case
  proof (cases "fp \<in> set (processed ctx)")
    case True
    with Suc.prems have "evs = []" "out = Inr (recordImporter imp fp ctx)" by auto
    moreover have "outputKeysProcessed (recordImporter imp fp ctx)"
      by (rule outputKeysProcessed_keep [OF Suc.prems(1)]) auto
    ultimately show ?thesis by (simp add: traversalStep_def reportsOnly_def)
  next
    case False
    obtain e1 o1 where ent: "enterFile h ctx fp imp = (e1, o1)"
      by (cases "enterFile h ctx fp imp")
    from Suc.prems(2) have pf:
      "(case (e1, o1) of
          (evs, Inl error) \<Rightarrow> Some (evs, Inl error)
        | (evs, Inr (c, None)) \<Rightarrow> Some (evs, Inr c)
        | (evs, Inr (c, Some deps)) \<Rightarrow>
            (case processFile_deps n h c fp deps of
               None \<Rightarrow> None
             | Some (evs'', out) \<Rightarrow> Some (evs @ evs'', out))) = Some (evs, out)"
      unfolding processFile_unprocessed [OF False] ent .
    show ?thesis
    proof (cases o1)
      case (Inl e)
      with pf have "evs = e1" "out = Inl e"
        by auto
      with enterFile_traversalStep_fail [OF False Suc.prems(1)] ent Inl show ?thesis by simp
    next
      case (Inr cd)
      obtain c d where cd: "cd = (c, d)" by (cases cd)
      from enterFile_traversalStep [OF False Suc.prems(1)] ent Inr cd
      have s1: "traversalStep ctx e1 (Inr c)" by simp
      show ?thesis
      proof (cases d)
        case None
        with Inr cd pf have "evs = e1" "out = Inr c"
          by auto
        with s1 show ?thesis by simp
      next
        case (Some deps)
        with Inr cd pf obtain e2 where
          rest: "processFile_deps n h c fp deps = Some (e2, out)" and evs: "evs = e1 @ e2"
          by (auto split: option.splits)
        from s1 have okp1: "outputKeysProcessed c" by (rule traversalStep_okp)
        have "traversalStep c e2 out"
          by (rule processFile_deps_step [OF _ okp1 rest]) (rule Suc.IH)
        with s1 evs show ?thesis by (auto intro: traversalStep_trans)
      qed
    qed
  qed
qed

lemma pending_mono:
  "set (processed ctx) \<subseteq> set (processed c) \<Longrightarrow> pending h c \<le> pending h ctx"
  unfolding pending_def by (intro card_mono) auto

lemma pending_enter:
  assumes "fp \<in> fst ` set (files h)" "fp \<notin> set (processed ctx)"
    "set (processed c) = insert fp (set (processed ctx))"
  shows "pending h c < pending h ctx"
  unfolding pending_def using assms by (intro psubset_card_mono) auto

lemma pending_fresh: "processed ctx = [] \<Longrightarrow> pending h ctx \<le> length (files h)"
proof -
  assume "processed ctx = []"
  then have "pending h ctx = card (fst ` set (files h))" by (simp add: pending_def)
  also have "\<dots> \<le> card (set (files h))" by (rule card_image_le) simp
  also have "\<dots> \<le> length (files h)" by (rule card_length)
  finally show ?thesis .
qed

lemma traversalStep_processed:
  "traversalStep ctx evs (Inr c) \<Longrightarrow> set (processed ctx) \<subseteq> set (processed c)"
  by (simp add: traversalStep_def)

lemma processFile_deps_total:
  assumes fileTotal: "\<And>ctx fp imp. outputKeysProcessed ctx \<Longrightarrow> pending h ctx < n \<Longrightarrow>
      \<exists>r. processFile n h ctx fp imp = Some r"
  shows "outputKeysProcessed ctx \<Longrightarrow> pending h ctx < n \<Longrightarrow>
         \<exists>r. processFile_deps n h ctx fp deps = Some r"
proof (induction deps arbitrary: ctx)
  case Nil
  then show ?case by simp
next
  case (Cons dep rest)
  show ?case
  proof (cases "truthy (resolved dep) \<and> \<not> isExternal dep")
    case False
    with Cons show ?thesis by auto
  next
    case True
    from fileTotal [OF Cons.prems] obtain e1 o1 where first:
      "processFile n h ctx (the (resolved dep)) (Some fp) = Some (e1, o1)" by fastforce
    show ?thesis
    proof (cases o1)
      case (Inl e)
      with True first show ?thesis by simp
    next
      case (Inr c1)
      from processFile_step [OF Cons.prems(1) first] Inr
      have s1: "traversalStep ctx e1 (Inr c1)" by simp
      have "pending h c1 \<le> pending h ctx"
        by (rule pending_mono [OF traversalStep_processed [OF s1]])
      with Cons.prems(2) have "pending h c1 < n" by simp
      from Cons.IH [OF traversalStep_okp [OF s1] this] obtain r where
        "processFile_deps n h c1 fp rest = Some r" by blast
      with True first Inr show ?thesis by (cases r) simp
    qed
  qed
qed

lemma processFile_total:
  "outputKeysProcessed ctx \<Longrightarrow> pending h ctx < n \<Longrightarrow> \<exists>r. processFile n h ctx fp imp = Some r"
proof (induction n arbitrary: ctx fp imp)
  case 0
  then show ?case by simp
next
  case (Suc n)
  show ?case
  proof (cases "fp \<in> set (processed ctx)")
    case True
    then show ?thesis by simp
  next
    case False
    obtain e1 o1 where ent: "enterFile h ctx fp imp = (e1, o1)"
      by (cases "enterFile h ctx fp imp")
    show ?thesis
    proof (cases o1)
      case (Inl e)
      with ent show ?thesis unfolding processFile_unprocessed [OF False] by simp
    next
      case (Inr cd)
      obtain c d where cd: "cd = (c, d)" by (cases cd)
      show ?thesis
      proof (cases d)
        case None
        with ent Inr cd show ?thesis unfolding processFile_unprocessed [OF False] by simp
      next
        case (Some deps)
        from ent Inr cd Some have ent': "enterFile h ctx fp imp = (e1, Inr (c, Some deps))"
          by simp
        note s = enterFile_step [OF False Suc.prems(1) ent']
        have ex: "fp \<in> fst ` set (files h)"
          and pr: "set (processed c) = insert fp (set (processed ctx))"
          using s [THEN conjunct2, THEN conjunct2, THEN conjunct2, THEN conjunct2] by blast+
        from pending_enter [OF ex False pr] Suc.prems(2) have lt: "pending h c < n" by simp
        have okp: "outputKeysProcessed c"
          by (rule traversalStep_okp [OF enterFile_traversalStep [OF False Suc.prems(1) ent']])
        have "\<exists>r. processFile_deps n h c fp deps = Some r"
          by (rule processFile_deps_total [OF _ okp lt]) (rule Suc.IH)
        then obtain r where "processFile_deps n h c fp deps = Some r" ..
        with ent' show ?thesis unfolding processFile_unprocessed [OF False] by (cases r) simp
      qed
    qed
  qed
qed

lemma processEntries_step:
  "outputKeysProcessed ctx \<Longrightarrow> processEntries n h ctx es = Some (evs, out) \<Longrightarrow>
   traversalStep ctx evs out"
proof (induction es arbitrary: ctx evs out)
  case Nil
  then show ?case by (auto intro: traversalStep_refl)
next
  case (Cons e rest)
  from Cons.prems obtain e1 o1 where first: "processFile n h ctx e None = Some (e1, o1)"
    by (auto split: option.splits)
  note s1 = processFile_step [OF Cons.prems(1) first]
  show ?case
  proof (cases o1)
    case (Inl err)
    with first Cons.prems s1 show ?thesis by auto
  next
    case (Inr c1)
    with first Cons.prems obtain e2 where rest:
      "processEntries n h c1 rest = Some (e2, out)" and evs: "evs = e1 @ e2"
      by (auto split: option.splits)
    from s1 Inr have s1': "traversalStep ctx e1 (Inr c1)" by simp
    from Cons.IH [OF traversalStep_okp [OF s1'] rest] s1' evs show ?thesis
      by (auto intro: traversalStep_trans)
  qed
qed

lemma processEntries_total:
  "outputKeysProcessed ctx \<Longrightarrow> pending h ctx < n \<Longrightarrow> \<exists>r. processEntries n h ctx es = Some r"
proof (induction es arbitrary: ctx)
  case Nil
  then show ?case by simp
next
  case (Cons e rest)
  from processFile_total [OF Cons.prems] obtain e1 o1 where first:
    "processFile n h ctx e None = Some (e1, o1)" by fastforce
  show ?case
  proof (cases o1)
    case (Inl err)
    with first show ?thesis by simp
  next
    case (Inr c1)
    from processFile_step [OF Cons.prems(1) first] Inr
    have s1: "traversalStep ctx e1 (Inr c1)" by simp
    have "pending h c1 \<le> pending h ctx"
      by (rule pending_mono [OF traversalStep_processed [OF s1]])
    with Cons.prems(2) have "pending h c1 < n" by simp
    from Cons.IH [OF traversalStep_okp [OF s1] this] obtain r where
      "processEntries n h c1 rest = Some r" by blast
    with first Inr show ?thesis by (cases r) simp
  qed
qed

lemma createBuilderContext_fresh:
  assumes "createBuilderContext h cfg ps = (e0, Inr ctx)"
  shows "ctx = \<lparr>config = cfg, plugins = ps, entryPoints = entryPoints ctx, outputs = [],
                 processed = [], dependencies = [], moduleGraph = []\<rparr>"
    and "resolveEntryPoints h cfg = Inr (entryPoints ctx)"
    and "e0 = fst (loadPlugins ps)"
  using assms by (auto simp: createBuilderContext_def loadPlugins_def split: sum.splits)

lemma fresh_context_ok:
  assumes "createBuilderContext h cfg ps = (e0, Inr ctx)"
  shows "outputKeysProcessed ctx" and "pending h ctx \<le> length (files h)"
    and "plugins ctx = ps" and "config ctx = cfg" and "processed ctx = []" and "outputs ctx = []"
proof -
  note f = createBuilderContext_fresh(1) [OF assms]
  show p: "processed ctx = []" by (subst f) simp
  show o: "outputs ctx = []" by (subst f) simp
  show "plugins ctx = ps" by (subst f) simp
  show "config ctx = cfg" by (subst f) simp
  from o show "outputKeysProcessed ctx" by (simp add: outputKeysProcessed_def)
  from p show "pending h ctx \<le> length (files h)" by (rule pending_fresh)
qed

lemma build_total:
  assumes "length (files h) < n"
  shows "build n h cfg ps \<noteq> None"
proof (cases "createBuilderContext h cfg ps")
  case (Pair e0 o0)
  show ?thesis
  proof (cases o0)
    case (Inl e)
    with Pair show ?thesis by (simp add: build_def)
  next
    case (Inr ctx)
    with Pair have c: "createBuilderContext h cfg ps = (e0, Inr ctx)" by simp
    from fresh_context_ok(2) [OF c] assms have lt: "pending h ctx < n" by simp
    from processEntries_total [OF fresh_context_ok(1) [OF c] lt]
    obtain r where r: "processEntries n h ctx (entryPoints ctx) = Some r" by blast
    with c show ?thesis
      by (auto simp: build_def Let_def split: prod.splits sum.splits option.splits)
  qed
qed

lemma revisit_only_records:
  "f \<in> set (processed c) \<Longrightarrow>
   processFile (Suc m) h c f imp = Some ([], Inr (recordImporter imp f c)) \<and>
   outputs (recordImporter imp f c) = outputs c \<and>
   processed (recordImporter imp f c) = processed c \<and>
   moduleGraph (recordImporter imp f c) = moduleGraph c"
  by simp

lemma processFile_deps_fuel:
  assumes fileMono: "\<And>ctx fp imp r. processFile n h ctx fp imp = Some r \<Longrightarrow>
      processFile (Suc n) h ctx fp imp = Some r"
  shows "processFile_deps n h ctx fp deps = Some r \<Longrightarrow>
         processFile_deps (Suc n) h ctx fp deps = Some r"
proof (induction deps arbitrary: ctx r)
  case Nil
  then show ?case by simp
next
  case (Cons dep rest)
  show ?case
  proof (cases "truthy (resolved dep) \<and> \<not> isExternal dep")
    case False
    with Cons.prems have "processFile_deps n h ctx fp rest = Some r" by auto
    from Cons.IH [OF this] False show ?thesis by (auto simp del: processFile.simps)
  next
    case True
    with Cons.prems obtain e1 o1 where first:
      "processFile n h ctx (the (resolved dep)) (Some fp) = Some (e1, o1)"
      by (auto split: option.splits)
    note first' = fileMono [OF first]
    show ?thesis
    proof (cases o1)
      case (Inl e)
      with True first Cons.prems have "r = (e1, Inl e)" by simp
      with True first' Inl show ?thesis by (simp del: processFile.simps)
    next
      case (Inr c1)
      with True first Cons.prems obtain e2 o2 where rest:
        "processFile_deps n h c1 fp rest = Some (e2, o2)" and r: "r = (e1 @ e2, o2)"
        by (auto split: option.splits)
      from Cons.IH [OF rest] True first' Inr r show ?thesis
        by (simp del: processFile.simps)
    qed
  qed
qed

lemma processFile_fuel_Suc:
  "processFile n h ctx fp imp = Some r \<Longrightarrow> processFile (Suc n) h ctx fp imp = Some r"
proof (induction n arbitrary: ctx fp imp r)
  case 0
  then show ?case by simp
next
  case (Suc n)
  show ?case
  proof (cases "fp \<in> set (processed ctx)")
    case True
    with Suc.prems show ?thesis by simp
  next
    case False
    obtain e1 o1 where ent: "enterFile h ctx fp imp = (e1, o1)"
      by (cases "enterFile h ctx fp imp")
    show ?thesis
    proof (cases o1)
      case (Inl e)
      with ent Suc.prems show ?thesis
        unfolding processFile_unprocessed [OF False] by simp
    next
      case (Inr cd)
      obtain c d where cd: "cd = (c, d)" by (cases cd)
      show ?thesis
      proof (cases d)
        case None
        with ent Inr cd Suc.prems show ?thesis
          unfolding processFile_unprocessed [OF False] by simp
      next
        case (Some deps)
        with ent Inr cd Suc.prems obtain r2 where
          rest: "processFile_deps n h c fp deps = Some r2"
          unfolding processFile_unprocessed [OF False] by (auto split: option.splits)
        have "processFile_deps (Suc n) h c fp deps = Some r2"
          by (rule processFile_deps_fuel [OF _ rest]) (rule Suc.IH)
        with rest ent Inr cd Some Suc.prems show ?thesis
          unfolding processFile_unprocessed [OF False] by simp
      qed
    qed
  qed
qed

lemma processEntries_fuel_Suc:
  "processEntries n h ctx es = Some r \<Longrightarrow> processEntries (Suc n) h ctx es = Some r"
proof (induction es arbitrary: ctx r)
  case Nil
  then show ?case by simp
next
  case (Cons e rest)
  from Cons.prems obtain e1 o1 where first: "processFile n h ctx e None = Some (e1, o1)"
    by (auto split: option.splits)
  note first' = processFile_fuel_Suc [OF first]
  show ?case
  proof (cases o1)
    case (Inl err)
    with first Cons.prems have "r = (e1, Inl err)" by simp
    with first' Inl show ?thesis by (simp del: processFile.simps)
  next
    case (Inr c1)
    with first Cons.prems obtain e2 o2 where rest: "processEntries n h c1 rest = Some (e2, o2)"
      and r: "r = (e1 @ e2, o2)"
      by (auto split: option.splits)
    from Cons.IH [OF rest] first' Inr r show ?thesis
      by (simp del: processFile.simps)
  qed
qed

lemma build_fuel_Suc:
  assumes "build n h cfg ps = Some r"
  shows "build (Suc n) h cfg ps = Some r"
proof (cases "createBuilderContext h cfg ps")
  case (Pair e0 o0)
  show ?thesis
  proof (cases o0)
    case (Inl e)
    with Pair assms show ?thesis by (simp add: build_def)
  next
    case (Inr ctx)
    obtain e1 o1 where s1: "applyPluginHook (plugins ctx) ''buildStart'' buildStart cfg = (e1, o1)"
      by (cases "applyPluginHook (plugins ctx) ''buildStart'' buildStart cfg")
    show ?thesis
    proof (cases o1)
      case (Inl e)
      with Pair Inr s1 assms show ?thesis by (simp add: build_def)
    next
      case (Inr r1)
      with Pair \<open>o0 = Inr ctx\<close> s1 assms obtain t where
        t: "processEntries n h ctx (entryPoints ctx) = Some t"
        by (auto simp: build_def split: option.splits)
      from processEntries_fuel_Suc [OF t] t Pair \<open>o0 = Inr ctx\<close> s1 Inr assms show ?thesis
        by (simp add: build_def)
    qed
  qed
qed

lemma build_fuel_mono:
  "build n h cfg ps = Some r \<Longrightarrow> n \<le> m \<Longrightarrow> build m h cfg ps = Some r"
proof (induction m)
  case 0
  then show ?case by simp
next
  case (Suc m)
  show ?case
  proof (cases "n = Suc m")
    case True
    with Suc.prems show ?thesis by simp
  next
    case False
    with Suc.prems have "n \<le> m" by simp
    from Suc.IH [OF Suc.prems(1) this] show ?thesis by (rule build_fuel_Suc)
  qed
qed

text \<open>
  Claim C1. With a bound above the number of files of the file system, \<open>build\<close> and its
  traversal of the entry points return, whatever the import graph is (shared modules and
  cycles included), and a larger bound gives the same result. In the trace of the traversal the \<open>transform\<close> calls for a module
  identity are at most one pass over the plugin list; the identities in the outputs are
  distinct and processed. A call of \<open>processFile\<close> on an identity already processed
  makes no call and only records the importer in \<open>dependencies\<close>; and no call of
  \<open>processFile\<close> replaces an output already stored.
\<close>

theorem traversal_terminates_once:
  assumes "length (files h) < n"
  shows "build n h cfg ps \<noteq> None \<and>
    (\<forall>m. n \<le> m \<longrightarrow> build m h cfg ps = build n h cfg ps) \<and>
    (\<forall>e0 ctx. createBuilderContext h cfg ps = (e0, Inr ctx) \<longrightarrow>
       (\<exists>evs out. processEntries n h ctx (entryPoints ctx) = Some (evs, out) \<and>
          (\<forall>f. prefix (transformCalls f evs) (transformPass ps)) \<and>
          (\<forall>ctx'. out = Inr ctx' \<longrightarrow>
             distinct (map fst (outputs ctx')) \<and>
             set (map fst (outputs ctx')) \<subseteq> set (processed ctx')))) \<and>
    (\<forall>m c f imp. f \<in> set (processed c) \<longrightarrow>
       processFile (Suc m) h c f imp = Some ([], Inr (recordImporter imp f c)) \<and>
       outputs (recordImporter imp f c) = outputs c \<and>
       processed (recordImporter imp f c) = processed c \<and>
       moduleGraph (recordImporter imp f c) = moduleGraph c) \<and>
    (\<forall>m c f imp evs c'. outputKeysProcessed c \<longrightarrow>
       processFile m h c f imp = Some (evs, Inr c') \<longrightarrow>
       prefix (outputs c) (outputs c') \<and> outputKeysProcessed c')"
proof (intro conjI allI impI)
  show "build n h cfg ps \<noteq> None" by (rule build_total [OF assms])
next
  fix m assume le: "n \<le> m"
  from build_total [OF assms, of cfg ps] obtain r where r: "build n h cfg ps = Some r" by blast
  from build_fuel_mono [OF r le] r show "build m h cfg ps = build n h cfg ps" by simp
next
  fix e0 ctx
  assume c: "createBuilderContext h cfg ps = (e0, Inr ctx)"
  from fresh_context_ok(2) [OF c] assms have lt: "pending h ctx < n" by simp
  note okp = fresh_context_ok(1) [OF c]
  from processEntries_total [OF okp lt]
  obtain evs out where r: "processEntries n h ctx (entryPoints ctx) = Some (evs, out)"
    by fastforce
  note s = processEntries_step [OF okp r]
  have a: "\<forall>f. prefix (transformCalls f evs) (transformPass ps)"
    using s fresh_context_ok(3) [OF c] by (simp add: traversalStep_def)
  have b: "\<forall>ctx'. out = Inr ctx' \<longrightarrow>
             distinct (map fst (outputs ctx')) \<and>
             set (map fst (outputs ctx')) \<subseteq> set (processed ctx')"
  proof (intro allI impI)
    fix ctx' assume "out = Inr ctx'"
    with s have "outputKeysProcessed ctx'" by (auto dest: traversalStep_okp)
    then show "distinct (map fst (outputs ctx')) \<and>
             set (map fst (outputs ctx')) \<subseteq> set (processed ctx')"
      by (simp add: outputKeysProcessed_def)
  qed
  from r a b show "\<exists>evs out. processEntries n h ctx (entryPoints ctx) = Some (evs, out) \<and>
          (\<forall>f. prefix (transformCalls f evs) (transformPass ps)) \<and>
          (\<forall>ctx'. out = Inr ctx' \<longrightarrow>
             distinct (map fst (outputs ctx')) \<and>
             set (map fst (outputs ctx')) \<subseteq> set (processed ctx'))"
    by blast
next
  fix m c f imp evs c'
  assume "outputKeysProcessed c" "processFile m h c f imp = Some (evs, Inr c')"
  then have "traversalStep c evs (Inr c')" by (rule processFile_step)
  then show "prefix (outputs c) (outputs c')" "outputKeysProcessed c'"
    by (simp_all add: traversalStep_def)
qed (simp_all)

lemmas example_host_defs =
  exampleHost_def exampleConfig_def exampleJoin_def exampleDirname_def exampleRelative_def
  cycleHost_def cycleConfig_def cycleContext_def aSource_def bSource_def indexSource_def
  utilSource_def markPlugin_def plainPlugin_def startsWith_def endsWith_def

lemma cycle_traversal_example:
  "\<exists>ctx'. processEntries 3 cycleHost cycleContext [''/proj/a.ts''] =
       Some ([TransformCall ''M'' ''/proj/a.ts'', TransformCall ''M'' ''/proj/b.ts''], Inr ctx') \<and>
     outputs ctx' =
       [(''/proj/a.ts'', (''import b from \"./b\";//M'', None)),
        (''/proj/b.ts'', (''import a from \"./a\";//M'', None))] \<and>
     processed ctx' = [''/proj/a.ts'', ''/proj/b.ts''] \<and>
     dependencies ctx' = [(''/proj/a.ts'', [''/proj/b.ts'']), (''/proj/b.ts'', [''/proj/a.ts''])]"
  by (simp add: numeral_3_eq_3 example_host_defs Let_def readContent_def fileExists_def
        existsSync_def readFile_def set_add_def applyTransformResult_def processDependencies_def
        extractImports_def resolveModuleSpecifier_def isUrl_def isBare_def truthy_def
        resolveWithExtensions_def defaultExtensions_def recordImporter_def addDependency_def)

theorem traversal_terminates_once_witness:
  "build 3 cycleHost cycleConfig [markPlugin ''M''] \<noteq> None \<and>
   build 8 cycleHost cycleConfig [markPlugin ''M''] =
     build 3 cycleHost cycleConfig [markPlugin ''M''] \<and>
   (\<exists>ctx'. processEntries 3 cycleHost cycleContext (entryPoints cycleContext) =
        Some ([TransformCall ''M'' ''/proj/a.ts'', TransformCall ''M'' ''/proj/b.ts''], Inr ctx') \<and>
      transformCalls ''/proj/a.ts''
        [TransformCall ''M'' ''/proj/a.ts'', TransformCall ''M'' ''/proj/b.ts''] = [''M''] \<and>
      transformCalls ''/proj/b.ts''
        [TransformCall ''M'' ''/proj/a.ts'', TransformCall ''M'' ''/proj/b.ts''] = [''M''] \<and>
      (\<forall>f. prefix
         (transformCalls f [TransformCall ''M'' ''/proj/a.ts'', TransformCall ''M'' ''/proj/b.ts''])
         (transformPass [markPlugin ''M''])) \<and>
      map fst (outputs ctx') = [''/proj/a.ts'', ''/proj/b.ts''] \<and>
      distinct (map fst (outputs ctx')) \<and>
      processed ctx' = [''/proj/a.ts'', ''/proj/b.ts''] \<and>
      dependencies ctx' =
        [(''/proj/a.ts'', [''/proj/b.ts'']), (''/proj/b.ts'', [''/proj/a.ts''])])"
proof -
  have len: "length (files cycleHost) < 3" by (simp add: cycleHost_def)
  have c: "createBuilderContext cycleHost cycleConfig [markPlugin ''M''] = ([], Inr cycleContext)"
    by (simp add: createBuilderContext_def loadPlugins_def resolveEntryPoints_def
          example_host_defs)
  have en: "entryPoints cycleContext = [''/proj/a.ts'']" by (simp add: cycleContext_def)
  note t = traversal_terminates_once [OF len, of cycleConfig "[markPlugin ''M'']"]
  note b = t [THEN conjunct1]
  note t2 = t [THEN conjunct2, THEN conjunct1, rule_format]
  have m: "build 8 cycleHost cycleConfig [markPlugin ''M''] =
             build 3 cycleHost cycleConfig [markPlugin ''M'']" by (rule t2) simp
  note t3 = t [THEN conjunct2, THEN conjunct2, THEN conjunct1, rule_format, OF c]
  from cycle_traversal_example obtain ctx' where
    x: "processEntries 3 cycleHost cycleContext [''/proj/a.ts''] =
          Some ([TransformCall ''M'' ''/proj/a.ts'', TransformCall ''M'' ''/proj/b.ts''], Inr ctx')"
    and o: "outputs ctx' =
       [(''/proj/a.ts'', (''import b from \"./b\";//M'', None)),
        (''/proj/b.ts'', (''import a from \"./a\";//M'', None))]"
    and q: "processed ctx' = [''/proj/a.ts'', ''/proj/b.ts'']"
    and g: "dependencies ctx' =
        [(''/proj/a.ts'', [''/proj/b.ts'']), (''/proj/b.ts'', [''/proj/a.ts''])]"
    by (elim exE conjE)
  from x en have x': "processEntries 3 cycleHost cycleContext (entryPoints cycleContext) =
        Some ([TransformCall ''M'' ''/proj/a.ts'', TransformCall ''M'' ''/proj/b.ts''], Inr ctx')"
    by simp
  from t3 have "(\<forall>f. prefix
         (transformCalls f [TransformCall ''M'' ''/proj/a.ts'', TransformCall ''M'' ''/proj/b.ts''])
         (transformPass [markPlugin ''M''])) \<and> distinct (map fst (outputs ctx'))"
    unfolding x' by simp
  then have p': "\<forall>f. prefix
         (transformCalls f [TransformCall ''M'' ''/proj/a.ts'', TransformCall ''M'' ''/proj/b.ts''])
         (transformPass [markPlugin ''M''])" and dd: "distinct (map fst (outputs ctx'))"
    by (rule conjunct1, rule conjunct2)
  have tc1: "transformCalls ''/proj/a.ts''
        [TransformCall ''M'' ''/proj/a.ts'', TransformCall ''M'' ''/proj/b.ts''] = [''M'']"
    by (simp add: transformCalls_def)
  have tc2: "transformCalls ''/proj/b.ts''
        [TransformCall ''M'' ''/proj/a.ts'', TransformCall ''M'' ''/proj/b.ts''] = [''M'']"
    by (simp add: transformCalls_def)
  from o have k: "map fst (outputs ctx') = [''/proj/a.ts'', ''/proj/b.ts'']" by simp
  show ?thesis
    by (intro conjI exI [of _ ctx']) (rule b m x' tc1 tc2 p' k dd q g)+
qed

lemma readContent_missingOrEmpty: "missingOrEmpty h fp \<Longrightarrow> readContent h fp = Inr []"
  by (auto simp: missingOrEmpty_def readContent_def fileExists_def existsSync_def readFile_def
           split: option.splits fsnode.splits)

lemma processFile_skips:
  "missingOrEmpty h fp \<Longrightarrow> fp \<notin> set (processed ctx) \<Longrightarrow>
   processFile (Suc n) h ctx fp imp =
     Some ([ConsoleWarn (''Empty or missing file: '' @ fp)], Inr (skipFile imp fp ctx))"
  by (simp add: readContent_missingOrEmpty skipFile_def)

lemma skipFile_fields:
  "outputs (skipFile imp fp ctx) = outputs ctx"
  "moduleGraph (skipFile imp fp ctx) = moduleGraph ctx"
  "set (processed (skipFile imp fp ctx)) = insert fp (set (processed ctx))"
  by (simp_all add: skipFile_def)

lemma map_of_map_set: "map_of (map_set k v m) k = Some v"
  by (induction m) auto

lemma skipFile_dependencies:
  "truthy imp \<Longrightarrow>
   \<exists>deps. map_of (dependencies (skipFile imp fp ctx)) (the imp) = Some deps \<and> fp \<in> set deps"
  by (simp add: skipFile_def recordImporter_def addDependency_def map_of_map_set)

lemma isWrite_simps [simp]:
  "\<not> isWrite (TransformCall n f)"
  "\<not> isWrite (HookCall n hookName)"
  "\<not> isWrite (ConsoleWarn m)"
  "\<not> isWrite (ConsoleError m e)"
  "\<not> isWrite (ConsoleLog m)"
  "isWrite (EnsureDir d)"
  "isWrite (WriteFile d t)"
  "\<not> isWrite (ClientSend c pl)"
  by (simp_all add: isWrite_def)

lemma applyPluginHook_loop_events:
  "applyPluginHook_loop ps hookName hook context r = (evs, out) \<Longrightarrow>
   reportsOnly evs out \<and> list_all (\<lambda>ev. \<not> isWrite ev) evs \<and>
   (\<forall>f. transformCalls f evs = [])"
proof (induction ps arbitrary: r evs out)
  case Nil
  then show ?case by auto
next
  case (Cons p ps)
  show ?case
  proof (cases "hook p")
    case None
    with Cons show ?thesis by simp
  next
    case (Some g)
    show ?thesis
    proof (cases "g context")
      case (Inl e)
      with Some Cons.prems have
        "evs = [HookCall (name p) hookName,
                ConsoleError (''Error in plugin '' @ name p @ '' at hook '' @ hookName @ '':'') e]"
        "out = Inl e" by auto
      then show ?thesis
        by (simp add: reportsOnly_def transformCalls_Cons)
    next
      case (Inr res)
      obtain evs' out' where rest:
        "applyPluginHook_loop ps hookName hook context
           (case res of None \<Rightarrow> r | Some v \<Rightarrow> Some v) = (evs', out')"
        by (cases "applyPluginHook_loop ps hookName hook context
           (case res of None \<Rightarrow> r | Some v \<Rightarrow> Some v)")
      with Some Inr Cons.prems have e: "evs = HookCall (name p) hookName # evs'" "out = out'"
        by auto
      have q: "reportsOnly [HookCall (name p) hookName] (Inr ())"
        by (simp add: reportsOnly_def)
      from Cons.IH [OF rest] have ih: "reportsOnly evs' out'"
        "list_all (\<lambda>ev. \<not> isWrite ev) evs'" "\<forall>f. transformCalls f evs' = []" by auto
      with e reportsOnly_append [OF q, of evs' out'] show ?thesis
        by (simp add: transformCalls_Cons)
    qed
  qed
qed

lemma applyPluginHook_loop_success:
  "applyPluginHook_loop ps hookName hook context r = (evs, Inr v) \<Longrightarrow>
   (\<forall>p\<in>set ps. \<not> hookThrows p hook context)"
proof (induction ps arbitrary: r evs)
  case Nil
  then show ?case by simp
next
  case (Cons p ps)
  show ?case
  proof (cases "hook p")
    case None
    with Cons show ?thesis by (auto simp: hookThrows_def)
  next
    case (Some g)
    show ?thesis
    proof (cases "g context")
      case (Inl e)
      with Some Cons.prems show ?thesis by simp
    next
      case (Inr res)
      with Some Cons.prems obtain evs' where
        "applyPluginHook_loop ps hookName hook context
           (case res of None \<Rightarrow> r | Some v \<Rightarrow> Some v) = (evs', Inr v)"
        by (auto split: prod.splits)
      from Cons.IH [OF this] Some Inr show ?thesis by (simp add: hookThrows_def)
    qed
  qed
qed

lemma applyPluginHook_success:
  assumes "applyPluginHook ps hookName hook context = (evs, Inr v)"
  shows "\<forall>p\<in>set ps. \<not> hookThrows p hook context" and "evs = hookCalls ps hookName hook"
proof -
  from assms show nt: "\<forall>p\<in>set ps. \<not> hookThrows p hook context"
    unfolding applyPluginHook_def by (rule applyPluginHook_loop_success)
  from applyPluginHook_loop_returns [OF nt, of hookName None] assms
  show "evs = hookCalls ps hookName hook" by (simp add: applyPluginHook_def)
qed

lemma closeBundle_loop_events:
  "closeBundle_loop ps = (evs, out) \<Longrightarrow>
   list_all (\<lambda>ev. \<not> isReport ev) evs \<and> (\<forall>f. transformCalls f evs = []) \<and>
   (\<forall>u. out = Inr u \<longrightarrow>
      evs = hookCalls ps ''closeBundle'' closeBundle \<and> (\<forall>p\<in>set ps. \<not> hookThrows p closeBundle ()))"
proof (induction ps arbitrary: evs out)
  case Nil
  then show ?case by (auto simp: hookCalls_Nil)
next
  case (Cons p ps)
  show ?case
  proof (cases "closeBundle p")
    case None
    with Cons show ?thesis by (simp add: hookCalls_Cons hookThrows_def)
  next
    case (Some g)
    show ?thesis
    proof (cases "g ()")
      case (Inl e)
      with Some Cons.prems show ?thesis by (auto simp: transformCalls_Cons)
    next
      case (Inr res)
      obtain evs' out' where rest: "closeBundle_loop ps = (evs', out')"
        by (cases "closeBundle_loop ps")
      with Some Inr Cons.prems have e: "evs = HookCall (name p) ''closeBundle'' # evs'" "out = out'"
        by auto
      from Cons.IH [OF rest] e Some Inr show ?thesis
        by (simp add: hookCalls_Cons hookThrows_def transformCalls_Cons)
    qed
  qed
qed

lemma list_all_memD: "list_all P xs \<Longrightarrow> x \<in> set xs \<Longrightarrow> P x"
  by (simp add: list_all_iff)

lemma reportsOnly_report:
  assumes "reportsOnly evs out" and "ConsoleError m e \<in> set evs"
  shows "out = Inl e \<and> last evs = ConsoleError m e"
proof -
  have nq: "\<not> list_all (\<lambda>ev. \<not> isReport ev) evs"
  proof
    assume "list_all (\<lambda>ev. \<not> isReport ev) evs"
    from list_all_memD [OF this assms(2)] show False by simp
  qed
  from assms(2) have ne: "evs \<noteq> []" by auto
  show ?thesis
  proof (cases out)
    case (Inr r)
    with assms(1) nq show ?thesis by (simp add: reportsOnly_def)
  next
    case (Inl e')
    with assms(1) nq obtain m' where q: "list_all (\<lambda>ev. \<not> isReport ev) (butlast evs)"
      and l: "last evs = ConsoleError m' e'"
      by (auto simp: reportsOnly_def)
    from ne have "butlast evs @ [last evs] = evs" by simp
    then have "set evs = set (butlast evs @ [last evs])" by simp
    with assms(2) have "ConsoleError m e \<in> set (butlast evs) \<or> ConsoleError m e = last evs"
      by auto
    moreover have "ConsoleError m e \<notin> set (butlast evs)"
    proof
      assume "ConsoleError m e \<in> set (butlast evs)"
      from list_all_memD [OF q this] show False by simp
    qed
    ultimately have "ConsoleError m e = last evs" by simp
    with l Inl show ?thesis by simp
  qed
qed

lemma build_cases:
  assumes b: "build n h cfg ps = Some (evs, out)"
  obtains
    (noContext) e where "resolveEntryPoints h cfg = Inl e"
      "evs = ConsoleLog ''Starting build...'' # fst (loadPlugins ps)" "out = Inl e"
  | (startFails) ctx e1 e where
      "createBuilderContext h cfg ps = (fst (loadPlugins ps), Inr ctx)"
      "applyPluginHook ps ''buildStart'' buildStart cfg = (e1, Inl e)"
      "evs = ConsoleLog ''Starting build...'' # fst (loadPlugins ps) @ e1" "out = Inl e"
  | (traversalFails) ctx e2 e where
      "createBuilderContext h cfg ps = (fst (loadPlugins ps), Inr ctx)"
      "\<forall>p\<in>set ps. \<not> hookThrows p buildStart cfg"
      "processEntries n h ctx (entryPoints ctx) = Some (e2, Inl e)"
      "evs = ConsoleLog ''Starting build...'' # fst (loadPlugins ps) @
             hookCalls ps ''buildStart'' buildStart @ e2"
      "out = Inl e"
  | (endFails) ctx e2 ctx' e4 e where
      "createBuilderContext h cfg ps = (fst (loadPlugins ps), Inr ctx)"
      "\<forall>p\<in>set ps. \<not> hookThrows p buildStart cfg"
      "processEntries n h ctx (entryPoints ctx) = Some (e2, Inr ctx')"
      "applyPluginHook ps ''buildEnd'' buildEnd \<lparr>be_config = cfg, be_outputs = outputs ctx'\<rparr> =
         (e4, Inl e)"
      "evs = ConsoleLog ''Starting build...'' # fst (loadPlugins ps) @
             hookCalls ps ''buildStart'' buildStart @ e2 @ verboseLog cfg ctx' @ e4"
      "out = Inl e"
  | (written) ctx e2 ctx' e7 o7 where
      "createBuilderContext h cfg ps = (fst (loadPlugins ps), Inr ctx)"
      "\<forall>p\<in>set ps. \<not> hookThrows p buildStart cfg"
      "processEntries n h ctx (entryPoints ctx) = Some (e2, Inr ctx')"
      "\<forall>p\<in>set ps. \<not> hookThrows p buildEnd \<lparr>be_config = cfg, be_outputs = outputs ctx'\<rparr>"
      "closeBundle_loop ps = (e7, o7)"
      "evs = ConsoleLog ''Starting build...'' # fst (loadPlugins ps) @
             hookCalls ps ''buildStart'' buildStart @ e2 @ verboseLog cfg ctx' @
             hookCalls ps ''buildEnd'' buildEnd @ writeOutputs h ctx' @
             completionLogs h cfg ctx' @ e7"
      "out = (case o7 of Inl e \<Rightarrow> Inl e | Inr u \<Rightarrow> Inr ctx')"
proof (cases "createBuilderContext h cfg ps")
  case (Pair e0 o0)
  show thesis
  proof (cases o0)
    case (Inl e)
    with Pair have "resolveEntryPoints h cfg = Inl e" "e0 = fst (loadPlugins ps)"
      by (auto simp: createBuilderContext_def split: prod.splits sum.splits)
    moreover from Pair Inl b have "evs = ConsoleLog ''Starting build...'' # e0" "out = Inl e"
      by (auto simp: build_def)
    ultimately show thesis by (auto intro: noContext)
  next
    case (Inr ctx)
    with Pair have c0: "createBuilderContext h cfg ps = (e0, Inr ctx)" by simp
    note fr = fresh_context_ok [OF c0]
    from createBuilderContext_fresh(3) [OF c0] have e0: "e0 = fst (loadPlugins ps)" .
    with c0 have c: "createBuilderContext h cfg ps = (fst (loadPlugins ps), Inr ctx)" by simp
    obtain e1 o1 where s1: "applyPluginHook ps ''buildStart'' buildStart cfg = (e1, o1)"
      by (cases "applyPluginHook ps ''buildStart'' buildStart cfg")
    show thesis
    proof (cases o1)
      case (Inl e)
      with c0 s1 fr(3) b e0 have
        "evs = ConsoleLog ''Starting build...'' # fst (loadPlugins ps) @ e1" "out = Inl e"
        by (auto simp: build_def)
      with c s1 Inl show thesis by (auto intro: startFails)
    next
      case (Inr r1)
      with s1 have s1': "applyPluginHook ps ''buildStart'' buildStart cfg = (e1, Inr r1)" by simp
      note bs = applyPluginHook_success [OF s1']
      from c0 s1' fr(3) b obtain e2 o2 where
        t: "processEntries n h ctx (entryPoints ctx) = Some (e2, o2)"
        by (auto simp: build_def split: option.splits)
      note ts = processEntries_step [OF fr(1) t]
      show thesis
      proof (cases o2)
        case (Inl e)
        with c0 s1' fr(3) t b e0 bs(2) have
          "evs = ConsoleLog ''Starting build...'' # fst (loadPlugins ps) @
             hookCalls ps ''buildStart'' buildStart @ e2" "out = Inl e"
          by (auto simp: build_def)
        with c bs(1) t Inl show thesis by (auto intro: traversalFails)
      next
        case (Inr ctx')
        with ts fr(3) have pl: "plugins ctx' = ps" by (simp add: traversalStep_def)
        from Inr t have t': "processEntries n h ctx (entryPoints ctx) = Some (e2, Inr ctx')"
          by simp
        obtain e4 o4 where s4:
          "applyPluginHook ps ''buildEnd'' buildEnd \<lparr>be_config = cfg, be_outputs = outputs ctx'\<rparr> =
             (e4, o4)"
          by (cases "applyPluginHook ps ''buildEnd'' buildEnd
                       \<lparr>be_config = cfg, be_outputs = outputs ctx'\<rparr>")
        show thesis
        proof (cases o4)
          case (Inl e)
          with c0 s1' fr(3) t' pl s4 b e0 bs(2) have
            "evs = ConsoleLog ''Starting build...'' # fst (loadPlugins ps) @
               hookCalls ps ''buildStart'' buildStart @ e2 @ verboseLog cfg ctx' @ e4"
            "out = Inl e"
            by (auto simp: build_def verboseLog_def Let_def)
          with c bs(1) t' s4 Inl show thesis by (auto intro: endFails)
        next
          case (Inr r4)
          with s4 have s4':
            "applyPluginHook ps ''buildEnd'' buildEnd \<lparr>be_config = cfg, be_outputs = outputs ctx'\<rparr> =
               (e4, Inr r4)" by simp
          note be = applyPluginHook_success [OF s4']
          obtain e7 o7 where s7: "closeBundle_loop ps = (e7, o7)"
            by (cases "closeBundle_loop ps")
          from c0 s1' fr(3) t' pl s4' s7 b e0 bs(2) be(2) have
            "evs = ConsoleLog ''Starting build...'' # fst (loadPlugins ps) @
               hookCalls ps ''buildStart'' buildStart @ e2 @ verboseLog cfg ctx' @
               hookCalls ps ''buildEnd'' buildEnd @ writeOutputs h ctx' @
               completionLogs h cfg ctx' @ e7"
            "out = (case o7 of Inl e \<Rightarrow> Inl e | Inr u \<Rightarrow> Inr ctx')"
            by (auto simp: build_def verboseLog_def Let_def)
          with c bs(1) t' be(1) s7 show thesis by (auto intro: written)
        qed
      qed
    qed
  qed
qed

lemma quiet_simps [simp]:
  "quiet []" "quiet (ev # evs) = (\<not> isReport ev \<and> quiet evs)"
  "quiet (xs @ ys) = (quiet xs \<and> quiet ys)"
  by (simp_all add: quiet_def)

lemma noWrites_simps [simp]:
  "noWrites []" "noWrites (ev # evs) = (\<not> isWrite ev \<and> noWrites evs)"
  "noWrites (xs @ ys) = (noWrites xs \<and> noWrites ys)"
  by (simp_all add: noWrites_def)

lemma hookCalls_plain: "quiet (hookCalls ps hookName hook) \<and> noWrites (hookCalls ps hookName hook)"
  by (induction ps) (simp_all add: hookCalls_Nil hookCalls_Cons)

lemma loadPlugins_plain: "quiet (fst (loadPlugins ps)) \<and> noWrites (fst (loadPlugins ps))"
  by (induction ps) (simp_all add: loadPlugins_def)

lemma verboseLog_plain: "quiet (verboseLog cfg ctx) \<and> noWrites (verboseLog cfg ctx)"
  by (simp add: verboseLog_def)

lemma writeOutput_quiet: "quiet (writeOutput h cfg d out)"
  by (cases out) (simp add: writeOutput_def writeFile_def Let_def)

lemma writeOutputs_quiet: "quiet (writeOutputs h ctx)"
proof -
  have "\<And>outs d. quiet (concat (map (writeOutput h (config ctx) d) outs))"
  proof -
    fix outs d show "quiet (concat (map (writeOutput h (config ctx) d) outs))"
      by (induction outs) (simp_all add: writeOutput_quiet)
  qed
  then show ?thesis by (simp add: writeOutputs_def Let_def)
qed

lemma completionLogs_quiet: "quiet (completionLogs h cfg ctx)"
  by (simp add: completionLogs_def)

lemma traversalEvents_noWrites: "list_all traversalEvent evs \<Longrightarrow> noWrites evs"
proof (induction evs)
  case Nil
  then show ?case by simp
next
  case (Cons ev evs)
  then show ?case by (cases ev) simp_all
qed

lemma reportsOnly_quiet_iff: "reportsOnly evs (Inr r) = quiet evs"
  by (simp add: reportsOnly_def quiet_def)

lemma abort_trace:
  assumes "quiet pre" and "reportsOnly e (Inl x)" and "ConsoleError m err \<in> set (pre @ e)"
  shows "x = err \<and> last (pre @ e) = ConsoleError m err"
proof -
  from assms(1) have "reportsOnly pre (Inr ())" by (simp add: reportsOnly_quiet_iff)
  note ro = reportsOnly_append [OF this assms(2)]
  from reportsOnly_report [OF ro assms(3)] show ?thesis by simp
qed

lemma quiet_no_report: "quiet evs \<Longrightarrow> ConsoleError m e \<notin> set evs"
proof
  assume "quiet evs" "ConsoleError m e \<in> set evs"
  then have "\<not> isReport (ConsoleError m e)" unfolding quiet_def by (rule list_all_memD)
  then show False by simp
qed

lemma build_report_aborts:
  assumes b: "build n h cfg ps = Some (evs, out)" and r: "ConsoleError m e \<in> set evs"
  shows "out = Inl e \<and> last evs = ConsoleError m e \<and> noWrites evs"
  using b
proof (cases rule: build_cases)
  case (noContext e')
  have "quiet evs" unfolding noContext(2) using loadPlugins_plain [of ps] by simp
  with r show ?thesis by (auto dest: quiet_no_report)
next
  case (startFails ctx e1 e')
  from startFails(2) have ev: "reportsOnly e1 (Inl e' :: js_error + unit option)" "noWrites e1"
    by (auto simp: applyPluginHook_def noWrites_def dest: applyPluginHook_loop_events)
  have pre: "quiet (ConsoleLog ''Starting build...'' # fst (loadPlugins ps))"
    using loadPlugins_plain [of ps] by simp
  from r have "ConsoleError m e \<in> set ((ConsoleLog ''Starting build...'' # fst (loadPlugins ps)) @ e1)"
    unfolding startFails(3) by simp
  from abort_trace [OF pre ev(1) this] ev(2) loadPlugins_plain [of ps] startFails(3,4)
  show ?thesis by simp
next
  case (traversalFails ctx e2 e')
  note fr = fresh_context_ok [OF traversalFails(1)]
  note ts = processEntries_step [OF fr(1) traversalFails(3)]
  from ts have ev: "reportsOnly e2 (Inl e' :: js_error + BuilderContext)" "noWrites e2"
    by (auto simp: traversalStep_def intro: traversalEvents_noWrites)
  have pre: "quiet (ConsoleLog ''Starting build...'' # fst (loadPlugins ps) @
                    hookCalls ps ''buildStart'' buildStart)"
    using loadPlugins_plain [of ps] hookCalls_plain [of ps "''buildStart''" buildStart] by simp
  from r have "ConsoleError m e \<in> set ((ConsoleLog ''Starting build...'' # fst (loadPlugins ps) @
                    hookCalls ps ''buildStart'' buildStart) @ e2)"
    unfolding traversalFails(4) by simp
  from abort_trace [OF pre ev(1) this] ev(2) loadPlugins_plain [of ps]
    hookCalls_plain [of ps "''buildStart''" buildStart] traversalFails(4,5)
  show ?thesis by simp
next
  case (endFails ctx e2 ctx' e4 e')
  note fr = fresh_context_ok [OF endFails(1)]
  note ts = processEntries_step [OF fr(1) endFails(3)]
  from ts have t: "quiet e2" "noWrites e2"
    by (auto simp: traversalStep_def reportsOnly_quiet_iff intro: traversalEvents_noWrites)
  from endFails(4) have ev: "reportsOnly e4 (Inl e' :: js_error + unit option)" "noWrites e4"
    by (auto simp: applyPluginHook_def noWrites_def dest: applyPluginHook_loop_events)
  have pre: "quiet (ConsoleLog ''Starting build...'' # fst (loadPlugins ps) @
                    hookCalls ps ''buildStart'' buildStart @ e2 @ verboseLog cfg ctx')"
    using loadPlugins_plain [of ps] hookCalls_plain [of ps "''buildStart''" buildStart] t
      verboseLog_plain [of cfg ctx'] by simp
  from r have "ConsoleError m e \<in> set ((ConsoleLog ''Starting build...'' # fst (loadPlugins ps) @
                    hookCalls ps ''buildStart'' buildStart @ e2 @ verboseLog cfg ctx') @ e4)"
    unfolding endFails(5) by simp
  from abort_trace [OF pre ev(1) this] ev(2) t loadPlugins_plain [of ps]
    hookCalls_plain [of ps "''buildStart''" buildStart] verboseLog_plain [of cfg ctx'] endFails(5,6)
  show ?thesis by simp
next
  case (written ctx e2 ctx' e7 o7)
  note fr = fresh_context_ok [OF written(1)]
  note ts = processEntries_step [OF fr(1) written(3)]
  from ts have t: "quiet e2" by (auto simp: traversalStep_def reportsOnly_quiet_iff)
  from closeBundle_loop_events [OF written(5)] have "quiet e7" by (simp add: quiet_def)
  with t have "quiet evs" unfolding written(6)
    using loadPlugins_plain [of ps] hookCalls_plain [of ps "''buildStart''" buildStart]
      hookCalls_plain [of ps "''buildEnd''" buildEnd] verboseLog_plain [of cfg ctx']
      writeOutputs_quiet [of h ctx'] completionLogs_quiet [of h cfg ctx'] by simp
  with r show ?thesis by (auto dest: quiet_no_report)
qed

lemma transform_loop_throws:
  assumes "transform_loop before c fp content cm = (tevs, Inr cm')"
    and "transform p = Some t"
    and "t \<lparr>bc_config = c, bc_filePath = fp, bc_content = content,
             bc_code = fst cm', bc_map = snd cm'\<rparr> = Inl e"
  shows "transform_loop (before @ p # after) c fp content cm =
     (tevs @ [TransformCall (name p) fp,
              ConsoleError (''Error in plugin '' @ name p @ '' transforming '' @ fp @ '':'') e],
      Inl e)"
  using assms(1)
proof (induction before arbitrary: cm tevs)
  case Nil
  then show ?case using assms(2,3) by simp
next
  case (Cons q qs)
  show ?case
  proof (cases "transform q")
    case None
    with Cons show ?thesis by simp
  next
    case (Some g)
    show ?thesis
    proof (cases "g \<lparr>bc_config = c, bc_filePath = fp, bc_content = content,
                     bc_code = fst cm, bc_map = snd cm\<rparr>")
      case (Inl e')
      with Some Cons.prems show ?thesis by simp
    next
      case (Inr res)
      with Some Cons.prems obtain evs' where
        rest: "transform_loop qs c fp content (applyTransformResult res cm) = (evs', Inr cm')"
        and tevs: "tevs = TransformCall (name q) fp # evs'"
        by (auto split: prod.splits)
      from Cons.IH [OF rest] Some Inr tevs show ?thesis by simp
    qed
  qed
qed

lemma transform_loop_fails:
  "transform_loop ps cfg fp content cm = (evs, Inl e) \<Longrightarrow>
   evs \<noteq> [] \<and> (\<exists>m. last evs = ConsoleError m e)"
proof (induction ps arbitrary: cm evs)
  case Nil
  then show ?case by simp
next
  case (Cons p ps)
  show ?case
  proof (cases "transform p")
    case None
    with Cons show ?thesis by simp
  next
    case (Some t)
    show ?thesis
    proof (cases "t \<lparr>bc_config = cfg, bc_filePath = fp, bc_content = content,
                   bc_code = fst cm, bc_map = snd cm\<rparr>")
      case (Inl e')
      with Some Cons.prems show ?thesis by auto
    next
      case (Inr r)
      with Some Cons.prems obtain evs' where
        rest: "transform_loop ps cfg fp content (applyTransformResult r cm) = (evs', Inl e)"
        and e: "evs = TransformCall (name p) fp # evs'"
        by (auto split: prod.splits)
      from Cons.IH [OF rest] e show ?thesis by auto
    qed
  qed
qed

lemma enterFile_throws:
  assumes "transformError h (config ctx) (plugins ctx) fp = Some e"
  shows "\<exists>tevs m. enterFile h ctx fp imp = (tevs, Inl e) \<and> tevs \<noteq> [] \<and>
           last tevs = ConsoleError m e"
proof -
  from assms obtain content tevs where
    rc: "readContent h fp = Inr content" and ne: "content \<noteq> []"
    and tl: "transform_loop (plugins ctx) (config ctx) fp content (content, None) = (tevs, Inl e)"
    by (auto simp: transformError_def split: sum.splits if_splits prod.splits)
  from rc ne tl have "enterFile h ctx fp imp = (tevs, Inl e)"
    by (simp add: enterFile_def Let_def)
  with transform_loop_fails [OF tl] show ?thesis by blast
qed

lemma abortsOn_Nil [simp]: "abortsOn h cfg ps [] out"
  by (simp add: abortsOn_def)

lemma abortsOn_Inr: "abortsOn h cfg ps evs (Inr a) \<Longrightarrow> abortsOn h cfg ps evs (Inr b)"
  by (simp add: abortsOn_def)

lemma abortsOn_Inl:
  "abortsOn h cfg ps evs (Inl e :: js_error + 'a) \<Longrightarrow> abortsOn h cfg ps evs (Inl e :: js_error + 'b)"
  by (simp add: abortsOn_def)

lemma abortsOn_append:
  assumes a: "abortsOn h cfg ps e1 (Inr c)" and b: "abortsOn h cfg ps e2 out"
  shows "abortsOn h cfg ps (e1 @ e2) out"
  unfolding abortsOn_def
proof (intro allI impI)
  fix fp e
  assume x: "transformCalls fp (e1 @ e2) \<noteq> [] \<and> transformError h cfg ps fp = Some e"
  have "transformCalls fp e1 = []"
  proof (rule ccontr)
    assume "transformCalls fp e1 \<noteq> []"
    with a x have "(Inr c :: js_error + 'a) = Inl e" unfolding abortsOn_def by blast
    then show False by simp
  qed
  with x have "transformCalls fp e2 \<noteq> []" by simp
  with b x have r: "out = Inl e" "e2 \<noteq> []" "\<exists>m. last e2 = ConsoleError m e"
    unfolding abortsOn_def by blast+
  then show "out = Inl e \<and> e1 @ e2 \<noteq> [] \<and> (\<exists>m. last (e1 @ e2) = ConsoleError m e)"
    by simp
qed

lemma enterFile_abortsOn:
  assumes new: "fp \<notin> set (processed ctx)" and okp: "outputKeysProcessed ctx"
    and run: "enterFile h ctx fp imp = (evs, out)"
  shows "abortsOn h (config ctx) (plugins ctx) evs out"
  unfolding abortsOn_def
proof (intro allI impI)
  fix f e
  assume x: "transformCalls f evs \<noteq> [] \<and> transformError h (config ctx) (plugins ctx) f = Some e"
  note s = enterFile_step [OF new okp run]
  have s1: "\<And>g. g \<noteq> fp \<Longrightarrow> transformCalls g evs = []"
    using s [THEN conjunct2, THEN conjunct2, THEN conjunct1] by blast
  from x s1 [of f] have "f = fp" by (cases "f = fp") simp_all
  with x have "transformError h (config ctx) (plugins ctx) fp = Some e" by simp
  from enterFile_throws [OF this, of imp] run
  show "out = Inl e \<and> evs \<noteq> [] \<and> (\<exists>m. last evs = ConsoleError m e)" by auto
qed

lemma processFile_deps_aborts:
  assumes fileStep: "\<And>ctx fp imp evs out. outputKeysProcessed ctx \<Longrightarrow>
      processFile n h ctx fp imp = Some (evs, out) \<Longrightarrow>
      abortsOn h (config ctx) (plugins ctx) evs out"
  shows "outputKeysProcessed ctx \<Longrightarrow> processFile_deps n h ctx fp deps = Some (evs, out) \<Longrightarrow>
         abortsOn h (config ctx) (plugins ctx) evs out"
proof (induction deps arbitrary: ctx evs out)
  case Nil
  then show ?case by auto
next
  case (Cons dep rest)
  show ?case
  proof (cases "truthy (resolved dep) \<and> \<not> isExternal dep")
    case False
    with Cons show ?thesis by auto
  next
    case True
    with Cons.prems obtain e1 o1 where first:
      "processFile n h ctx (the (resolved dep)) (Some fp) = Some (e1, o1)"
      by (auto split: option.splits)
    note a1 = fileStep [OF Cons.prems(1) first]
    note s1 = processFile_step [OF Cons.prems(1) first]
    show ?thesis
    proof (cases o1)
      case (Inl e)
      with True first Cons.prems have "evs = e1" "out = Inl e" by auto
      with a1 Inl show ?thesis by simp
    next
      case (Inr c1)
      with True first Cons.prems obtain e2 where rest:
        "processFile_deps n h c1 fp rest = Some (e2, out)" and evs: "evs = e1 @ e2"
        by (auto split: option.splits)
      from s1 Inr have okp1: "outputKeysProcessed c1" and same: "plugins c1 = plugins ctx"
        "config c1 = config ctx" by (auto simp: traversalStep_def)
      from Cons.IH [OF okp1 rest] same
      have "abortsOn h (config ctx) (plugins ctx) e2 out" by simp
      moreover from a1 Inr have "abortsOn h (config ctx) (plugins ctx) e1 (Inr c1)" by simp
      ultimately show ?thesis unfolding evs by (rule abortsOn_append [rotated])
    qed
  qed
qed

lemma processFile_aborts:
  "outputKeysProcessed ctx \<Longrightarrow> processFile n h ctx fp imp = Some (evs, out) \<Longrightarrow>
   abortsOn h (config ctx) (plugins ctx) evs out"
proof (induction n arbitrary: ctx fp imp evs out)
  case 0
  then show ?case by simp
next
  case (Suc n)
  show ?case
  proof (cases "fp \<in> set (processed ctx)")
    case True
    with Suc.prems have "evs = []" by auto
    then show ?thesis by simp
  next
    case False
    obtain e1 o1 where ent: "enterFile h ctx fp imp = (e1, o1)"
      by (cases "enterFile h ctx fp imp")
    note a1 = enterFile_abortsOn [OF False Suc.prems(1) ent]
    from Suc.prems(2) have pf:
      "(case (e1, o1) of
          (evs, Inl error) \<Rightarrow> Some (evs, Inl error)
        | (evs, Inr (c, None)) \<Rightarrow> Some (evs, Inr c)
        | (evs, Inr (c, Some deps)) \<Rightarrow>
            (case processFile_deps n h c fp deps of
               None \<Rightarrow> None
             | Some (evs'', out) \<Rightarrow> Some (evs @ evs'', out))) = Some (evs, out)"
      unfolding processFile_unprocessed [OF False] ent .
    show ?thesis
    proof (cases o1)
      case (Inl e)
      with pf have "evs = e1" "out = Inl e" by auto
      with a1 Inl show ?thesis by (auto intro: abortsOn_Inl)
    next
      case (Inr cd)
      obtain c d where cd: "cd = (c, d)" by (cases cd)
      from a1 Inr have a1': "abortsOn h (config ctx) (plugins ctx) e1 (Inr c)"
        by (auto intro: abortsOn_Inr)
      from enterFile_traversalStep [OF False Suc.prems(1)] ent Inr cd
      have s1: "traversalStep ctx e1 (Inr c)" by simp
      show ?thesis
      proof (cases d)
        case None
        with Inr cd pf have "evs = e1" "out = Inr c" by auto
        with a1' show ?thesis by simp
      next
        case (Some deps)
        with Inr cd pf obtain e2 where
          rest: "processFile_deps n h c fp deps = Some (e2, out)" and evs: "evs = e1 @ e2"
          by (auto split: option.splits)
        from s1 have okp1: "outputKeysProcessed c" and same: "plugins c = plugins ctx"
          "config c = config ctx" by (auto simp: traversalStep_def)
        have "abortsOn h (config c) (plugins c) e2 out"
          by (rule processFile_deps_aborts [OF _ okp1 rest]) (rule Suc.IH)
        with same have "abortsOn h (config ctx) (plugins ctx) e2 out" by simp
        with a1' show ?thesis unfolding evs by (rule abortsOn_append)
      qed
    qed
  qed
qed

lemma processEntries_aborts:
  "outputKeysProcessed ctx \<Longrightarrow> processEntries n h ctx es = Some (evs, out) \<Longrightarrow>
   abortsOn h (config ctx) (plugins ctx) evs out"
proof (induction es arbitrary: ctx evs out)
  case Nil
  then show ?case by auto
next
  case (Cons e rest)
  from Cons.prems obtain e1 o1 where first: "processFile n h ctx e None = Some (e1, o1)"
    by (auto split: option.splits)
  note a1 = processFile_aborts [OF Cons.prems(1) first]
  note s1 = processFile_step [OF Cons.prems(1) first]
  show ?case
  proof (cases o1)
    case (Inl err)
    with first Cons.prems have "evs = e1" "out = Inl err" by auto
    with a1 Inl show ?thesis by simp
  next
    case (Inr c1)
    with first Cons.prems obtain e2 where rest:
      "processEntries n h c1 rest = Some (e2, out)" and evs: "evs = e1 @ e2"
      by (auto split: option.splits)
    from s1 Inr have okp1: "outputKeysProcessed c1" and same: "plugins c1 = plugins ctx"
      "config c1 = config ctx" by (auto simp: traversalStep_def)
    from Cons.IH [OF okp1 rest] same
    have "abortsOn h (config ctx) (plugins ctx) e2 out" by simp
    moreover from a1 Inr have "abortsOn h (config ctx) (plugins ctx) e1 (Inr c1)" by simp
    ultimately show ?thesis unfolding evs by (rule abortsOn_append [rotated])
  qed
qed


lemma hookCalls_no_transform: "transformCalls f (hookCalls ps hookName hook) = []"
  by (induction ps) (simp_all add: hookCalls_Nil hookCalls_Cons transformCalls_Cons)

lemma loadPlugins_no_transform: "transformCalls f (fst (loadPlugins ps)) = []"
  by (induction ps) (simp_all add: loadPlugins_def transformCalls_Cons)

lemma writeOutput_no_transform: "transformCalls f (writeOutput h cfg d out) = []"
  by (cases out) (simp add: writeOutput_def writeFile_def Let_def transformCalls_Cons)

lemma writeOutputs_no_transform: "transformCalls f (writeOutputs h ctx) = []"
proof -
  have "\<And>outs d. transformCalls f (concat (map (writeOutput h (config ctx) d) outs)) = []"
  proof -
    fix outs d show "transformCalls f (concat (map (writeOutput h (config ctx) d) outs)) = []"
      by (induction outs) (simp_all add: writeOutput_no_transform)
  qed
  then show ?thesis by (simp add: writeOutputs_def Let_def transformCalls_Cons)
qed

lemma build_transform_failure:
  assumes b: "build n h cfg ps = Some (evs, out)"
    and calls: "transformCalls fp evs \<noteq> []"
    and err: "transformError h cfg ps fp = Some e"
  shows "out = Inl e \<and> (\<exists>m. last evs = ConsoleError m e) \<and> noWrites evs"
proof -
  have "\<exists>m. ConsoleError m e \<in> set evs"
    using b
  proof (cases rule: build_cases)
    case (noContext e')
    from calls show ?thesis unfolding noContext(2)
      by (simp add: transformCalls_Cons loadPlugins_no_transform)
  next
    case (startFails ctx e1 e')
    from startFails(2) have "transformCalls fp e1 = []"
      by (auto simp: applyPluginHook_def dest: applyPluginHook_loop_events)
    with calls show ?thesis unfolding startFails(3)
      by (simp add: transformCalls_Cons loadPlugins_no_transform)
  next
    case (traversalFails ctx e2 e')
    note fr = fresh_context_ok [OF traversalFails(1)]
    from processEntries_aborts [OF fr(1) traversalFails(3)] fr(3,4)
    have a: "abortsOn h cfg ps e2 (Inl e' :: js_error + BuilderContext)" by simp
    from calls have "transformCalls fp e2 \<noteq> []" unfolding traversalFails(4)
      by (simp add: transformCalls_Cons loadPlugins_no_transform hookCalls_no_transform)
    with a err obtain m where "e2 \<noteq> []" "last e2 = ConsoleError m e"
      unfolding abortsOn_def by blast
    then have "ConsoleError m e \<in> set e2" by (metis last_in_set)
    then show ?thesis unfolding traversalFails(4) by auto
  next
    case (endFails ctx e2 ctx' e4 e')
    note fr = fresh_context_ok [OF endFails(1)]
    from processEntries_aborts [OF fr(1) endFails(3)] fr(3,4)
    have a: "abortsOn h cfg ps e2 (Inr ctx')" by simp
    from endFails(4) have "transformCalls fp e4 = []"
      by (auto simp: applyPluginHook_def dest: applyPluginHook_loop_events)
    with calls have "transformCalls fp e2 \<noteq> []" unfolding endFails(5)
      by (simp add: transformCalls_Cons loadPlugins_no_transform hookCalls_no_transform
            verboseLog_def)
    with a err have "(Inr ctx' :: js_error + BuilderContext) = Inl e"
      unfolding abortsOn_def by blast
    then show ?thesis by simp
  next
    case (written ctx e2 ctx' e7 o7)
    note fr = fresh_context_ok [OF written(1)]
    from processEntries_aborts [OF fr(1) written(3)] fr(3,4)
    have a: "abortsOn h cfg ps e2 (Inr ctx')" by simp
    from closeBundle_loop_events [OF written(5)] have c7: "transformCalls fp e7 = []" by simp
    with calls have "transformCalls fp e2 \<noteq> []" unfolding written(6)
      by (simp add: transformCalls_Cons loadPlugins_no_transform hookCalls_no_transform
            verboseLog_def writeOutputs_no_transform completionLogs_def)
    with a err have "(Inr ctx' :: js_error + BuilderContext) = Inl e"
      unfolding abortsOn_def by blast
    then show ?thesis by simp
  qed
  then obtain m where "ConsoleError m e \<in> set evs" ..
  from build_report_aborts [OF b this] show ?thesis by blast
qed


lemma processFile_transform_throws:
  assumes "fp \<notin> set (processed ctx)" and "readContent h fp = Inr content" and "content \<noteq> []"
    and "transform_loop (plugins ctx) (config ctx) fp content (content, None) = (tevs, Inl e)"
  shows "processFile (Suc n) h ctx fp imp = Some (tevs, Inl e)"
  using assms by (simp add: Let_def)

lemma build_entry_transform_throws:
  assumes ep: "resolveEntryPoints h cfg = Inr (ep # eps)"
    and st: "\<forall>p\<in>set ps. \<not> hookThrows p buildStart cfg"
    and rc: "readContent h ep = Inr content" and ne: "content \<noteq> []"
    and tl: "transform_loop ps cfg ep content (content, None) = (tevs, Inl e)"
  shows "build (Suc n) h cfg ps =
     Some (ConsoleLog ''Starting build...'' # fst (loadPlugins ps) @
             hookCalls ps ''buildStart'' buildStart @ tevs,
           Inl e)"
proof -
  define ctx where "ctx = \<lparr>config = cfg, plugins = ps, entryPoints = ep # eps, outputs = [],
                          processed = [], dependencies = [], moduleGraph = []\<rparr>"
  from ep have c: "createBuilderContext h cfg ps = (fst (loadPlugins ps), Inr ctx)"
    by (simp add: createBuilderContext_def loadPlugins_def ctx_def)
  have f: "plugins ctx = ps" "config ctx = cfg" "entryPoints ctx = ep # eps"
    "ep \<notin> set (processed ctx)" by (simp_all add: ctx_def)
  from applyPluginHook_loop_returns [OF st, of "''buildStart''" None]
  obtain r1 where s: "applyPluginHook ps ''buildStart'' buildStart cfg =
                        (hookCalls ps ''buildStart'' buildStart, Inr r1)"
    by (simp add: applyPluginHook_def)
  from tl f have tl': "transform_loop (plugins ctx) (config ctx) ep content (content, None) =
                         (tevs, Inl e)" by simp
  from processFile_transform_throws [OF f(4) rc ne tl', of n None]
  have "processEntries (Suc n) h ctx (entryPoints ctx) = Some (tevs, Inl e)"
    unfolding f(3) by (simp del: processFile.simps)
  with c s f(1) show ?thesis by (simp add: build_def)
qed

lemma processFile_deps_append:
  "processFile_deps n h ctx fp (xs @ ys) =
     (case processFile_deps n h ctx fp xs of
        None \<Rightarrow> None
      | Some (e1, Inl e) \<Rightarrow> Some (e1, Inl e)
      | Some (e1, Inr c1) \<Rightarrow>
          (case processFile_deps n h c1 fp ys of
             None \<Rightarrow> None
           | Some (e2, out) \<Rightarrow> Some (e1 @ e2, out)))"
proof (induction xs arbitrary: ctx)
  case Nil
  then show ?case by (simp split: option.splits)
next
  case (Cons d ds)
  show ?case
  proof (cases "truthy (resolved d) \<and> \<not> isExternal d")
    case False
    then have "processFile_deps n h ctx fp ((d # ds) @ ys) = processFile_deps n h ctx fp (ds @ ys)"
      and "processFile_deps n h ctx fp (d # ds) = processFile_deps n h ctx fp ds" by auto
    with Cons.IH [of ctx] show ?thesis by simp
  next
    case True
    show ?thesis
    proof (cases "processFile n h ctx (the (resolved d)) (Some fp)")
      case None
      with True show ?thesis by simp
    next
      case (Some r)
      obtain e0 o0 where r: "r = (e0, o0)" by (cases r)
      show ?thesis
      proof (cases o0)
        case (Inl e)
        with True Some r show ?thesis by simp
      next
        case (Inr c0)
        with True Some r Cons.IH [of c0] show ?thesis
          by (simp split: option.splits sum.splits prod.splits)
      qed
    qed
  qed
qed

lemma processFile_deps_fails:
  assumes "processFile_deps n h ctx fp before = Some (e1, Inr c1)"
    and "resolved dep = Some d" and "d \<noteq> []" and "\<not> isExternal dep"
    and "processFile n h c1 d (Some fp) = Some (e2, Inl e)"
  shows "processFile_deps n h ctx fp (before @ dep # after) = Some (e1 @ e2, Inl e)"
  using assms by (simp add: processFile_deps_append truthy_def)

lemma processFile_nested_fails:
  assumes "fp \<notin> set (processed ctx)"
    and "enterFile h ctx fp imp = (e1, Inr (c1, Some deps))"
    and "processFile_deps n h c1 fp deps = Some (e2, Inl e)"
  shows "processFile (Suc n) h ctx fp imp = Some (e1 @ e2, Inl e)"
  using assms(2,3) unfolding processFile_unprocessed [OF assms(1)] by simp

lemma processEntries_append:
  "processEntries n h ctx (xs @ ys) =
     (case processEntries n h ctx xs of
        None \<Rightarrow> None
      | Some (e1, Inl e) \<Rightarrow> Some (e1, Inl e)
      | Some (e1, Inr c1) \<Rightarrow>
          (case processEntries n h c1 ys of
             None \<Rightarrow> None
           | Some (e2, out) \<Rightarrow> Some (e1 @ e2, out)))"
proof (induction xs arbitrary: ctx)
  case Nil
  then show ?case by (simp split: option.splits)
next
  case (Cons x xs)
  show ?case
  proof (cases "processFile n h ctx x None")
    case None
    then show ?thesis by simp
  next
    case (Some r)
    obtain e0 o0 where r: "r = (e0, o0)" by (cases r)
    show ?thesis
    proof (cases o0)
      case (Inl e)
      with Some r show ?thesis by simp
    next
      case (Inr c0)
      with Some r Cons.IH [of c0] show ?thesis
        by (simp split: option.splits sum.splits prod.splits)
    qed
  qed
qed

lemma processEntries_fails:
  assumes "processEntries n h ctx before = Some (e1, Inr c1)"
    and "processFile n h c1 ep None = Some (e2, Inl e)"
  shows "processEntries n h ctx (before @ ep # after) = Some (e1 @ e2, Inl e)"
  using assms by (simp add: processEntries_append)

lemma build_traversal_fails:
  assumes c: "createBuilderContext h cfg ps = (e0, Inr ctx)"
    and st: "\<forall>q\<in>set ps. \<not> hookThrows q buildStart cfg"
    and tr: "processEntries n h ctx (entryPoints ctx) = Some (e2, Inl e)"
  shows "build n h cfg ps =
     Some (ConsoleLog ''Starting build...'' # e0 @ hookCalls ps ''buildStart'' buildStart @ e2,
           Inl e)"
proof -
  from applyPluginHook_loop_returns [OF st, of "''buildStart''" None]
  obtain r1 where s: "applyPluginHook ps ''buildStart'' buildStart cfg =
                        (hookCalls ps ''buildStart'' buildStart, Inr r1)"
    by (simp add: applyPluginHook_def)
  from fresh_context_ok(3) [OF c] c s tr show ?thesis by (simp add: build_def)
qed

lemmas build_eval_defs =
  build_def createBuilderContext_def loadPlugins_def resolveEntryPoints_def applyPluginHook_def
  writeOutputs_def writeOutput_def writeFile_def finalPathOf_def completionLogs_def
  example_host_defs Let_def readContent_def fileExists_def
  existsSync_def readFile_def set_add_def applyTransformResult_def processDependencies_def
  extractImports_def resolveModuleSpecifier_def isUrl_def isBare_def truthy_def
  resolveWithExtensions_def defaultExtensions_def recordImporter_def addDependency_def
  observerPlugin_def throwingPlugin_def returningPlugin_def pickyPlugin_def emptyUtilHost_def
  exampleContext_def
  writtenPaths_def eval_nat_numeral

text \<open>
  Claim C6, as amended. A hook that throws ends the pipeline call at once: the plugins after
  it are not called, the hook is called once, the thrown value reaches the caller as it is,
  and the error console receives a report that names the plugin and the hook. The loop of
  \<open>processFile\<close> over the \<open>transform\<close> hooks does the same, its report naming the plugin
  and the file. During a build the failure goes up to the caller of \<open>build\<close>:
  \<open>processFile\<close> on a file not yet processed whose \<open>transform\<close> loop throws returns the
  events of the loop and the thrown value; a failure of the loop over the dependencies is
  the failure of \<open>processFile\<close>; a failure of \<open>processFile\<close> for a dependency ends the loop
  over the dependencies, and for an entry point the loop over the entry points, the
  dependencies and entry points after it not being visited; and a failure of the traversal
  is the failure of \<open>build\<close>, with no event after it. So a build whose first entry point has
  a throwing \<open>transform\<close> ends with the events of that loop; a build whose trace has a
  \<open>transform\<close> call for a file whose loop throws has failed with the thrown value, its last
  event the report, and has written nothing; and so has every build whose trace holds a
  report.
\<close>

theorem hook_failure_aborts:
  "(hook p = Some f \<and> f context = Inl e \<and> (\<forall>q\<in>set before. \<not> hookThrows q hook context) \<longrightarrow>
      applyPluginHook (before @ p # after) hookName hook context =
        (hookCalls before hookName hook @
           [HookCall (name p) hookName,
            ConsoleError (''Error in plugin '' @ name p @ '' at hook '' @ hookName @ '':'') e],
         Inl e)) \<and>
   (transform_loop before c fp content cm = (tevs, Inr cm') \<and> transform p = Some t \<and>
    t \<lparr>bc_config = c, bc_filePath = fp, bc_content = content,
       bc_code = fst cm', bc_map = snd cm'\<rparr> = Inl e \<longrightarrow>
      transform_loop (before @ p # after) c fp content cm =
        (tevs @ [TransformCall (name p) fp,
                 ConsoleError (''Error in plugin '' @ name p @ '' transforming '' @ fp @ '':'') e],
         Inl e)) \<and>
   (fp \<notin> set (processed ctx) \<and> readContent h fp = Inr content \<and> content \<noteq> [] \<and>
    transform_loop (plugins ctx) (config ctx) fp content (content, None) = (tevs, Inl e) \<longrightarrow>
      processFile (Suc n) h ctx fp imp = Some (tevs, Inl e)) \<and>
   (fp \<notin> set (processed ctx) \<and> enterFile h ctx fp imp = (e1, Inr (c1, Some deps)) \<and>
    processFile_deps n h c1 fp deps = Some (e2, Inl e) \<longrightarrow>
      processFile (Suc n) h ctx fp imp = Some (e1 @ e2, Inl e)) \<and>
   (processFile_deps n h ctx fp ds = Some (e1, Inr c1) \<and>
    resolved dep = Some d \<and> d \<noteq> [] \<and> \<not> isExternal dep \<and>
    processFile n h c1 d (Some fp) = Some (e2, Inl e) \<longrightarrow>
      processFile_deps n h ctx fp (ds @ dep # rest) = Some (e1 @ e2, Inl e)) \<and>
   (processEntries n h ctx es = Some (e1, Inr c1) \<and>
    processFile n h c1 fp None = Some (e2, Inl e) \<longrightarrow>
      processEntries n h ctx (es @ fp # eps) = Some (e1 @ e2, Inl e)) \<and>
   (createBuilderContext h cfg ps = (e0, Inr ctx) \<and>
    (\<forall>q\<in>set ps. \<not> hookThrows q buildStart cfg) \<and>
    processEntries n h ctx (entryPoints ctx) = Some (e2, Inl e) \<longrightarrow>
      build n h cfg ps =
        Some (ConsoleLog ''Starting build...'' # e0 @ hookCalls ps ''buildStart'' buildStart @ e2,
              Inl e)) \<and>
   (resolveEntryPoints h cfg = Inr (fp # eps) \<and> (\<forall>q\<in>set ps. \<not> hookThrows q buildStart cfg) \<and>
    readContent h fp = Inr content \<and> content \<noteq> [] \<and>
    transform_loop ps cfg fp content (content, None) = (tevs, Inl e) \<longrightarrow>
      build (Suc n) h cfg ps =
        Some (ConsoleLog ''Starting build...'' # fst (loadPlugins ps) @
                hookCalls ps ''buildStart'' buildStart @ tevs,
              Inl e)) \<and>
   (build n h cfg ps = Some (evs, out) \<and> transformCalls fp evs \<noteq> [] \<and>
    transformError h cfg ps fp = Some e \<longrightarrow>
      out = Inl e \<and> (\<exists>m. last evs = ConsoleError m e) \<and> noWrites evs) \<and>
   (build n h cfg ps = Some (evs, out) \<and> ConsoleError m e \<in> set evs \<longrightarrow>
      out = Inl e \<and> last evs = ConsoleError m e \<and> noWrites evs)"
proof -
  have c1: "hook p = Some f \<and> f context = Inl e \<and>
      (\<forall>q\<in>set before. \<not> hookThrows q hook context) \<longrightarrow>
      applyPluginHook (before @ p # after) hookName hook context =
        (hookCalls before hookName hook @
           [HookCall (name p) hookName,
            ConsoleError (''Error in plugin '' @ name p @ '' at hook '' @ hookName @ '':'') e],
         Inl e)"
    using applyPluginHook_loop_throws [of hook p f "context" e before after hookName None]
    unfolding applyPluginHook_def by blast
  have c2: "transform_loop before c fp content cm = (tevs, Inr cm') \<and> transform p = Some t \<and>
    t \<lparr>bc_config = c, bc_filePath = fp, bc_content = content,
       bc_code = fst cm', bc_map = snd cm'\<rparr> = Inl e \<longrightarrow>
      transform_loop (before @ p # after) c fp content cm =
        (tevs @ [TransformCall (name p) fp,
                 ConsoleError (''Error in plugin '' @ name p @ '' transforming '' @ fp @ '':'') e],
         Inl e)"
    using transform_loop_throws [of before c fp content cm tevs cm' p t e after] by blast
  have c3: "fp \<notin> set (processed ctx) \<and> readContent h fp = Inr content \<and> content \<noteq> [] \<and>
    transform_loop (plugins ctx) (config ctx) fp content (content, None) = (tevs, Inl e) \<longrightarrow>
      processFile (Suc n) h ctx fp imp = Some (tevs, Inl e)"
    using processFile_transform_throws [of fp ctx h content tevs e n imp] by blast
  have c4: "fp \<notin> set (processed ctx) \<and> enterFile h ctx fp imp = (e1, Inr (c1, Some deps)) \<and>
    processFile_deps n h c1 fp deps = Some (e2, Inl e) \<longrightarrow>
      processFile (Suc n) h ctx fp imp = Some (e1 @ e2, Inl e)"
    using processFile_nested_fails [of fp ctx h imp e1 c1 deps n e2 e] by blast
  have c5: "processFile_deps n h ctx fp ds = Some (e1, Inr c1) \<and>
    resolved dep = Some d \<and> d \<noteq> [] \<and> \<not> isExternal dep \<and>
    processFile n h c1 d (Some fp) = Some (e2, Inl e) \<longrightarrow>
      processFile_deps n h ctx fp (ds @ dep # rest) = Some (e1 @ e2, Inl e)"
    using processFile_deps_fails [of n h ctx fp ds e1 c1 dep d e2 e rest] by blast
  have c6: "processEntries n h ctx es = Some (e1, Inr c1) \<and>
    processFile n h c1 fp None = Some (e2, Inl e) \<longrightarrow>
      processEntries n h ctx (es @ fp # eps) = Some (e1 @ e2, Inl e)"
    using processEntries_fails [of n h ctx es e1 c1 fp e2 e eps] by blast
  have c7: "createBuilderContext h cfg ps = (e0, Inr ctx) \<and>
    (\<forall>q\<in>set ps. \<not> hookThrows q buildStart cfg) \<and>
    processEntries n h ctx (entryPoints ctx) = Some (e2, Inl e) \<longrightarrow>
      build n h cfg ps =
        Some (ConsoleLog ''Starting build...'' # e0 @ hookCalls ps ''buildStart'' buildStart @ e2,
              Inl e)"
    using build_traversal_fails [of h cfg ps e0 ctx n e2 e] by blast
  have c8: "resolveEntryPoints h cfg = Inr (fp # eps) \<and>
    (\<forall>q\<in>set ps. \<not> hookThrows q buildStart cfg) \<and>
    readContent h fp = Inr content \<and> content \<noteq> [] \<and>
    transform_loop ps cfg fp content (content, None) = (tevs, Inl e) \<longrightarrow>
      build (Suc n) h cfg ps =
        Some (ConsoleLog ''Starting build...'' # fst (loadPlugins ps) @
                hookCalls ps ''buildStart'' buildStart @ tevs,
              Inl e)"
    using build_entry_transform_throws [of h cfg fp eps ps content tevs e n] by blast
  have c9: "build n h cfg ps = Some (evs, out) \<and> transformCalls fp evs \<noteq> [] \<and>
    transformError h cfg ps fp = Some e \<longrightarrow>
      out = Inl e \<and> (\<exists>m. last evs = ConsoleError m e) \<and> noWrites evs"
    using build_transform_failure [of n h cfg ps evs out fp e] by blast
  have c10: "build n h cfg ps = Some (evs, out) \<and> ConsoleError m e \<in> set evs \<longrightarrow>
      out = Inl e \<and> last evs = ConsoleError m e \<and> noWrites evs"
    using build_report_aborts [of n h cfg ps evs out m e] by blast
  show ?thesis by (intro conjI c1 c2 c3 c4 c5 c6 c7 c8 c9 c10)
qed

theorem hook_failure_aborts_witness:
  "applyPluginHook
     [returningPlugin ''P1'' (Some (ResultString ''one'')), throwingPlugin ''bad'' ''boom'',
      markPlugin ''M'']
     ''transform'' transform exampleBuildContext =
   ([HookCall ''P1'' ''transform'', HookCall ''bad'' ''transform'',
     ConsoleError ''Error in plugin bad at hook transform:'' (JsError ''boom'')],
    Inl (JsError ''boom'')) \<and>
   transform_loop
     [returningPlugin ''P1'' (Some (ResultString ''one'')), throwingPlugin ''bad'' ''boom'',
      markPlugin ''M'']
     exampleConfig ''/proj/src/index.ts'' ''let x'' (''let x'', None) =
   ([TransformCall ''P1'' ''/proj/src/index.ts'', TransformCall ''bad'' ''/proj/src/index.ts'',
     ConsoleError ''Error in plugin bad transforming /proj/src/index.ts:'' (JsError ''boom'')],
    Inl (JsError ''boom'')) \<and>
   build 5 exampleHost exampleConfig
     [observerPlugin, throwingPlugin ''bad'' ''boom'', markPlugin ''M''] =
   Some ([ConsoleLog ''Starting build...'', HookCall ''observer'' ''buildStart'',
          TransformCall ''bad'' ''/proj/src/index.ts'',
          ConsoleError ''Error in plugin bad transforming /proj/src/index.ts:'' (JsError ''boom'')],
         Inl (JsError ''boom'')) \<and>
   build 5 exampleHost exampleConfig [pickyPlugin ''picky'' ''/proj/src/util.ts'' ''boom''] =
   Some ([ConsoleLog ''Starting build...'',
          TransformCall ''picky'' ''/proj/src/index.ts'',
          TransformCall ''picky'' ''/proj/src/util.ts'',
          ConsoleError ''Error in plugin picky transforming /proj/src/util.ts:'' (JsError ''boom'')],
         Inl (JsError ''boom'')) \<and>
   transformError exampleHost exampleConfig [pickyPlugin ''picky'' ''/proj/src/util.ts'' ''boom'']
     ''/proj/src/util.ts'' = Some (JsError ''boom'') \<and>
   noWrites [ConsoleLog ''Starting build...'',
          TransformCall ''picky'' ''/proj/src/index.ts'',
          TransformCall ''picky'' ''/proj/src/util.ts'',
          ConsoleError ''Error in plugin picky transforming /proj/src/util.ts:'' (JsError ''boom'')]"
proof (intro conjI)
  have 1: "transform (throwingPlugin ''bad'' ''boom'') = Some (\<lambda>ctx. Inl (JsError ''boom''))"
    by (simp add: throwingPlugin_def plainPlugin_def)
  have 2: "\<forall>q\<in>set [returningPlugin ''P1'' (Some (ResultString ''one''))].
             \<not> hookThrows q transform exampleBuildContext"
    by (simp add: example_plugin_defs)
  from hook_failure_aborts [of transform "throwingPlugin ''bad'' ''boom''"
      "\<lambda>ctx. Inl (JsError ''boom'')" exampleBuildContext "JsError ''boom''"
      "[returningPlugin ''P1'' (Some (ResultString ''one''))]" "[markPlugin ''M'']"
      "''transform''", THEN conjunct1] 1 2
  have "applyPluginHook
     ([returningPlugin ''P1'' (Some (ResultString ''one''))] @ throwingPlugin ''bad'' ''boom'' #
      [markPlugin ''M''])
     ''transform'' transform exampleBuildContext =
     (hookCalls [returningPlugin ''P1'' (Some (ResultString ''one''))] ''transform'' transform @
           [HookCall (name (throwingPlugin ''bad'' ''boom'')) ''transform'',
            ConsoleError (''Error in plugin '' @ name (throwingPlugin ''bad'' ''boom'') @
                          '' at hook '' @ ''transform'' @ '':'') (JsError ''boom'')],
         Inl (JsError ''boom''))"
    by blast
  then show "applyPluginHook
     [returningPlugin ''P1'' (Some (ResultString ''one'')), throwingPlugin ''bad'' ''boom'',
      markPlugin ''M'']
     ''transform'' transform exampleBuildContext =
   ([HookCall ''P1'' ''transform'', HookCall ''bad'' ''transform'',
     ConsoleError ''Error in plugin bad at hook transform:'' (JsError ''boom'')],
    Inl (JsError ''boom''))" by (simp add: example_plugin_defs)
next
  have 1: "transform (throwingPlugin ''bad'' ''boom'') = Some (\<lambda>ctx. Inl (JsError ''boom''))"
    by (simp add: throwingPlugin_def plainPlugin_def)
  have 2: "transform_loop [returningPlugin ''P1'' (Some (ResultString ''one''))]
             exampleConfig ''/proj/src/index.ts'' ''let x'' (''let x'', None) =
           ([TransformCall ''P1'' ''/proj/src/index.ts''], Inr (''one'', None))"
    by (simp add: returningPlugin_def plainPlugin_def applyTransformResult_def)
  from hook_failure_aborts
         [where before = "[returningPlugin ''P1'' (Some (ResultString ''one''))]"
            and c = exampleConfig and fp = "''/proj/src/index.ts''" and content = "''let x''"
            and cm = "(''let x'', None)" and tevs = "[TransformCall ''P1'' ''/proj/src/index.ts'']"
            and cm' = "(''one'', None)" and p = "throwingPlugin ''bad'' ''boom''"
            and t = "\<lambda>ctx. Inl (JsError ''boom'')" and e = "JsError ''boom''"
            and after = "[markPlugin ''M'']",
          THEN conjunct2, THEN conjunct1] 1 2
  have "transform_loop
          ([returningPlugin ''P1'' (Some (ResultString ''one''))] @
           throwingPlugin ''bad'' ''boom'' # [markPlugin ''M''])
          exampleConfig ''/proj/src/index.ts'' ''let x'' (''let x'', None) =
        ([TransformCall ''P1'' ''/proj/src/index.ts''] @
         [TransformCall (name (throwingPlugin ''bad'' ''boom'')) ''/proj/src/index.ts'',
          ConsoleError (''Error in plugin '' @ name (throwingPlugin ''bad'' ''boom'') @
                        '' transforming '' @ ''/proj/src/index.ts'' @ '':'') (JsError ''boom'')],
         Inl (JsError ''boom''))" by simp
  then show "transform_loop
     [returningPlugin ''P1'' (Some (ResultString ''one'')), throwingPlugin ''bad'' ''boom'',
      markPlugin ''M'']
     exampleConfig ''/proj/src/index.ts'' ''let x'' (''let x'', None) =
   ([TransformCall ''P1'' ''/proj/src/index.ts'', TransformCall ''bad'' ''/proj/src/index.ts'',
     ConsoleError ''Error in plugin bad transforming /proj/src/index.ts:'' (JsError ''boom'')],
    Inl (JsError ''boom''))"
    by (simp add: throwingPlugin_def plainPlugin_def)
next
  let ?ps = "[observerPlugin, throwingPlugin ''bad'' ''boom'', markPlugin ''M'']"
  let ?tevs = "[TransformCall ''bad'' ''/proj/src/index.ts'',
          ConsoleError ''Error in plugin bad transforming /proj/src/index.ts:'' (JsError ''boom'')]"
  have a: "resolveEntryPoints exampleHost exampleConfig = Inr (''/proj/src/index.ts'' # [])"
    by (simp add: resolveEntryPoints_def example_host_defs)
  have b: "\<forall>q\<in>set ?ps. \<not> hookThrows q buildStart exampleConfig"
    by (simp add: hookThrows_def observerPlugin_def throwingPlugin_def example_host_defs)
  have c: "readContent exampleHost ''/proj/src/index.ts'' = Inr indexSource"
    by (simp add: readContent_def fileExists_def existsSync_def readFile_def exampleHost_def)
  have d: "indexSource \<noteq> []" by (simp add: indexSource_def)
  have e: "transform_loop ?ps exampleConfig ''/proj/src/index.ts'' indexSource (indexSource, None) =
             (?tevs, Inl (JsError ''boom''))"
    by (simp add: observerPlugin_def throwingPlugin_def plainPlugin_def)
  from hook_failure_aborts
         [where h = exampleHost and cfg = exampleConfig and fp = "''/proj/src/index.ts''"
            and eps = "[]" and ps = ?ps and content = indexSource and tevs = ?tevs
            and e = "JsError ''boom''" and n = 4,
          THEN conjunct2, THEN conjunct2, THEN conjunct2, THEN conjunct2, THEN conjunct2,
          THEN conjunct2, THEN conjunct2, THEN conjunct1] a b c d e
  have "build (Suc 4) exampleHost exampleConfig ?ps =
        Some (ConsoleLog ''Starting build...'' # fst (loadPlugins ?ps) @
                hookCalls ?ps ''buildStart'' buildStart @ ?tevs,
              Inl (JsError ''boom''))" by blast
  then show "build 5 exampleHost exampleConfig ?ps =
   Some ([ConsoleLog ''Starting build...'', HookCall ''observer'' ''buildStart'',
          TransformCall ''bad'' ''/proj/src/index.ts'',
          ConsoleError ''Error in plugin bad transforming /proj/src/index.ts:'' (JsError ''boom'')],
         Inl (JsError ''boom''))"
    by (simp add: loadPlugins_def hookCalls_def observerPlugin_def throwingPlugin_def
          markPlugin_def plainPlugin_def)
next
  let ?ps = "[pickyPlugin ''picky'' ''/proj/src/util.ts'' ''boom'']"
  let ?dep = "\<lparr>di_id = IdString ''./util'', resolved = Some ''/proj/src/util.ts'',
               isExternal = False\<rparr>"
  let ?ctx = "\<lparr>config = exampleConfig, plugins = ?ps, entryPoints = [''/proj/src/index.ts''],
               outputs = [], processed = [], dependencies = [], moduleGraph = []\<rparr>"
  let ?c1 = "\<lparr>config = exampleConfig, plugins = ?ps, entryPoints = [''/proj/src/index.ts''],
              outputs = [(''/proj/src/index.ts'', (indexSource, None))],
              processed = [''/proj/src/index.ts''], dependencies = [],
              moduleGraph = [(''/proj/src/index.ts'', [?dep])]\<rparr>"
  let ?tevs = "[TransformCall ''picky'' ''/proj/src/util.ts'',
          ConsoleError ''Error in plugin picky transforming /proj/src/util.ts:'' (JsError ''boom'')]"
  let ?evs = "[ConsoleLog ''Starting build...'',
          TransformCall ''picky'' ''/proj/src/index.ts'',
          TransformCall ''picky'' ''/proj/src/util.ts'',
          ConsoleError ''Error in plugin picky transforming /proj/src/util.ts:'' (JsError ''boom'')]"
  have cc: "createBuilderContext exampleHost exampleConfig ?ps = ([], Inr ?ctx)"
    by (simp add: createBuilderContext_def loadPlugins_def resolveEntryPoints_def
          pickyPlugin_def example_host_defs)
  have st: "\<forall>q\<in>set ?ps. \<not> hookThrows q buildStart exampleConfig"
    by (simp add: hookThrows_def pickyPlugin_def plainPlugin_def)
  have en: "enterFile exampleHost ?ctx ''/proj/src/index.ts'' None =
              ([TransformCall ''picky'' ''/proj/src/index.ts''], Inr (?c1, Some [?dep]))"
    by (simp add: enterFile_def build_eval_defs)
  have u1: "''/proj/src/util.ts'' \<notin> set (processed ?c1)" by simp
  have u2: "readContent exampleHost ''/proj/src/util.ts'' = Inr utilSource"
    by (simp add: readContent_def fileExists_def existsSync_def readFile_def exampleHost_def)
  have u3: "utilSource \<noteq> []" by (simp add: utilSource_def)
  have u4: "transform_loop (plugins ?c1) (config ?c1) ''/proj/src/util.ts'' utilSource
              (utilSource, None) = (?tevs, Inl (JsError ''boom''))"
    by (simp add: pickyPlugin_def plainPlugin_def)
  from hook_failure_aborts
         [where fp = "''/proj/src/util.ts''" and ctx = ?c1 and h = exampleHost
            and content = utilSource and tevs = ?tevs and e = "JsError ''boom''" and n = 2
            and imp = "Some ''/proj/src/index.ts''",
          THEN conjunct2, THEN conjunct2, THEN conjunct1] u1 u2 u3 u4
  have f1: "processFile (Suc 2) exampleHost ?c1 ''/proj/src/util.ts'' (Some ''/proj/src/index.ts'') =
              Some (?tevs, Inl (JsError ''boom''))" by blast
  have d0: "processFile_deps (Suc 2) exampleHost ?c1 ''/proj/src/index.ts'' [] = Some ([], Inr ?c1)"
    by simp
  have d1: "resolved ?dep = Some ''/proj/src/util.ts''" "''/proj/src/util.ts'' \<noteq> []"
    "\<not> isExternal ?dep" by simp_all
  from hook_failure_aborts
         [where n = "Suc 2" and h = exampleHost and ctx = ?c1 and fp = "''/proj/src/index.ts''"
            and ds = "[]" and ?e1.0 = "[]" and ?c1.0 = ?c1 and dep = ?dep
            and d = "''/proj/src/util.ts''" and ?e2.0 = ?tevs and e = "JsError ''boom''"
            and rest = "[]",
          THEN conjunct2, THEN conjunct2, THEN conjunct2, THEN conjunct2, THEN conjunct1]
       d0 d1 f1
  have f2: "processFile_deps (Suc 2) exampleHost ?c1 ''/proj/src/index.ts'' ([] @ ?dep # []) =
              Some ([] @ ?tevs, Inl (JsError ''boom''))" by blast
  then have f2': "processFile_deps (Suc 2) exampleHost ?c1 ''/proj/src/index.ts'' [?dep] =
              Some (?tevs, Inl (JsError ''boom''))" by simp
  have i1: "''/proj/src/index.ts'' \<notin> set (processed ?ctx)" by simp
  from hook_failure_aborts
         [where fp = "''/proj/src/index.ts''" and ctx = ?ctx and h = exampleHost and imp = None
            and ?e1.0 = "[TransformCall ''picky'' ''/proj/src/index.ts'']" and ?c1.0 = ?c1
            and deps = "[?dep]" and n = "Suc 2" and ?e2.0 = ?tevs and e = "JsError ''boom''",
          THEN conjunct2, THEN conjunct2, THEN conjunct2, THEN conjunct1] i1 en f2'
  have f3: "processFile (Suc (Suc 2)) exampleHost ?ctx ''/proj/src/index.ts'' None =
              Some ([TransformCall ''picky'' ''/proj/src/index.ts''] @ ?tevs, Inl (JsError ''boom''))"
    by blast
  have p0: "processEntries (Suc (Suc 2)) exampleHost ?ctx [] = Some ([], Inr ?ctx)" by simp
  from hook_failure_aborts
         [where n = "Suc (Suc 2)" and h = exampleHost and ctx = ?ctx and es = "[]"
            and ?e1.0 = "[]" and ?c1.0 = ?ctx and fp = "''/proj/src/index.ts''"
            and ?e2.0 = "[TransformCall ''picky'' ''/proj/src/index.ts''] @ ?tevs"
            and e = "JsError ''boom''" and eps = "[]",
          THEN conjunct2, THEN conjunct2, THEN conjunct2, THEN conjunct2, THEN conjunct2,
          THEN conjunct1] p0 f3
  have f4: "processEntries (Suc (Suc 2)) exampleHost ?ctx ([] @ ''/proj/src/index.ts'' # []) =
              Some ([] @ [TransformCall ''picky'' ''/proj/src/index.ts''] @ ?tevs,
                    Inl (JsError ''boom''))" by blast
  then have f4': "processEntries (Suc (Suc 2)) exampleHost ?ctx (entryPoints ?ctx) =
              Some ([TransformCall ''picky'' ''/proj/src/index.ts''] @ ?tevs,
                    Inl (JsError ''boom''))" by simp
  from hook_failure_aborts
         [where h = exampleHost and cfg = exampleConfig and ps = ?ps and ?e0.0 = "[]"
            and ctx = ?ctx and n = "Suc (Suc 2)"
            and ?e2.0 = "[TransformCall ''picky'' ''/proj/src/index.ts''] @ ?tevs"
            and e = "JsError ''boom''",
          THEN conjunct2, THEN conjunct2, THEN conjunct2, THEN conjunct2, THEN conjunct2,
          THEN conjunct2, THEN conjunct1] cc st f4'
  have f5: "build (Suc (Suc 2)) exampleHost exampleConfig ?ps =
        Some (ConsoleLog ''Starting build...'' # [] @ hookCalls ?ps ''buildStart'' buildStart @
                [TransformCall ''picky'' ''/proj/src/index.ts''] @ ?tevs,
              Inl (JsError ''boom''))" by blast
  have n4: "Suc (Suc 2) = 4" by simp
  from f5 have r4: "build 4 exampleHost exampleConfig ?ps = Some (?evs, Inl (JsError ''boom''))"
    unfolding n4 by (simp add: hookCalls_def pickyPlugin_def plainPlugin_def)
  have r: "build 5 exampleHost exampleConfig ?ps = Some (?evs, Inl (JsError ''boom''))"
    by (rule build_fuel_mono [OF r4]) simp
  then show "build 5 exampleHost exampleConfig ?ps = Some (?evs, Inl (JsError ''boom''))" .
  show t: "transformError exampleHost exampleConfig ?ps ''/proj/src/util.ts'' =
             Some (JsError ''boom'')"
    by (simp add: transformError_def build_eval_defs)
  have tc: "transformCalls ''/proj/src/util.ts'' ?evs \<noteq> []" by (simp add: transformCalls_def)
  from hook_failure_aborts
         [where n = 5 and h = exampleHost and cfg = exampleConfig and ps = ?ps and evs = ?evs
            and out = "Inl (JsError ''boom'')" and fp = "''/proj/src/util.ts''"
            and e = "JsError ''boom''",
          THEN conjunct2, THEN conjunct2, THEN conjunct2, THEN conjunct2, THEN conjunct2,
          THEN conjunct2, THEN conjunct2, THEN conjunct2, THEN conjunct1] r t tc
  show "noWrites ?evs" by blast
qed

text \<open>
  The claim as first stated, with the failure reaching the caller tagged with the plugin's
  name and the hook's name, fails: what reaches the caller is the thrown value alone, the
  same for plugins of different names and for different hooks. The names are in the
  report on the console only.
\<close>

theorem untagged_failure_counterexample:
  "applyPluginHook [throwingPlugin ''first'' ''boom''] ''transform'' transform exampleBuildContext =
     ([HookCall ''first'' ''transform'',
       ConsoleError ''Error in plugin first at hook transform:'' (JsError ''boom'')],
      Inl (JsError ''boom'')) \<and>
   applyPluginHook [(plainPlugin ''second'')\<lparr>buildStart := Some (\<lambda>c. Inl (JsError ''boom''))\<rparr>]
     ''buildStart'' buildStart exampleConfig =
     ([HookCall ''second'' ''buildStart'',
       ConsoleError ''Error in plugin second at hook buildStart:'' (JsError ''boom'')],
      Inl (JsError ''boom''))"
  by (simp add: applyPluginHook_def throwingPlugin_def plainPlugin_def)

lemma writtenPaths_simps [simp]:
  "writtenPaths [] = []"
  "writtenPaths (xs @ ys) = writtenPaths xs @ writtenPaths ys"
  "writtenPaths (WriteFile p t # evs) = p # writtenPaths evs"
  "writtenPaths (EnsureDir d # evs) = writtenPaths evs"
  "writtenPaths (ConsoleLog m # evs) = writtenPaths evs"
  by (simp_all add: writtenPaths_def)

lemma noWrites_writtenPaths: "noWrites evs \<Longrightarrow> writtenPaths evs = []"
proof (induction evs)
  case Nil
  then show ?case by simp
next
  case (Cons ev evs)
  then show ?case by (cases ev) (simp_all add: writtenPaths_def)
qed

lemma writeOutput_writes:
  "WriteFile (outputPathOf h cfg (fst out)) (fst (snd out)) \<in>
     set (writeOutput h cfg (path_resolve h (cwd h) (outDir cfg)) out)"
  by (cases out) (simp add: writeOutput_def writeFile_def outputPathOf_def Let_def)

lemma writeOutput_paths:
  "\<not> sourcemap cfg \<Longrightarrow>
   writtenPaths (writeOutput h cfg (path_resolve h (cwd h) (outDir cfg)) out) =
     [outputPathOf h cfg (fst out)]"
  by (cases out) (simp add: writeOutput_def writeFile_def outputPathOf_def Let_def)

lemma writeOutputs_writes:
  assumes "out \<in> set (outputs ctx)"
  shows "WriteFile (outputPathOf h (config ctx) (fst out)) (fst (snd out)) \<in> set (writeOutputs h ctx)"
proof -
  from assms have
    "writeOutput h (config ctx) (path_resolve h (cwd h) (outDir (config ctx))) out \<in>
       set (map (writeOutput h (config ctx) (path_resolve h (cwd h) (outDir (config ctx))))
              (outputs ctx))"
    by simp
  with writeOutput_writes [of h "config ctx" out] show ?thesis
    by (auto simp add: writeOutputs_def Let_def simp del: set_map)
qed

lemma writeOutputs_paths:
  assumes "\<not> sourcemap (config ctx)"
  shows "writtenPaths (writeOutputs h ctx) =
           map (\<lambda>out. outputPathOf h (config ctx) (fst out)) (outputs ctx)"
proof -
  have "\<And>outs. writtenPaths (concat (map (writeOutput h (config ctx)
                   (path_resolve h (cwd h) (outDir (config ctx)))) outs)) =
               map (\<lambda>out. outputPathOf h (config ctx) (fst out)) outs"
  proof -
    fix outs
    show "writtenPaths (concat (map (writeOutput h (config ctx)
                   (path_resolve h (cwd h) (outDir (config ctx)))) outs)) =
               map (\<lambda>out. outputPathOf h (config ctx) (fst out)) outs"
      by (induction outs) (simp_all add: writeOutput_paths [OF assms])
  qed
  then show ?thesis by (simp add: writeOutputs_def Let_def)
qed

text \<open>
  Claim C4. A build that completes has performed, in this order: the \<open>buildStart\<close>
  hooks, the traversal of the entry points, the \<open>buildEnd\<close> hooks on the outputs of the
  traversal, the writing of the outputs, and one \<open>closeBundle\<close> call for each plugin that
  defines it. Every output is written to its path relative to the working directory under
  the output directory, and without source maps these are all the files written.
\<close>

theorem build_sequence:
  assumes "build n h cfg ps = Some (evs, Inr ctx')"
  shows "\<exists>ctx trav.
    createBuilderContext h cfg ps = (fst (loadPlugins ps), Inr ctx) \<and>
    processEntries n h ctx (entryPoints ctx) = Some (trav, Inr ctx') \<and>
    list_all traversalEvent trav \<and>
    evs = ConsoleLog ''Starting build...'' # fst (loadPlugins ps) @
          hookCalls ps ''buildStart'' buildStart @ trav @ verboseLog cfg ctx' @
          hookCalls ps ''buildEnd'' buildEnd @ writeOutputs h ctx' @ completionLogs h cfg ctx' @
          hookCalls ps ''closeBundle'' closeBundle \<and>
    (\<forall>p\<in>set ps. \<not> hookThrows p buildEnd \<lparr>be_config = cfg, be_outputs = outputs ctx'\<rparr>) \<and>
    (\<forall>out\<in>set (outputs ctx').
       WriteFile (outputPathOf h cfg (fst out)) (fst (snd out)) \<in> set (writeOutputs h ctx')) \<and>
    (\<not> sourcemap cfg \<longrightarrow>
       writtenPaths evs = map (\<lambda>out. outputPathOf h cfg (fst out)) (outputs ctx'))"
  using assms
proof (cases rule: build_cases)
  case (written ctx e2 c' e7 o7)
  from written(7) obtain u where o7: "o7 = Inr u" and c': "c' = ctx'"
    by (cases o7) auto
  note fr = fresh_context_ok [OF written(1)]
  note ts = processEntries_step [OF fr(1) written(3)]
  from ts fr(4) c' have cfg: "config ctx' = cfg" by (simp add: traversalStep_def)
  from ts have te: "list_all traversalEvent e2" by (simp add: traversalStep_def)
  from closeBundle_loop_events [OF written(5)] o7
  have e7: "e7 = hookCalls ps ''closeBundle'' closeBundle" by simp
  have w: "\<forall>out\<in>set (outputs ctx').
       WriteFile (outputPathOf h cfg (fst out)) (fst (snd out)) \<in> set (writeOutputs h ctx')"
    using writeOutputs_writes [of _ ctx' h] cfg by auto
  have p: "\<not> sourcemap cfg \<longrightarrow>
       writtenPaths evs = map (\<lambda>out. outputPathOf h cfg (fst out)) (outputs ctx')"
  proof
    assume "\<not> sourcemap cfg"
    with cfg have "\<not> sourcemap (config ctx')" by simp
    from writeOutputs_paths [OF this, of h] cfg
    have "writtenPaths (writeOutputs h ctx') =
            map (\<lambda>out. outputPathOf h cfg (fst out)) (outputs ctx')" by simp
    then show "writtenPaths evs = map (\<lambda>out. outputPathOf h cfg (fst out)) (outputs ctx')"
      unfolding written(6) c'
      using noWrites_writtenPaths [OF traversalEvents_noWrites [OF te]]
        loadPlugins_plain [of ps] hookCalls_plain [of ps "''buildStart''" buildStart]
        hookCalls_plain [of ps "''buildEnd''" buildEnd] verboseLog_plain [of cfg ctx']
        closeBundle_loop_events [OF written(5)] e7
        hookCalls_plain [of ps "''closeBundle''" closeBundle]
      by (simp add: noWrites_writtenPaths completionLogs_def)
  qed
  from written(1,3,4,6) c' te e7 w p show ?thesis by blast
qed simp_all

lemma observed_build_example:
  "build 5 exampleHost exampleConfig [observerPlugin] =
   Some ([ConsoleLog ''Starting build...'', HookCall ''observer'' ''buildStart'',
          HookCall ''observer'' ''buildEnd'', EnsureDir ''/proj/dist'',
          EnsureDir ''/proj/dist/src'', EnsureDir ''/proj/dist/src'',
          WriteFile ''/proj/dist/src/index.js'' indexSource,
          EnsureDir ''/proj/dist/src'', EnsureDir ''/proj/dist/src'',
          WriteFile ''/proj/dist/src/util.js'' utilSource,
          ConsoleLog ''Build completed'', ConsoleLog ''Processed 2 files'',
          ConsoleLog ''Output directory: /proj/dist'',
          HookCall ''observer'' ''closeBundle''],
         Inr \<lparr>config = exampleConfig, plugins = [observerPlugin],
               entryPoints = [''/proj/src/index.ts''],
               outputs = [(''/proj/src/index.ts'', indexSource, None),
                          (''/proj/src/util.ts'', utilSource, None)],
               processed = [''/proj/src/index.ts'', ''/proj/src/util.ts''],
               dependencies = [(''/proj/src/index.ts'', [''/proj/src/util.ts''])],
               moduleGraph =
                 [(''/proj/src/index.ts'',
                   [\<lparr>di_id = IdString ''./util'', resolved = Some ''/proj/src/util.ts'',
                      isExternal = False\<rparr>]),
                  (''/proj/src/util.ts'', [])]\<rparr>)"
  by (simp add: build_eval_defs)

theorem build_sequence_witness:
  "\<exists>evs ctx'. build 5 exampleHost exampleConfig [observerPlugin] = Some (evs, Inr ctx') \<and>
     length (outputs ctx') = 2 \<and>
     \<not> hookThrows observerPlugin buildEnd \<lparr>be_config = exampleConfig, be_outputs = outputs ctx'\<rparr> \<and>
     writtenPaths evs = [''/proj/dist/src/index.js'', ''/proj/dist/src/util.js'']"
proof -
  note b = observed_build_example
  from build_sequence [OF b] have
    "\<not> sourcemap exampleConfig \<longrightarrow>
       writtenPaths
        [ConsoleLog ''Starting build...'', HookCall ''observer'' ''buildStart'',
          HookCall ''observer'' ''buildEnd'', EnsureDir ''/proj/dist'',
          EnsureDir ''/proj/dist/src'', EnsureDir ''/proj/dist/src'',
          WriteFile ''/proj/dist/src/index.js'' indexSource,
          EnsureDir ''/proj/dist/src'', EnsureDir ''/proj/dist/src'',
          WriteFile ''/proj/dist/src/util.js'' utilSource,
          ConsoleLog ''Build completed'', ConsoleLog ''Processed 2 files'',
          ConsoleLog ''Output directory: /proj/dist'',
          HookCall ''observer'' ''closeBundle''] =
       map (\<lambda>out. outputPathOf exampleHost exampleConfig (fst out))
         [(''/proj/src/index.ts'', indexSource, None), (''/proj/src/util.ts'', utilSource, None)]"
    and "\<forall>p\<in>set [observerPlugin]. \<not> hookThrows p buildEnd
          \<lparr>be_config = exampleConfig,
           be_outputs = [(''/proj/src/index.ts'', indexSource, None),
                         (''/proj/src/util.ts'', utilSource, None)]\<rparr>"
    by auto
  then have "writtenPaths
        [ConsoleLog ''Starting build...'', HookCall ''observer'' ''buildStart'',
          HookCall ''observer'' ''buildEnd'', EnsureDir ''/proj/dist'',
          EnsureDir ''/proj/dist/src'', EnsureDir ''/proj/dist/src'',
          WriteFile ''/proj/dist/src/index.js'' indexSource,
          EnsureDir ''/proj/dist/src'', EnsureDir ''/proj/dist/src'',
          WriteFile ''/proj/dist/src/util.js'' utilSource,
          ConsoleLog ''Build completed'', ConsoleLog ''Processed 2 files'',
          ConsoleLog ''Output directory: /proj/dist'',
          HookCall ''observer'' ''closeBundle''] =
       [''/proj/dist/src/index.js'', ''/proj/dist/src/util.js'']"
    and "\<not> hookThrows observerPlugin buildEnd
          \<lparr>be_config = exampleConfig,
           be_outputs = [(''/proj/src/index.ts'', indexSource, None),
                         (''/proj/src/util.ts'', utilSource, None)]\<rparr>"
    by (simp_all add: outputPathOf_def finalPathOf_def example_host_defs)
  with b show ?thesis by simp
qed

text \<open>
  Claim C10. For a file that is missing or empty and not yet processed, \<open>processFile\<close>
  logs a warning, adds the identity to \<open>processed\<close> and to the dependency set of its
  importer, and leaves \<open>outputs\<close> and \<open>moduleGraph\<close> as they are. In the example with an
  empty \<open>util.ts\<close> two identities are processed while one output is stored and one file
  is written.
\<close>

theorem missing_file_processed_without_output:
  "(missingOrEmpty h fp \<and> fp \<notin> set (processed ctx) \<longrightarrow>
      processFile (Suc n) h ctx fp imp =
        Some ([ConsoleWarn (''Empty or missing file: '' @ fp)], Inr (skipFile imp fp ctx)) \<and>
      fp \<in> set (processed (skipFile imp fp ctx)) \<and>
      (truthy imp \<longrightarrow>
         (\<exists>deps. map_of (dependencies (skipFile imp fp ctx)) (the imp) = Some deps \<and> fp \<in> set deps)) \<and>
      outputs (skipFile imp fp ctx) = outputs ctx \<and>
      moduleGraph (skipFile imp fp ctx) = moduleGraph ctx) \<and>
   (\<exists>evs ctx'. build 5 emptyUtilHost exampleConfig [] = Some (evs, Inr ctx') \<and>
      map fst (outputs ctx') = [''/proj/src/index.ts''] \<and>
      processed ctx' = [''/proj/src/index.ts'', ''/proj/src/util.ts''] \<and>
      writtenPaths evs = [''/proj/dist/src/index.js''] \<and>
      length (outputs ctx') < length (processed ctx'))"
proof (intro conjI impI)
  assume a: "missingOrEmpty h fp \<and> fp \<notin> set (processed ctx)"
  then show "processFile (Suc n) h ctx fp imp =
        Some ([ConsoleWarn (''Empty or missing file: '' @ fp)], Inr (skipFile imp fp ctx))"
    by (simp add: processFile_skips del: processFile.simps)
  show "fp \<in> set (processed (skipFile imp fp ctx))" by (simp add: skipFile_fields)
  show "outputs (skipFile imp fp ctx) = outputs ctx" by (simp add: skipFile_fields)
  show "moduleGraph (skipFile imp fp ctx) = moduleGraph ctx" by (simp add: skipFile_fields)
  assume "truthy imp"
  then show "\<exists>deps. map_of (dependencies (skipFile imp fp ctx)) (the imp) = Some deps \<and> fp \<in> set deps"
    by (rule skipFile_dependencies)
next
  show "\<exists>evs ctx'. build 5 emptyUtilHost exampleConfig [] = Some (evs, Inr ctx') \<and>
      map fst (outputs ctx') = [''/proj/src/index.ts''] \<and>
      processed ctx' = [''/proj/src/index.ts'', ''/proj/src/util.ts''] \<and>
      writtenPaths evs = [''/proj/dist/src/index.js''] \<and>
      length (outputs ctx') < length (processed ctx')"
    by (simp add: build_eval_defs hookCalls_def)
qed

theorem missing_file_processed_without_output_witness:
  "processFile 1 emptyUtilHost exampleContext ''/proj/src/util.ts'' (Some ''/proj/src/index.ts'') =
     Some ([ConsoleWarn ''Empty or missing file: /proj/src/util.ts''],
           Inr (exampleContext
                  \<lparr>processed := [''/proj/src/util.ts''],
                   dependencies := [(''/proj/src/index.ts'', [''/proj/src/util.ts''])]\<rparr>))"
proof -
  have m: "missingOrEmpty emptyUtilHost ''/proj/src/util.ts'' \<and>
           ''/proj/src/util.ts'' \<notin> set (processed exampleContext)"
    by (simp add: missingOrEmpty_def emptyUtilHost_def exampleHost_def exampleContext_def)
  from missing_file_processed_without_output
         [of emptyUtilHost "''/proj/src/util.ts''" exampleContext 0 "Some ''/proj/src/index.ts''"] m
  have "processFile (Suc 0) emptyUtilHost exampleContext ''/proj/src/util.ts''
          (Some ''/proj/src/index.ts'') =
        Some ([ConsoleWarn (''Empty or missing file: '' @ ''/proj/src/util.ts'')],
              Inr (skipFile (Some ''/proj/src/index.ts'') ''/proj/src/util.ts'' exampleContext))"
    by blast
  then show ?thesis
    by (simp add: skipFile_def recordImporter_def addDependency_def truthy_def set_add_def
          exampleContext_def del: processFile.simps)
qed

lemma processFile_missing_returns:
  assumes "missingOrEmpty h fp"
  shows "\<exists>evs ctx'. processFile (Suc n) h ctx fp imp = Some (evs, Inr ctx') \<and>
           outputs ctx' = outputs ctx \<and> moduleGraph ctx' = moduleGraph ctx \<and>
           (fp \<notin> set (processed ctx) \<longrightarrow> evs = [ConsoleWarn (''Empty or missing file: '' @ fp)])"
proof (cases "fp \<in> set (processed ctx)")
  case True
  then show ?thesis by simp
next
  case False
  from processFile_skips [OF assms False, of n imp] False show ?thesis
    by (simp add: skipFile_fields del: processFile.simps)
qed

lemma invalid_entry_fatal:
  assumes "entry cfg = EntryOther \<or> entry cfg = EntryNull"
  shows "\<exists>e. build n h cfg ps = Some (ConsoleLog ''Starting build...'' # fst (loadPlugins ps), Inl e)"
  using assms by (auto simp: build_def createBuilderContext_def resolveEntryPoints_def loadPlugins_def)

lemma valid_entry_context:
  assumes "entry cfg \<noteq> EntryOther \<and> entry cfg \<noteq> EntryNull"
  shows "\<exists>ctx0. createBuilderContext h cfg ps = (fst (loadPlugins ps), Inr ctx0)"
  using assms
  by (cases "entry cfg")
     (auto simp: createBuilderContext_def resolveEntryPoints_def loadPlugins_def)

text \<open>
  Claim C8. A missing or empty source file is not fatal: \<open>processFile\<close> returns normally
  with a warning and without an output for it, and the loops over the entry points and
  over the dependencies go on with the modules that follow it. The build context is created
  exactly when the entry configuration is a string, an array or an object; for any other
  entry configuration the build fails before any hook is called or any file is visited.
\<close>

theorem missing_file_not_fatal:
  "(missingOrEmpty h fp \<longrightarrow>
      (\<exists>evs ctx'. processFile (Suc n) h ctx fp imp = Some (evs, Inr ctx') \<and>
         outputs ctx' = outputs ctx \<and> moduleGraph ctx' = moduleGraph ctx \<and>
         (fp \<notin> set (processed ctx) \<longrightarrow> evs = [ConsoleWarn (''Empty or missing file: '' @ fp)]))) \<and>
   (missingOrEmpty h fp \<and> fp \<notin> set (processed ctx) \<longrightarrow>
      processEntries (Suc n) h ctx (fp # rest) =
        (case processEntries (Suc n) h (skipFile None fp ctx) rest of
           None \<Rightarrow> None
         | Some (evs, out) \<Rightarrow> Some (ConsoleWarn (''Empty or missing file: '' @ fp) # evs, out))) \<and>
   (missingOrEmpty h fp \<and> fp \<notin> set (processed ctx) \<and> resolved dep = Some fp \<and> fp \<noteq> [] \<and>
    \<not> isExternal dep \<longrightarrow>
      processFile_deps (Suc n) h ctx importer (dep # deps) =
        (case processFile_deps (Suc n) h (skipFile (Some importer) fp ctx) importer deps of
           None \<Rightarrow> None
         | Some (evs, out) \<Rightarrow> Some (ConsoleWarn (''Empty or missing file: '' @ fp) # evs, out))) \<and>
   (entry cfg = EntryOther \<or> entry cfg = EntryNull \<longrightarrow>
      (\<exists>e. build n h cfg ps = Some (ConsoleLog ''Starting build...'' # fst (loadPlugins ps), Inl e))) \<and>
   (entry cfg \<noteq> EntryOther \<and> entry cfg \<noteq> EntryNull \<longrightarrow>
      (\<exists>ctx0. createBuilderContext h cfg ps = (fst (loadPlugins ps), Inr ctx0)))"
proof (intro conjI impI)
  assume "missingOrEmpty h fp"
  then show "\<exists>evs ctx'. processFile (Suc n) h ctx fp imp = Some (evs, Inr ctx') \<and>
         outputs ctx' = outputs ctx \<and> moduleGraph ctx' = moduleGraph ctx \<and>
         (fp \<notin> set (processed ctx) \<longrightarrow> evs = [ConsoleWarn (''Empty or missing file: '' @ fp)])"
    by (rule processFile_missing_returns)
next
  assume "missingOrEmpty h fp \<and> fp \<notin> set (processed ctx)"
  then have "processFile (Suc n) h ctx fp None =
        Some ([ConsoleWarn (''Empty or missing file: '' @ fp)], Inr (skipFile None fp ctx))"
    by (simp add: processFile_skips del: processFile.simps)
  then show "processEntries (Suc n) h ctx (fp # rest) =
        (case processEntries (Suc n) h (skipFile None fp ctx) rest of
           None \<Rightarrow> None
         | Some (evs, out) \<Rightarrow> Some (ConsoleWarn (''Empty or missing file: '' @ fp) # evs, out))"
    by (simp del: processFile.simps split: option.splits)
next
  assume a: "missingOrEmpty h fp \<and> fp \<notin> set (processed ctx) \<and> resolved dep = Some fp \<and>
             fp \<noteq> [] \<and> \<not> isExternal dep"
  then have "processFile (Suc n) h ctx fp (Some importer) =
        Some ([ConsoleWarn (''Empty or missing file: '' @ fp)],
              Inr (skipFile (Some importer) fp ctx))"
    by (simp add: processFile_skips del: processFile.simps)
  with a show "processFile_deps (Suc n) h ctx importer (dep # deps) =
        (case processFile_deps (Suc n) h (skipFile (Some importer) fp ctx) importer deps of
           None \<Rightarrow> None
         | Some (evs, out) \<Rightarrow> Some (ConsoleWarn (''Empty or missing file: '' @ fp) # evs, out))"
    by (simp add: truthy_def del: processFile.simps split: option.splits)
next
  assume "entry cfg = EntryOther \<or> entry cfg = EntryNull"
  then show "\<exists>e. build n h cfg ps =
                 Some (ConsoleLog ''Starting build...'' # fst (loadPlugins ps), Inl e)"
    by (rule invalid_entry_fatal)
next
  assume "entry cfg \<noteq> EntryOther \<and> entry cfg \<noteq> EntryNull"
  then show "\<exists>ctx0. createBuilderContext h cfg ps = (fst (loadPlugins ps), Inr ctx0)"
    by (rule valid_entry_context)
qed

theorem missing_file_not_fatal_witness:
  "processEntries 1 emptyUtilHost exampleContext [''/proj/src/util.ts'', ''/proj/src/util.ts''] =
     Some ([ConsoleWarn ''Empty or missing file: /proj/src/util.ts''],
           Inr (exampleContext\<lparr>processed := [''/proj/src/util.ts'']\<rparr>))"
proof -
  have m: "missingOrEmpty emptyUtilHost ''/proj/src/util.ts'' \<and>
           ''/proj/src/util.ts'' \<notin> set (processed exampleContext)"
    by (simp add: missingOrEmpty_def emptyUtilHost_def exampleHost_def exampleContext_def)
  from missing_file_not_fatal
         [of emptyUtilHost "''/proj/src/util.ts''" 0 exampleContext _ "[''/proj/src/util.ts'']"] m
  have "processEntries (Suc 0) emptyUtilHost exampleContext
          (''/proj/src/util.ts'' # [''/proj/src/util.ts'']) =
        (case processEntries (Suc 0) emptyUtilHost
                (skipFile None ''/proj/src/util.ts'' exampleContext) [''/proj/src/util.ts''] of
           None \<Rightarrow> None
         | Some (evs, out) \<Rightarrow>
             Some (ConsoleWarn (''Empty or missing file: '' @ ''/proj/src/util.ts'') # evs, out))"
    by blast
  then show ?thesis
    by (simp add: skipFile_def recordImporter_def truthy_def set_add_def exampleContext_def)
qed

lemma find_append_case:
  "List.find P (xs @ ys) = (case List.find P xs of Some x \<Rightarrow> Some x | None \<Rightarrow> List.find P ys)"
  by (induction xs) simp_all

lemma resolveWithExtensions_probe:
  "resolveWithExtensions h specifier basedir cfg =
     List.find (existsSync h) (probeCandidates h specifier basedir cfg)"
  by (simp add: resolveWithExtensions_def probeCandidates_def Let_def find_append_case
        cong: option.case_cong)

lemma resolveId_loop_declined:
  "\<forall>q\<in>set ps. resolveDeclines q ctx \<Longrightarrow>
   \<exists>r. resolveId_loop ps ctx = (hookCalls ps ''resolveId'' resolveId, Inr r) \<and> \<not> truthy r"
proof (induction ps)
  case Nil
  then show ?case by (simp add: hookCalls_Nil truthy_def)
next
  case (Cons q qs)
  then obtain r where IH: "resolveId_loop qs ctx = (hookCalls qs ''resolveId'' resolveId, Inr r)"
    and r: "\<not> truthy r" by auto
  from Cons.prems have d: "resolveDeclines q ctx" by simp
  show ?case
  proof (cases "resolveId q")
    case None
    then show ?thesis using IH r by (simp add: hookCalls_Cons)
  next
    case (Some f)
    with d obtain a where "f ctx = Inr a" "\<not> truthy a"
      by (cases "f ctx") (auto simp: resolveDeclines_def)
    with Some IH r show ?thesis by (simp add: hookCalls_Cons)
  qed
qed

lemma resolveId_loop_first_truthy:
  assumes "resolveId p = Some f" and "f ctx = Inr (Some r)" and "r \<noteq> []"
    and "\<forall>q\<in>set before. resolveDeclines q ctx"
  shows "resolveId_loop (before @ p # after) ctx =
     (hookCalls before ''resolveId'' resolveId @ [HookCall (name p) ''resolveId''], Inr (Some r))"
  using assms(4)
proof (induction before)
  case Nil
  then show ?case using assms(1-3) by (simp add: hookCalls_Nil truthy_def)
next
  case (Cons q qs)
  then have IH: "resolveId_loop (qs @ p # after) ctx =
     (hookCalls qs ''resolveId'' resolveId @ [HookCall (name p) ''resolveId''], Inr (Some r))"
    by simp
  from Cons.prems have d: "resolveDeclines q ctx" by simp
  show ?case
  proof (cases "resolveId q")
    case None
    then show ?thesis using IH by (simp add: hookCalls_Cons)
  next
    case (Some g)
    with d obtain a where "g ctx = Inr a" "\<not> truthy a"
      by (cases "g ctx") (auto simp: resolveDeclines_def)
    with Some IH show ?thesis by (simp add: hookCalls_Cons)
  qed
qed

lemma resolve_url:
  "isUrl s \<Longrightarrow> resolveModuleSpecifier h s imp cfg ps = ([], Inr (externalDependency s))"
  by (simp add: resolveModuleSpecifier_def externalDependency_def)

lemma resolve_bare:
  "\<not> isUrl s \<Longrightarrow> isBare s \<Longrightarrow> aliasFor cfg s = None \<Longrightarrow>
   resolveModuleSpecifier h s imp cfg ps = ([], Inr (externalDependency s))"
  by (simp add: resolveModuleSpecifier_def externalDependency_def)

lemma resolve_by_plugin:
  assumes "\<not> isUrl s" "isBare s \<longrightarrow> aliasFor cfg s \<noteq> None"
    and "resolveId p = Some f"
    and "f \<lparr>rc_config = cfg, rc_importer = imp, rc_source = s\<rparr> = Inr (Some r)" and "r \<noteq> []"
    and "\<forall>q\<in>set before. resolveDeclines q \<lparr>rc_config = cfg, rc_importer = imp, rc_source = s\<rparr>"
  shows "resolveModuleSpecifier h s imp cfg (before @ p # after) =
     (hookCalls before ''resolveId'' resolveId @ [HookCall (name p) ''resolveId''],
      Inr \<lparr>di_id = (if isBare s then the (aliasFor cfg s) else IdString s), resolved = Some r,
           isExternal = False\<rparr>)"
  using assms(1,2) resolveId_loop_first_truthy [OF assms(3,4,5,6), of after] assms(5)
  by (auto simp: resolveModuleSpecifier_def Let_def truthy_def)

lemma resolve_by_probing:
  assumes "\<not> isUrl s" "isBare s \<longrightarrow> aliasFor cfg s \<noteq> None"
    and "\<forall>q\<in>set ps. resolveDeclines q \<lparr>rc_config = cfg, rc_importer = imp, rc_source = s\<rparr>"
  shows "resolveModuleSpecifier h s imp cfg ps =
     (hookCalls ps ''resolveId'' resolveId,
      Inr \<lparr>di_id = (if isBare s then the (aliasFor cfg s) else IdString s),
           resolved = List.find (existsSync h) (probeCandidates h s (importerDir h imp) cfg),
           isExternal = False\<rparr>)"
proof -
  from resolveId_loop_declined [OF assms(3)] obtain r where
    "resolveId_loop ps \<lparr>rc_config = cfg, rc_importer = imp, rc_source = s\<rparr> =
       (hookCalls ps ''resolveId'' resolveId, Inr r)" "\<not> truthy r" by blast
  with assms(1,2) show ?thesis
    by (auto simp: resolveModuleSpecifier_def Let_def resolveWithExtensions_probe importerDir_def)
qed

lemma aliasFor_no_table: "aliases cfg = None \<Longrightarrow> aliasFor cfg s = None"
  by (simp add: aliasFor_def)

lemma aliasFor_no_entry:
  "aliases cfg = Some table \<Longrightarrow>
   map_of table s = Some [] \<or> (map_of table s = None \<and> s \<notin> set objectPrototypeKeys) \<Longrightarrow>
   aliasFor cfg s = None"
  by (auto simp: aliasFor_def aliasLookup_def truthyId_def)

lemma aliasFor_entry:
  "aliases cfg = Some table \<Longrightarrow> map_of table s = Some i \<Longrightarrow> i \<noteq> [] \<Longrightarrow>
   aliasFor cfg s = Some (IdString i)"
  by (simp add: aliasFor_def aliasLookup_def truthyId_def)

lemma continued_identity:
  assumes "(\<not> isBare s \<and> i = s) \<or>
           (isBare s \<and> aliases cfg = Some table \<and> map_of table s = Some i \<and> i \<noteq> [])"
  shows "isBare s \<longrightarrow> aliasFor cfg s \<noteq> None"
    and "(if isBare s then the (aliasFor cfg s) else IdString s) = IdString i"
  using assms by (auto simp: aliasFor_entry)

text \<open>
  Claim C3, as amended. \<open>resolveModuleSpecifier\<close> applies its steps in order. (1) A URL is
  external and unresolved. (2) A bare specifier (no leading \<open>.\<close> or \<open>/\<close>, no colon) is
  external and unresolved when there is no alias table, or when the table has the empty
  string for it, or has no entry for it and the specifier is not the name of a member that
  every object inherits; when the table maps it to a non-empty string, the resolution goes
  on, not external, with that string as the identity. (3) Then the \<open>resolveId\<close> hooks are
  asked in list order and the first truthy answer (not null, not undefined, not the empty
  string) wins, the plugins after it not being asked. (4) When every plugin declines, the
  file system is probed for the candidates in order (literal path, path plus each
  extension, path as a directory with \<open>index\<close> plus each extension) and the first that
  exists wins; when none exists the dependency is unresolved and not external.
\<close>

theorem resolveModuleSpecifier_steps:
  "(isUrl s \<longrightarrow> resolveModuleSpecifier h s imp cfg ps = ([], Inr (externalDependency s))) \<and>
   (\<not> isUrl s \<and> isBare s \<and>
    (aliases cfg = None \<or>
     (aliases cfg = Some table \<and>
      (map_of table s = Some [] \<or>
       (map_of table s = None \<and> s \<notin> set objectPrototypeKeys)))) \<longrightarrow>
      resolveModuleSpecifier h s imp cfg ps = ([], Inr (externalDependency s))) \<and>
   (\<not> isUrl s \<and>
    ((\<not> isBare s \<and> i = s) \<or>
     (isBare s \<and> aliases cfg = Some table \<and> map_of table s = Some i \<and> i \<noteq> [])) \<and>
    resolveId p = Some f \<and>
    f \<lparr>rc_config = cfg, rc_importer = imp, rc_source = s\<rparr> = Inr (Some r) \<and> r \<noteq> [] \<and>
    (\<forall>q\<in>set before. resolveDeclines q \<lparr>rc_config = cfg, rc_importer = imp, rc_source = s\<rparr>) \<longrightarrow>
      resolveModuleSpecifier h s imp cfg (before @ p # after) =
        (hookCalls before ''resolveId'' resolveId @ [HookCall (name p) ''resolveId''],
         Inr \<lparr>di_id = IdString i, resolved = Some r, isExternal = False\<rparr>)) \<and>
   (\<not> isUrl s \<and>
    ((\<not> isBare s \<and> i = s) \<or>
     (isBare s \<and> aliases cfg = Some table \<and> map_of table s = Some i \<and> i \<noteq> [])) \<and>
    (\<forall>q\<in>set ps. resolveDeclines q \<lparr>rc_config = cfg, rc_importer = imp, rc_source = s\<rparr>) \<longrightarrow>
      resolveModuleSpecifier h s imp cfg ps =
        (hookCalls ps ''resolveId'' resolveId,
         Inr \<lparr>di_id = IdString i,
              resolved = List.find (existsSync h) (probeCandidates h s (importerDir h imp) cfg),
              isExternal = False\<rparr>))"
proof (intro conjI impI)
  assume "isUrl s"
  then show "resolveModuleSpecifier h s imp cfg ps = ([], Inr (externalDependency s))"
    by (rule resolve_url)
next
  assume a: "\<not> isUrl s \<and> isBare s \<and>
    (aliases cfg = None \<or>
     (aliases cfg = Some table \<and>
      (map_of table s = Some [] \<or>
       (map_of table s = None \<and> s \<notin> set objectPrototypeKeys))))"
  then have "aliasFor cfg s = None"
    using aliasFor_no_table [of cfg s] aliasFor_no_entry [of cfg table s] by blast
  with a show "resolveModuleSpecifier h s imp cfg ps = ([], Inr (externalDependency s))"
    by (simp add: resolve_bare)
next
  assume a: "\<not> isUrl s \<and>
    ((\<not> isBare s \<and> i = s) \<or>
     (isBare s \<and> aliases cfg = Some table \<and> map_of table s = Some i \<and> i \<noteq> [])) \<and>
    resolveId p = Some f \<and>
    f \<lparr>rc_config = cfg, rc_importer = imp, rc_source = s\<rparr> = Inr (Some r) \<and> r \<noteq> [] \<and>
    (\<forall>q\<in>set before. resolveDeclines q \<lparr>rc_config = cfg, rc_importer = imp, rc_source = s\<rparr>)"
  then have c: "(\<not> isBare s \<and> i = s) \<or>
     (isBare s \<and> aliases cfg = Some table \<and> map_of table s = Some i \<and> i \<noteq> [])" by simp
  have "resolveModuleSpecifier h s imp cfg (before @ p # after) =
        (hookCalls before ''resolveId'' resolveId @ [HookCall (name p) ''resolveId''],
         Inr \<lparr>di_id = (if isBare s then the (aliasFor cfg s) else IdString s), resolved = Some r,
              isExternal = False\<rparr>)"
    by (rule resolve_by_plugin [OF _ continued_identity(1) [OF c]]) (use a in blast)+
  then show "resolveModuleSpecifier h s imp cfg (before @ p # after) =
        (hookCalls before ''resolveId'' resolveId @ [HookCall (name p) ''resolveId''],
         Inr \<lparr>di_id = IdString i, resolved = Some r, isExternal = False\<rparr>)"
    unfolding continued_identity(2) [OF c] .
next
  assume a: "\<not> isUrl s \<and>
    ((\<not> isBare s \<and> i = s) \<or>
     (isBare s \<and> aliases cfg = Some table \<and> map_of table s = Some i \<and> i \<noteq> [])) \<and>
    (\<forall>q\<in>set ps. resolveDeclines q \<lparr>rc_config = cfg, rc_importer = imp, rc_source = s\<rparr>)"
  then have c: "(\<not> isBare s \<and> i = s) \<or>
     (isBare s \<and> aliases cfg = Some table \<and> map_of table s = Some i \<and> i \<noteq> [])" by simp
  have "resolveModuleSpecifier h s imp cfg ps =
        (hookCalls ps ''resolveId'' resolveId,
         Inr \<lparr>di_id = (if isBare s then the (aliasFor cfg s) else IdString s),
              resolved = List.find (existsSync h) (probeCandidates h s (importerDir h imp) cfg),
              isExternal = False\<rparr>)"
    by (rule resolve_by_probing [OF _ continued_identity(1) [OF c]]) (use a in blast)+
  then show "resolveModuleSpecifier h s imp cfg ps =
        (hookCalls ps ''resolveId'' resolveId,
         Inr \<lparr>di_id = IdString i,
              resolved = List.find (existsSync h) (probeCandidates h s (importerDir h imp) cfg),
              isExternal = False\<rparr>)"
    unfolding continued_identity(2) [OF c] .
qed

lemmas resolve_eval_defs =
  isUrl_def isBare_def aliasFor_def aliasLookup_def truthyId_def objectPrototypeKeys_def
  truthy_def externalDependency_def resolveDeclines_def
  probeCandidates_def importerDir_def defaultExtensions_def existsSync_def hookCalls_def
  resolverPlugin_def aliasConfig_def example_host_defs

theorem resolveModuleSpecifier_steps_witness:
  "resolveModuleSpecifier exampleHost ''https://cdn/x.js'' ''/proj/src/index.ts'' exampleConfig [] =
     ([], Inr \<lparr>di_id = IdString ''https://cdn/x.js'', resolved = None, isExternal = True\<rparr>) \<and>
   resolveModuleSpecifier exampleHost ''lodash'' ''/proj/src/index.ts'' exampleConfig [] =
     ([], Inr \<lparr>di_id = IdString ''lodash'', resolved = None, isExternal = True\<rparr>) \<and>
   resolveModuleSpecifier exampleHost ''react'' ''/proj/src/index.ts'' aliasConfig [] =
     ([], Inr \<lparr>di_id = IdString ''react'', resolved = None, isExternal = True\<rparr>) \<and>
   resolveModuleSpecifier exampleHost ''@lib'' ''/proj/src/index.ts'' aliasConfig
       [resolverPlugin ''P1'' None, resolverPlugin ''P2'' (Some ''/proj/src/util.ts''),
        resolverPlugin ''P3'' (Some ''/other'')] =
     ([HookCall ''P1'' ''resolveId'', HookCall ''P2'' ''resolveId''],
      Inr \<lparr>di_id = IdString ''./util'', resolved = Some ''/proj/src/util.ts'',
           isExternal = False\<rparr>) \<and>
   resolveModuleSpecifier exampleHost ''./util'' ''/proj/src/index.ts'' exampleConfig
       [resolverPlugin ''P1'' None] =
     ([HookCall ''P1'' ''resolveId''],
      Inr \<lparr>di_id = IdString ''./util'', resolved = Some ''/proj/src/util.ts'',
           isExternal = False\<rparr>) \<and>
   resolveModuleSpecifier exampleHost ''./missing'' ''/proj/src/index.ts'' exampleConfig [] =
     ([], Inr \<lparr>di_id = IdString ''./missing'', resolved = None, isExternal = False\<rparr>)"
proof (intro conjI)
  have "isUrl ''https://cdn/x.js''" by (simp add: resolve_eval_defs)
  with resolveModuleSpecifier_steps
         [of "''https://cdn/x.js''" exampleHost "''/proj/src/index.ts''" exampleConfig "[]"]
  have "resolveModuleSpecifier exampleHost ''https://cdn/x.js'' ''/proj/src/index.ts''
          exampleConfig [] = ([], Inr (externalDependency ''https://cdn/x.js''))" by blast
  then show "resolveModuleSpecifier exampleHost ''https://cdn/x.js'' ''/proj/src/index.ts''
      exampleConfig [] =
     ([], Inr \<lparr>di_id = IdString ''https://cdn/x.js'', resolved = None, isExternal = True\<rparr>)"
    by (simp add: externalDependency_def)
next
  have "\<not> isUrl ''lodash'' \<and> isBare ''lodash'' \<and> aliases exampleConfig = None"
    by (simp add: resolve_eval_defs)
  with resolveModuleSpecifier_steps
         [of "''lodash''" exampleHost "''/proj/src/index.ts''" exampleConfig "[]"]
  have "resolveModuleSpecifier exampleHost ''lodash'' ''/proj/src/index.ts'' exampleConfig [] =
          ([], Inr (externalDependency ''lodash''))" by blast
  then show "resolveModuleSpecifier exampleHost ''lodash'' ''/proj/src/index.ts'' exampleConfig [] =
     ([], Inr \<lparr>di_id = IdString ''lodash'', resolved = None, isExternal = True\<rparr>)"
    by (simp add: externalDependency_def)
next
  have "\<not> isUrl ''react'' \<and> isBare ''react'' \<and>
        aliases aliasConfig = Some [(''@lib'', ''./util''), (''lodash'', '''')] \<and>
        map_of [(''@lib'', ''./util''), (''lodash'', '''')] ''react'' = None \<and>
        ''react'' \<notin> set objectPrototypeKeys"
    by (simp add: resolve_eval_defs)
  with resolveModuleSpecifier_steps
         [of "''react''" exampleHost "''/proj/src/index.ts''" aliasConfig "[]"
             "[(''@lib'', ''./util''), (''lodash'', '''')]"]
  have "resolveModuleSpecifier exampleHost ''react'' ''/proj/src/index.ts'' aliasConfig [] =
          ([], Inr (externalDependency ''react''))" by blast
  then show "resolveModuleSpecifier exampleHost ''react'' ''/proj/src/index.ts'' aliasConfig [] =
     ([], Inr \<lparr>di_id = IdString ''react'', resolved = None, isExternal = True\<rparr>)"
    by (simp add: externalDependency_def)
next
  have "\<not> isUrl ''@lib'' \<and>
        ((\<not> isBare ''@lib'' \<and> ''./util'' = ''@lib'') \<or>
         (isBare ''@lib'' \<and>
          aliases aliasConfig = Some [(''@lib'', ''./util''), (''lodash'', '''')] \<and>
          map_of [(''@lib'', ''./util''), (''lodash'', '''')] ''@lib'' = Some ''./util'' \<and>
          ''./util'' \<noteq> [])) \<and>
        resolveId (resolverPlugin ''P2'' (Some ''/proj/src/util.ts'')) =
          Some (\<lambda>ctx. Inr (Some ''/proj/src/util.ts'')) \<and>
        (\<lambda>ctx. Inr (Some ''/proj/src/util.ts''))
          \<lparr>rc_config = aliasConfig, rc_importer = ''/proj/src/index.ts'', rc_source = ''@lib''\<rparr> =
          (Inr (Some ''/proj/src/util.ts'') :: js_error + string option) \<and>
        ''/proj/src/util.ts'' \<noteq> [] \<and>
        (\<forall>q\<in>set [resolverPlugin ''P1'' None].
           resolveDeclines q \<lparr>rc_config = aliasConfig, rc_importer = ''/proj/src/index.ts'',
                              rc_source = ''@lib''\<rparr>)"
    by (simp add: resolve_eval_defs)
  with resolveModuleSpecifier_steps
         [of "''@lib''" exampleHost "''/proj/src/index.ts''" aliasConfig "[]"
             "[(''@lib'', ''./util''), (''lodash'', '''')]" "''./util''"
             "resolverPlugin ''P2'' (Some ''/proj/src/util.ts'')"
             "\<lambda>ctx. Inr (Some ''/proj/src/util.ts'')" "''/proj/src/util.ts''"
             "[resolverPlugin ''P1'' None]" "[resolverPlugin ''P3'' (Some ''/other'')]"]
  have "resolveModuleSpecifier exampleHost ''@lib'' ''/proj/src/index.ts'' aliasConfig
          ([resolverPlugin ''P1'' None] @ resolverPlugin ''P2'' (Some ''/proj/src/util.ts'') #
           [resolverPlugin ''P3'' (Some ''/other'')]) =
        (hookCalls [resolverPlugin ''P1'' None] ''resolveId'' resolveId @
           [HookCall (name (resolverPlugin ''P2'' (Some ''/proj/src/util.ts''))) ''resolveId''],
         Inr \<lparr>di_id = IdString ''./util'', resolved = Some ''/proj/src/util.ts'',
              isExternal = False\<rparr>)" by blast
  then show "resolveModuleSpecifier exampleHost ''@lib'' ''/proj/src/index.ts'' aliasConfig
       [resolverPlugin ''P1'' None, resolverPlugin ''P2'' (Some ''/proj/src/util.ts''),
        resolverPlugin ''P3'' (Some ''/other'')] =
     ([HookCall ''P1'' ''resolveId'', HookCall ''P2'' ''resolveId''],
      Inr \<lparr>di_id = IdString ''./util'', resolved = Some ''/proj/src/util.ts'',
           isExternal = False\<rparr>)"
    by (simp add: resolve_eval_defs)
next
  have "\<not> isUrl ''./util'' \<and>
        ((\<not> isBare ''./util'' \<and> ''./util'' = ''./util'') \<or>
         (isBare ''./util'' \<and> aliases exampleConfig = Some [] \<and>
          map_of [] ''./util'' = Some ''./util'' \<and> ''./util'' \<noteq> [])) \<and>
        (\<forall>q\<in>set [resolverPlugin ''P1'' None].
           resolveDeclines q \<lparr>rc_config = exampleConfig, rc_importer = ''/proj/src/index.ts'',
                              rc_source = ''./util''\<rparr>)"
    by (simp add: resolve_eval_defs)
  with resolveModuleSpecifier_steps
         [of "''./util''" exampleHost "''/proj/src/index.ts''" exampleConfig
             "[resolverPlugin ''P1'' None]" "[]" "''./util''"]
  have "resolveModuleSpecifier exampleHost ''./util'' ''/proj/src/index.ts'' exampleConfig
          [resolverPlugin ''P1'' None] =
        (hookCalls [resolverPlugin ''P1'' None] ''resolveId'' resolveId,
         Inr \<lparr>di_id = IdString ''./util'',
              resolved = List.find (existsSync exampleHost)
                           (probeCandidates exampleHost ''./util''
                              (importerDir exampleHost ''/proj/src/index.ts'') exampleConfig),
              isExternal = False\<rparr>)" by blast
  then show "resolveModuleSpecifier exampleHost ''./util'' ''/proj/src/index.ts'' exampleConfig
       [resolverPlugin ''P1'' None] =
     ([HookCall ''P1'' ''resolveId''],
      Inr \<lparr>di_id = IdString ''./util'', resolved = Some ''/proj/src/util.ts'',
           isExternal = False\<rparr>)"
    by (simp add: resolve_eval_defs)
next
  have "\<not> isUrl ''./missing'' \<and>
        ((\<not> isBare ''./missing'' \<and> ''./missing'' = ''./missing'') \<or>
         (isBare ''./missing'' \<and> aliases exampleConfig = Some [] \<and>
          map_of [] ''./missing'' = Some ''./missing'' \<and> ''./missing'' \<noteq> [])) \<and>
        (\<forall>q\<in>set []. resolveDeclines q \<lparr>rc_config = exampleConfig,
            rc_importer = ''/proj/src/index.ts'', rc_source = ''./missing''\<rparr>)"
    by (simp add: resolve_eval_defs)
  with resolveModuleSpecifier_steps
         [of "''./missing''" exampleHost "''/proj/src/index.ts''" exampleConfig "[]" "[]"
             "''./missing''"]
  have "resolveModuleSpecifier exampleHost ''./missing'' ''/proj/src/index.ts'' exampleConfig [] =
        (hookCalls [] ''resolveId'' resolveId,
         Inr \<lparr>di_id = IdString ''./missing'',
              resolved = List.find (existsSync exampleHost)
                           (probeCandidates exampleHost ''./missing''
                              (importerDir exampleHost ''/proj/src/index.ts'') exampleConfig),
              isExternal = False\<rparr>)" by blast
  then show "resolveModuleSpecifier exampleHost ''./missing'' ''/proj/src/index.ts'' exampleConfig [] =
     ([], Inr \<lparr>di_id = IdString ''./missing'', resolved = None, isExternal = False\<rparr>)"
    by (simp add: resolve_eval_defs)
qed

text \<open>
  The claim as first stated fails in three places. With the first answer that is not null
  winning: a plugin that answers the empty string is passed over and the next plugin's
  answer is taken. With every specifier that the alias table rewrites going on as not
  external: a specifier that the table maps to the empty string is external. With every
  bare specifier that the table does not rewrite being external: under a table without an
  entry for it, the specifier \<open>constructor\<close> is not external, and its identity is the
  function that the table inherits under that name.
\<close>

theorem resolveId_first_non_null_counterexample:
  "firstNonNullAnswer
     [resolverPlugin ''P1'' (Some ''''), resolverPlugin ''P2'' (Some ''/x'')]
     \<lparr>rc_config = exampleConfig, rc_importer = ''/proj/src/index.ts'', rc_source = ''./util''\<rparr> =
     Some '''' \<and>
   resolveModuleSpecifier exampleHost ''./util'' ''/proj/src/index.ts'' exampleConfig
     [resolverPlugin ''P1'' (Some ''''), resolverPlugin ''P2'' (Some ''/x'')] =
     ([HookCall ''P1'' ''resolveId'', HookCall ''P2'' ''resolveId''],
      Inr \<lparr>di_id = IdString ''./util'', resolved = Some ''/x'', isExternal = False\<rparr>) \<and>
   map_of (the (aliases aliasConfig)) ''lodash'' = Some '''' \<and>
   resolveModuleSpecifier exampleHost ''lodash'' ''/proj/src/index.ts'' aliasConfig [] =
     ([], Inr \<lparr>di_id = IdString ''lodash'', resolved = None, isExternal = True\<rparr>) \<and>
   map_of (the (aliases aliasConfig)) ''constructor'' = None \<and>
   resolveModuleSpecifier exampleHost ''constructor'' ''/proj/src/index.ts'' aliasConfig [] =
     ([], Inr \<lparr>di_id = IdMember ''constructor'', resolved = None, isExternal = False\<rparr>)"
  by (simp add: firstNonNullAnswer_def resolveAnswers_def resolveModuleSpecifier_def
        resolveWithExtensions_def Let_def resolve_eval_defs)

lemma notifyClients_open:
  "notifyClients srv data = map (\<lambda>c. ClientSend c data) (openClients srv)"
proof -
  have "\<And>cs. concat (map (\<lambda>(client, isOpen). if isOpen then [ClientSend client data] else []) cs) =
             map (\<lambda>c. ClientSend c data) (map fst (filter snd cs))"
  proof -
    fix cs :: "(nat \<times> bool) list"
    show "concat (map (\<lambda>(client, isOpen). if isOpen then [ClientSend client data] else []) cs) =
             map (\<lambda>c. ClientSend c data) (map fst (filter snd cs))"
      by (induction cs) auto
  qed
  then show ?thesis by (simp add: notifyClients_def openClients_def)
qed

lemma notifyPlugins_loop_events:
  "notifyPlugins_loop ps p = (evs, out) \<Longrightarrow> ClientSend c d \<notin> set evs"
proof (induction ps arbitrary: evs out)
  case Nil
  then show ?case by simp
next
  case (Cons q qs)
  obtain e1 o1 where w:
    "(case watchChange q of
        None \<Rightarrow> ([], Inr ())
      | Some f \<Rightarrow>
          (case f p of
             Inl error \<Rightarrow> ([HookCall (name q) ''watchChange''], Inl error)
           | Inr r \<Rightarrow> ([HookCall (name q) ''watchChange''], Inr ()))) = (e1, o1 :: js_error + unit)"
    by (cases "(case watchChange q of
        None \<Rightarrow> ([], Inr ())
      | Some f \<Rightarrow>
          (case f p of
             Inl error \<Rightarrow> ([HookCall (name q) ''watchChange''], Inl error)
           | Inr r \<Rightarrow> ([HookCall (name q) ''watchChange''], Inr ()))) :: event list \<times> (js_error + unit)")
  then have n1: "ClientSend c d \<notin> set e1"
    by (auto split: option.splits sum.splits)
  obtain e2 o2 where u:
    "(case handleHotUpdate q of
        None \<Rightarrow> ([], Inr ())
      | Some g \<Rightarrow>
          (case g p of
             Inl error \<Rightarrow> ([HookCall (name q) ''handleHotUpdate''], Inl error)
           | Inr r \<Rightarrow> ([HookCall (name q) ''handleHotUpdate''], Inr ()))) = (e2, o2 :: js_error + unit)"
    by (cases "(case handleHotUpdate q of
        None \<Rightarrow> ([], Inr ())
      | Some g \<Rightarrow>
          (case g p of
             Inl error \<Rightarrow> ([HookCall (name q) ''handleHotUpdate''], Inl error)
           | Inr r \<Rightarrow> ([HookCall (name q) ''handleHotUpdate''], Inr ()))) :: event list \<times> (js_error + unit)")
  then have n2: "ClientSend c d \<notin> set e2"
    by (auto split: option.splits sum.splits)
  obtain e3 o3 where rest: "notifyPlugins_loop qs p = (e3, o3)"
    by (cases "notifyPlugins_loop qs p")
  from Cons.IH [OF rest] have n3: "ClientSend c d \<notin> set e3" .
  from Cons.prems have "evs = e1 \<or> evs = e1 @ e2 \<or> evs = e1 @ e2 @ e3"
    unfolding notifyPlugins_loop.simps w u rest
    by (auto split: sum.splits)
  with n1 n2 n3 show ?case by auto
qed

text \<open>
  Claim C5, as amended. When the plugins' \<open>watchChange\<close> and \<open>handleHotUpdate\<close> hooks have
  returned, the change handler sends one message to every open client and to no other: for
  a path with a script ending the message has type \<open>update\<close>, the time stamp of the event
  and a module list that holds the changed path; for any other path it is the message of
  type \<open>reload\<close> with no other field. When one of these hooks throws, the handler ends
  with the thrown value and sends no message.
\<close>

theorem change_broadcast:
  "(notifyPlugins_loop (srv_plugins srv) p = (evs, Inr u) \<longrightarrow>
      onChange srv now p =
        (ConsoleLog (''File changed: '' @ p) #
         ConsoleLog (''Calculating affected modules for: '' @ p) # evs @
         map (\<lambda>c. ClientSend c (changePayload now p)) (openClients srv), Inr ()) \<and>
      (\<forall>c d. ClientSend c d \<notin> set evs)) \<and>
   (notifyPlugins_loop (srv_plugins srv) p = (evs, Inl e) \<longrightarrow>
      onChange srv now p =
        (ConsoleLog (''File changed: '' @ p) #
         ConsoleLog (''Calculating affected modules for: '' @ p) # evs, Inl e) \<and>
      (\<forall>c d. ClientSend c d \<notin> set (fst (onChange srv now p)))) \<and>
   (hasScriptEnding p \<longrightarrow>
      p_type (changePayload now p) = Update \<and>
      p_timestamp (changePayload now p) = Some now \<and>
      (\<exists>ms. p_modules (changePayload now p) = Some ms \<and> p \<in> set ms)) \<and>
   (\<not> hasScriptEnding p \<longrightarrow>
      changePayload now p =
        \<lparr>p_type = Reload, p_path = None, p_timestamp = None, p_modules = None,
         p_message = None, p_stack = None\<rparr>)"
proof (intro conjI impI allI)
  assume r: "notifyPlugins_loop (srv_plugins srv) p = (evs, Inr u)"
  then show "onChange srv now p =
        (ConsoleLog (''File changed: '' @ p) #
         ConsoleLog (''Calculating affected modules for: '' @ p) # evs @
         map (\<lambda>c. ClientSend c (changePayload now p)) (openClients srv), Inr ())"
    by (simp add: onChange_def getAffectedModules_def notifyClients_open changePayload_def)
  fix c d from r show "ClientSend c d \<notin> set evs" by (rule notifyPlugins_loop_events)
next
  assume r: "notifyPlugins_loop (srv_plugins srv) p = (evs, Inl e)"
  then show o: "onChange srv now p =
        (ConsoleLog (''File changed: '' @ p) #
         ConsoleLog (''Calculating affected modules for: '' @ p) # evs, Inl e)"
    by (simp add: onChange_def getAffectedModules_def)
  fix c d
  from r have "ClientSend c d \<notin> set evs" by (rule notifyPlugins_loop_events)
  then show "ClientSend c d \<notin> set (fst (onChange srv now p))" unfolding o by simp
qed (simp_all add: changePayload_def getAffectedModules_def hasAcceptedUpdate_def
       updatePayload_def reloadPayload_def)

lemmas server_eval_defs =
  exampleServer_def newDevServer_def createHMRPlugin_def hmrTransform_def openClients_def
  changePayload_def hasAcceptedUpdate_def hasScriptEnding_def scriptEndings_def
  updatePayload_def reloadPayload_def getAffectedModules_def endsWith_def
  watchFailPlugin_def plainPlugin_def

theorem change_broadcast_witness:
  "onChange (exampleServer []) 7 ''app.css'' =
     ([ConsoleLog ''File changed: app.css'',
       ConsoleLog ''Calculating affected modules for: app.css'',
       ClientSend 1 \<lparr>p_type = Reload, p_path = None, p_timestamp = None, p_modules = None,
                     p_message = None, p_stack = None\<rparr>,
       ClientSend 3 \<lparr>p_type = Reload, p_path = None, p_timestamp = None, p_modules = None,
                     p_message = None, p_stack = None\<rparr>],
      Inr ()) \<and>
   onChange (exampleServer []) 7 ''app.ts'' =
     ([ConsoleLog ''File changed: app.ts'',
       ConsoleLog ''Calculating affected modules for: app.ts'',
       ClientSend 1 \<lparr>p_type = Update, p_path = Some ''app.ts'', p_timestamp = Some 7,
                     p_modules = Some [''app.ts''], p_message = None, p_stack = None\<rparr>,
       ClientSend 3 \<lparr>p_type = Update, p_path = Some ''app.ts'', p_timestamp = Some 7,
                     p_modules = Some [''app.ts''], p_message = None, p_stack = None\<rparr>],
      Inr ()) \<and>
   onChange (exampleServer [plainPlugin ''P'', watchFailPlugin ''bad'' ''boom'']) 7 ''app.ts'' =
     ([ConsoleLog ''File changed: app.ts'',
       ConsoleLog ''Calculating affected modules for: app.ts'',
       HookCall ''bad'' ''watchChange''],
      Inl (JsError ''boom''))"
proof (intro conjI)
  have n: "notifyPlugins_loop (srv_plugins (exampleServer [])) ''app.css'' = ([], Inr ())"
    by (simp add: server_eval_defs)
  with change_broadcast [of "exampleServer []" "''app.css''" "[]" "()" 7]
  have "onChange (exampleServer []) 7 ''app.css'' =
           (ConsoleLog (''File changed: '' @ ''app.css'') #
            ConsoleLog (''Calculating affected modules for: '' @ ''app.css'') # [] @
            map (\<lambda>c. ClientSend c (changePayload 7 ''app.css'')) (openClients (exampleServer [])),
            Inr ())" by blast
  then show "onChange (exampleServer []) 7 ''app.css'' =
     ([ConsoleLog ''File changed: app.css'',
       ConsoleLog ''Calculating affected modules for: app.css'',
       ClientSend 1 \<lparr>p_type = Reload, p_path = None, p_timestamp = None, p_modules = None,
                     p_message = None, p_stack = None\<rparr>,
       ClientSend 3 \<lparr>p_type = Reload, p_path = None, p_timestamp = None, p_modules = None,
                     p_message = None, p_stack = None\<rparr>],
      Inr ())" by (simp add: server_eval_defs)
next
  have n: "notifyPlugins_loop (srv_plugins (exampleServer [])) ''app.ts'' = ([], Inr ())"
    by (simp add: server_eval_defs)
  with change_broadcast [of "exampleServer []" "''app.ts''" "[]" "()" 7]
  have "onChange (exampleServer []) 7 ''app.ts'' =
           (ConsoleLog (''File changed: '' @ ''app.ts'') #
            ConsoleLog (''Calculating affected modules for: '' @ ''app.ts'') # [] @
            map (\<lambda>c. ClientSend c (changePayload 7 ''app.ts'')) (openClients (exampleServer [])),
            Inr ())" by blast
  then show "onChange (exampleServer []) 7 ''app.ts'' =
     ([ConsoleLog ''File changed: app.ts'',
       ConsoleLog ''Calculating affected modules for: app.ts'',
       ClientSend 1 \<lparr>p_type = Update, p_path = Some ''app.ts'', p_timestamp = Some 7,
                     p_modules = Some [''app.ts''], p_message = None, p_stack = None\<rparr>,
       ClientSend 3 \<lparr>p_type = Update, p_path = Some ''app.ts'', p_timestamp = Some 7,
                     p_modules = Some [''app.ts''], p_message = None, p_stack = None\<rparr>],
      Inr ())" by (simp add: server_eval_defs)
next
  have n: "notifyPlugins_loop
             (srv_plugins (exampleServer [plainPlugin ''P'', watchFailPlugin ''bad'' ''boom'']))
             ''app.ts'' = ([HookCall ''bad'' ''watchChange''], Inl (JsError ''boom''))"
    by (simp add: server_eval_defs)
  with change_broadcast
         [of "exampleServer [plainPlugin ''P'', watchFailPlugin ''bad'' ''boom'']" "''app.ts''"
             "[HookCall ''bad'' ''watchChange'']" _ 7 "JsError ''boom''"]
  have "onChange (exampleServer [plainPlugin ''P'', watchFailPlugin ''bad'' ''boom'']) 7 ''app.ts'' =
        (ConsoleLog (''File changed: '' @ ''app.ts'') #
         ConsoleLog (''Calculating affected modules for: '' @ ''app.ts'') #
         [HookCall ''bad'' ''watchChange''], Inl (JsError ''boom''))" by blast
  then show "onChange (exampleServer [plainPlugin ''P'', watchFailPlugin ''bad'' ''boom'']) 7 ''app.ts'' =
     ([ConsoleLog ''File changed: app.ts'',
       ConsoleLog ''Calculating affected modules for: app.ts'',
       HookCall ''bad'' ''watchChange''],
      Inl (JsError ''boom''))" by simp
qed

text \<open>
  The claim as first stated, with a broadcast for every change event, fails: when the
  \<open>watchChange\<close> hook of a plugin throws, the handler ends there and the two open clients
  are sent nothing.
\<close>

theorem change_not_broadcast_counterexample:
  "openClients (exampleServer [watchFailPlugin ''bad'' ''boom'']) = [1, 3] \<and>
   onChange (exampleServer [watchFailPlugin ''bad'' ''boom'']) 7 ''app.css'' =
     ([ConsoleLog ''File changed: app.css'',
       ConsoleLog ''Calculating affected modules for: app.css'',
       HookCall ''bad'' ''watchChange''],
      Inl (JsError ''boom''))"
  by (simp add: onChange_def server_eval_defs)

lemma serverTransform_loop_chain:
  "serverTransform_loop ps cfg fp content code = (evs, Inr out) \<Longrightarrow>
   evs = transformCallsOf ps fp \<and> out = foldl (serverChainStep cfg fp content) code ps"
proof (induction ps arbitrary: code evs)
  case Nil
  then show ?case by (simp add: transformCallsOf_def)
next
  case (Cons p ps)
  show ?case
  proof (cases "transform p")
    case None
    with Cons show ?thesis by (simp add: transformCallsOf_def serverChainStep_def)
  next
    case (Some f)
    show ?thesis
    proof (cases "f \<lparr>bc_config = cfg, bc_filePath = fp, bc_content = content,
                     bc_code = code, bc_map = None\<rparr>")
      case (Inl e)
      with Some Cons.prems show ?thesis by simp
    next
      case (Inr res)
      with Some Cons.prems obtain evs' where
        rest: "serverTransform_loop ps cfg fp content (applyServerResult res code) = (evs', Inr out)"
        and evs: "evs = TransformCall (name p) fp # evs'"
        by (auto split: prod.splits)
      from Cons.IH [OF rest] Some Inr evs show ?thesis
        by (simp add: transformCallsOf_def serverChainStep_def)
    qed
  qed
qed

lemma script_content_type:
  "ext \<in> set [''.ts'', ''.tsx'', ''.jsx''] \<Longrightarrow> map_of MIME_TYPES ext = Some ''application/javascript''"
  by (auto simp: MIME_TYPES_def)

lemma handleRequest_serves:
  "pathname \<noteq> ''/__aether_hmr_client'' \<Longrightarrow> \<not> endsWith pathname ''/'' \<Longrightarrow>
   fileExists h (path_resolve h (cwd h) (drop 1 pathname)) \<Longrightarrow>
   handleRequest h srv pathname = serveFile h srv (path_resolve h (cwd h) (drop 1 pathname))"
  by (simp add: handleRequest_def Let_def)

text \<open>
  Claim C7, as amended. For a file with the extension \<open>.ts\<close>, \<open>.tsx\<close> or \<open>.jsx\<close> the
  server calls the \<open>transform\<close> hook of every plugin of its list that has one, in list order,
  each with the code the plugins before it produced, starting from the content of the file:
  a non-empty string or an object replaces the running code, while null, undefined and the
  empty string leave it as it is. The body of the response is the code at the end of the
  chain. When a hook throws, the response is the error response with status 500.
\<close>

theorem request_transform_chain:
  assumes "readFile h fp = Inr content"
    and "toLowerCase h (path_extname h fp) \<in> set [''.ts'', ''.tsx'', ''.jsx'']"
  shows "(\<forall>evs code.
            serverTransform_loop (srv_plugins srv) (srv_config srv) fp content content =
              (evs, Inr code) \<longrightarrow>
            serveFile h srv fp =
              (transformCallsOf (srv_plugins srv) fp,
               \<lparr>status = 200, contentType = ''application/javascript'',
                body = serverChain (srv_plugins srv) (srv_config srv) fp content\<rparr>)) \<and>
         (\<forall>evs e.
            serverTransform_loop (srv_plugins srv) (srv_config srv) fp content content =
              (evs, Inl e) \<longrightarrow>
            serveFile h srv fp =
              (evs @ [ConsoleError (''Error serving '' @ fp @ '':'') e],
               \<lparr>status = 500, contentType = ''text/plain'', body = ''500 Internal Server Error''\<rparr>))"
proof (intro conjI allI impI)
  note ct = script_content_type [OF assms(2)]
  fix evs code
  assume l: "serverTransform_loop (srv_plugins srv) (srv_config srv) fp content content =
              (evs, Inr code)"
  from serverTransform_loop_chain [OF l] assms ct l
  show "serveFile h srv fp =
              (transformCallsOf (srv_plugins srv) fp,
               \<lparr>status = 200, contentType = ''application/javascript'',
                body = serverChain (srv_plugins srv) (srv_config srv) fp content\<rparr>)"
    by (simp add: serveFile_def Let_def serverChain_def)
next
  note ct = script_content_type [OF assms(2)]
  fix evs e
  assume l: "serverTransform_loop (srv_plugins srv) (srv_config srv) fp content content =
              (evs, Inl e)"
  from assms ct l
  show "serveFile h srv fp =
              (evs @ [ConsoleError (''Error serving '' @ fp @ '':'') e],
               \<lparr>status = 500, contentType = ''text/plain'', body = ''500 Internal Server Error''\<rparr>)"
    by (simp add: serveFile_def Let_def internalServerError_def)
qed

lemmas request_eval_defs =
  server_eval_defs serveFile_def Let_def readFile_def getExtension_def MIME_TYPES_def
  example_host_defs applyServerResult_def returningPlugin_def serverChain_def
  serverChainStep_def specChain_def specChainStep_def transformCallsOf_def

theorem request_transform_chain_witness:
  "serveFile exampleHost (exampleServer [markPlugin ''M1'', returningPlugin ''P0'' None,
                                         markPlugin ''M2''])
     ''/proj/src/index.ts'' =
   ([TransformCall ''aether:hmr'' ''/proj/src/index.ts'',
     TransformCall ''M1'' ''/proj/src/index.ts'', TransformCall ''P0'' ''/proj/src/index.ts'',
     TransformCall ''M2'' ''/proj/src/index.ts''],
    \<lparr>status = 200, contentType = ''application/javascript'',
     body = indexSource @ ''//M1'' @ ''//M2''\<rparr>)"
proof -
  have r: "readFile exampleHost ''/proj/src/index.ts'' = Inr indexSource"
    by (simp add: readFile_def exampleHost_def)
  have x: "toLowerCase exampleHost (path_extname exampleHost ''/proj/src/index.ts'') \<in>
             set [''.ts'', ''.tsx'', ''.jsx'']"
    by (simp add: exampleHost_def getExtension_def)
  have l: "serverTransform_loop
             (srv_plugins (exampleServer [markPlugin ''M1'', returningPlugin ''P0'' None,
                                          markPlugin ''M2'']))
             (srv_config (exampleServer [markPlugin ''M1'', returningPlugin ''P0'' None,
                                         markPlugin ''M2'']))
             ''/proj/src/index.ts'' indexSource indexSource =
           ([TransformCall ''aether:hmr'' ''/proj/src/index.ts'',
             TransformCall ''M1'' ''/proj/src/index.ts'', TransformCall ''P0'' ''/proj/src/index.ts'',
             TransformCall ''M2'' ''/proj/src/index.ts''],
            Inr (indexSource @ ''//M1'' @ ''//M2''))"
    by (simp add: request_eval_defs)
  from request_transform_chain [OF r x] l
  have "serveFile exampleHost (exampleServer [markPlugin ''M1'', returningPlugin ''P0'' None,
                                         markPlugin ''M2'']) ''/proj/src/index.ts'' =
        (transformCallsOf
           (srv_plugins (exampleServer [markPlugin ''M1'', returningPlugin ''P0'' None,
                                        markPlugin ''M2''])) ''/proj/src/index.ts'',
         \<lparr>status = 200, contentType = ''application/javascript'',
          body = serverChain
                   (srv_plugins (exampleServer [markPlugin ''M1'', returningPlugin ''P0'' None,
                                                markPlugin ''M2'']))
                   (srv_config (exampleServer [markPlugin ''M1'', returningPlugin ''P0'' None,
                                               markPlugin ''M2'']))
                   ''/proj/src/index.ts'' indexSource\<rparr>)"
    by blast
  then show ?thesis by (simp add: request_eval_defs)
qed

text \<open>
  The claim as first stated fails for a plugin that answers the empty string: its answer is
  not null, so the chain of the claim hands the empty string to the next plugin, while the
  server hands it the code as it was before.
\<close>

theorem empty_string_transform_counterexample:
  "specChain
     (srv_plugins (exampleServer [returningPlugin ''P1'' (Some (ResultString '''')), markPlugin ''M'']))
     exampleConfig ''/proj/src/index.ts'' indexSource = ''//M'' \<and>
   snd (serveFile exampleHost
          (exampleServer [returningPlugin ''P1'' (Some (ResultString '''')), markPlugin ''M''])
          ''/proj/src/index.ts'') =
     \<lparr>status = 200, contentType = ''application/javascript'', body = indexSource @ ''//M''\<rparr>"
  by (simp add: request_eval_defs)

lemma map_of_map_delete: "map_of (map_delete k m) k = None"
  by (induction m) (auto simp: map_delete_def)

lemma handleMessage_declined:
  "handleMessage b (decline p st) (updatePayload p [] now) =
     ([ClientLog (''[aether] Module update: '' @ p)], decline p st)"
  by (simp add: handleMessage_def updatePayload_def decline_def map_of_map_delete)

text \<open>
  Claim C9, as amended. \<open>decline\<close> removes the module's entry from \<open>hotModulesMap\<close>. The
  server does not learn of it: for a later change of a file with a script ending it still
  sends the update message, and the client, finding no entry for the module, skips it
  without fetching it, calling a callback or reloading the page. The page is reloaded for a
  change of a file without a script ending, whatever the client has declined.
\<close>

theorem decline_skips_module:
  "map_of (hotModulesMap (decline p st)) p = None \<and>
   (hasScriptEnding p \<longrightarrow>
      changePayload now p = updatePayload p [] now \<and>
      handleMessage b (decline p st) (changePayload now p) =
        ([ClientLog (''[aether] Module update: '' @ p)], decline p st)) \<and>
   (\<not> hasScriptEnding p \<longrightarrow>
      changePayload now p = reloadPayload \<and>
      handleMessage b st' (changePayload now p) =
        ([ClientLog ''[aether] Full page reload'', ClientReload], st'))"
proof (intro conjI impI)
  show "map_of (hotModulesMap (decline p st)) p = None"
    by (simp add: decline_def map_of_map_delete)
next
  assume s: "hasScriptEnding p"
  then show c: "changePayload now p = updatePayload p [] now"
    by (simp add: changePayload_def hasAcceptedUpdate_def getAffectedModules_def)
  show "handleMessage b (decline p st) (changePayload now p) =
        ([ClientLog (''[aether] Module update: '' @ p)], decline p st)"
    unfolding c by (rule handleMessage_declined)
next
  assume s: "\<not> hasScriptEnding p"
  then show c: "changePayload now p = reloadPayload"
    by (simp add: changePayload_def hasAcceptedUpdate_def)
  show "handleMessage b st' (changePayload now p) =
        ([ClientLog ''[aether] Full page reload'', ClientReload], st')"
    unfolding c by (simp add: handleMessage_def reloadPayload_def)
qed

lemmas client_eval_defs =
  handleMessage_def decline_def map_delete_def acceptedState_def exampleBrowser_def
  changePayload_def hasAcceptedUpdate_def hasScriptEnding_def scriptEndings_def endsWith_def
  updatePayload_def reloadPayload_def getAffectedModules_def hotUpdate_def

theorem decline_skips_module_witness:
  "handleMessage exampleBrowser (decline ''/a.ts'' acceptedState) (changePayload 7 ''/a.ts'') =
     ([ClientLog ''[aether] Module update: /a.ts''], \<lparr>hotModulesMap = [], pruneMap = []\<rparr>)"
proof -
  have s: "hasScriptEnding ''/a.ts''"
    by (simp add: hasScriptEnding_def scriptEndings_def endsWith_def)
  from decline_skips_module [of "''/a.ts''" acceptedState 7 exampleBrowser] s
  have "handleMessage exampleBrowser (decline ''/a.ts'' acceptedState) (changePayload 7 ''/a.ts'') =
        ([ClientLog (''[aether] Module update: '' @ ''/a.ts'')], decline ''/a.ts'' acceptedState)"
    by blast
  then show ?thesis by (simp add: decline_def map_delete_def acceptedState_def)
qed

text \<open>
  The claim as first stated fails: after \<open>decline\<close>, a change of the module is answered by
  the server with an update message, and the client's handling of it contains no reload.
  Before \<open>decline\<close> the same message makes the client fetch the module and call its
  callback.
\<close>

theorem decline_no_reload_counterexample:
  "p_type (changePayload 7 ''/a.ts'') = Update \<and>
   ClientReload \<notin> set (fst (handleMessage exampleBrowser (decline ''/a.ts'' acceptedState)
                               (changePayload 7 ''/a.ts''))) \<and>
   fst (handleMessage exampleBrowser acceptedState (changePayload 7 ''/a.ts'')) =
     [ClientLog ''[aether] Module update: /a.ts'', ClientImport ''/a.ts?t=7'',
      ClientCallback ''/a.ts'' 0, ClientLog ''[aether] Hot updated: /a.ts'']"
  by (simp add: client_eval_defs)

lemma createHotContext_accept_example:
  "\<exists>cb. accept ''/a.ts'' (Some cb) (createHotContext ''/a.ts'' \<lparr>hotModulesMap = [], pruneMap = []\<rparr>) =
          Inr (\<lparr>hotModulesMap = [(''/a.ts'', [cb])], pruneMap = []\<rparr>)"
  by (simp add: accept_def createHotContext_def)

end
